(* ===== verification/Prelude.thy ===== *)
theory Prelude
  imports Main "HOL-Library.Char_ord" "HOL-Library.List_Lexorder"
begin

text \<open>
  The prelude of the development: the names of the model's basic types, the collections of
  facts the component theories share, and the generic lemmas on lists and results that more
  than one component uses.

  A Go string is a sequence of bytes; HOL's \<open>string\<close> is a list of 8-bit characters, so a Go
  string is a \<open>string\<close>. A Go \<open>(T, error)\<close> result is a sum: \<open>Inl\<close> carries the error's text,
  \<open>Inr\<close> the value. Go's \<open>int\<close> and \<open>int64\<close> are HOL integers with the 64-bit wrap-around
  written out by \<open>wrap64\<close> where the code can overflow.
\<close>

type_synonym gostring = string
type_synonym 'a res = "string + 'a"

named_theorems go_frame \<open>what an operation leaves unchanged\<close>
named_theorems go_eval \<open>definitions a concrete run unfolds\<close>

section \<open>64-bit integers\<close>

definition int64_min :: int where
  "int64_min = - (2 ^ 63)"

definition int64_max :: int where
  "int64_max = 2 ^ 63 - 1"

definition in_int64 :: "int \<Rightarrow> bool" where
  "in_int64 i \<longleftrightarrow> int64_min \<le> i \<and> i \<le> int64_max"

definition wrap64 :: "int \<Rightarrow> int" where
  "wrap64 i = (i + 2 ^ 63) mod 2 ^ 64 - 2 ^ 63"

lemmas int64_defs = int64_min_def int64_max_def in_int64_def wrap64_def

lemma wrap64_in_range [simp]: "in_int64 (wrap64 i)"
  by (simp add: int64_defs)

lemma wrap64_id: "in_int64 i \<Longrightarrow> wrap64 i = i"
  by (simp add: int64_defs)

lemma wrap64_max_succ: "wrap64 (int64_max + 1) = int64_min"
  by (simp add: int64_defs)

section \<open>Results\<close>

definition is_ok :: "'a res \<Rightarrow> bool" where
  "is_ok r \<longleftrightarrow> (case r of Inl _ \<Rightarrow> False | Inr _ \<Rightarrow> True)"

lemma is_ok_simps [simp]: "is_ok (Inr x)" "\<not> is_ok (Inl e)"
  by (simp_all add: is_ok_def)

lemma is_ok_iff: "is_ok r \<longleftrightarrow> (\<exists>x. r = Inr x)"
  by (cases r) simp_all

section \<open>Numbers\<close>

lemma mod_window: "k * m \<le> b \<Longrightarrow> b < k * m + m \<Longrightarrow> b mod m = b - k * (m :: nat)"
  by (metis add.commute le_add_diff_inverse2 less_diff_conv2 mod_less mod_mult_self1)

section \<open>Lists\<close>

lemma sorted_key_take_drop_le:
  assumes "sorted (map f xs)" and "x \<in> set (take n xs)" and "y \<in> set (drop n xs)"
  shows "f x \<le> f y"
proof -
  have "sorted (map f (take n xs) @ map f (drop n xs))"
    using assms(1) by (simp flip: map_append)
  with assms(2,3) show ?thesis by (auto simp: sorted_append)
qed

lemma distinct_map_filter [intro]: "distinct (map f xs) \<Longrightarrow> distinct (map f (filter P xs))"
  by (rule distinct_map_filter)

lemma filter_partition_length:
  "length (filter P xs) = length (filter (\<lambda>x. P x \<and> Q x) xs) + length (filter (\<lambda>x. P x \<and> \<not> Q x) xs)"
  by (induction xs) auto

lemma dropWhile_rev_last: "rev (dropWhile P (rev xs)) = [] \<or> \<not> P (last (rev (dropWhile P (rev xs))))"
proof (cases "dropWhile P (rev xs)")
  case (Cons y ys)
  then have "\<not> P (hd (dropWhile P (rev xs)))"
    using hd_dropWhile [of P "rev xs"] by simp
  then show ?thesis by (simp add: Cons)
qed simp

end
