(* ===== verification/GoStrings.thy ===== *)
theory GoStrings
  imports Prelude
begin

text \<open>
  What the program uses of Go's strings, strconv, unicode/utf8 and net/url: the decoding that a
  \<open>range\<close> loop over a string performs, \<open>strings.ToLower\<close> (as far as its result is compared
  with ASCII literals), \<open>strings.TrimSpace\<close>, \<open>strings.TrimRight\<close>, \<open>strconv.Itoa\<close>,
  \<open>strconv.Atoi\<close> and \<open>strconv.ParseInt\<close>, \<open>url.PathEscape\<close>, \<open>url.QueryEscape\<close> and
  \<open>url.Values\<close>.
\<close>

abbreviation byte_of :: "char \<Rightarrow> nat" where
  "byte_of c \<equiv> of_char c"

lemma byte_of_less [simp]: "byte_of c < 256"
  by simp

section \<open>UTF-8 decoding\<close>

text \<open>
  \<open>utf8.DecodeRuneInString\<close>: the code point and its width. An invalid or incomplete sequence is
  the replacement character with width 1. The ranges for the second byte exclude overlong forms,
  surrogates and values above U+10FFFF, as the table in unicode/utf8 does.
\<close>

definition rune_error :: nat where
  "rune_error = 0xFFFD"

definition cont :: "nat \<Rightarrow> bool" where
  "cont b \<longleftrightarrow> 0x80 \<le> b \<and> b \<le> 0xBF"

definition second_lo :: "nat \<Rightarrow> nat" where
  "second_lo b0 = (if b0 = 0xE0 then 0xA0 else if b0 = 0xF0 then 0x90 else 0x80)"

definition second_hi :: "nat \<Rightarrow> nat" where
  "second_hi b0 = (if b0 = 0xED then 0x9F else if b0 = 0xF4 then 0x8F else 0xBF)"

definition seq_len :: "nat \<Rightarrow> nat" where
  "seq_len b0 = (if b0 < 0x80 then 1 else if 0xC2 \<le> b0 \<and> b0 \<le> 0xDF then 2
     else if 0xE0 \<le> b0 \<and> b0 \<le> 0xEF then 3 else if 0xF0 \<le> b0 \<and> b0 \<le> 0xF4 then 4 else 0)"

definition decode_rune :: "nat \<Rightarrow> nat list \<Rightarrow> nat \<times> nat" where
  "decode_rune b0 bs =
     (if seq_len b0 = 1 then (b0, 1)
      else case bs of
        b1 # bs1 \<Rightarrow>
          if seq_len b0 = 0 \<or> b1 < second_lo b0 \<or> second_hi b0 < b1 then (rune_error, 1)
          else if seq_len b0 = 2 then ((b0 mod 32) * 64 + b1 mod 64, 2)
          else (case bs1 of
            b2 # bs2 \<Rightarrow>
              if \<not> cont b2 then (rune_error, 1)
              else if seq_len b0 = 3
              then ((b0 mod 16) * 4096 + (b1 mod 64) * 64 + b2 mod 64, 3)
              else (case bs2 of
                b3 # _ \<Rightarrow>
                  if \<not> cont b3 then (rune_error, 1)
                  else ((b0 mod 8) * 262144 + (b1 mod 64) * 4096 + (b2 mod 64) * 64 + b3 mod 64, 4)
              | [] \<Rightarrow> (rune_error, 1))
          | [] \<Rightarrow> (rune_error, 1))
      | [] \<Rightarrow> (rune_error, 1))"

text \<open>The runes of a string, each with the bytes it was decoded from: what a \<open>range\<close> loop sees.\<close>

function runes :: "gostring \<Rightarrow> (nat \<times> gostring) list" where
  "runes [] = []"
| "runes (c # cs) =
     (let d = decode_rune (byte_of c) (map of_char (take 3 cs)); w = snd d - 1
      in (fst d, c # take w cs) # runes (drop w cs))"
  by pat_completeness auto
termination
  by (relation "measure length") (auto simp: less_Suc_eq_le)

declare runes.simps(2) [simp del]

lemma decode_rune_ascii: "b0 < 0x80 \<Longrightarrow> decode_rune b0 bs = (b0, 1)"
  by (simp add: decode_rune_def seq_len_def)

lemma runes_ascii [simp]: "byte_of c < 0x80 \<Longrightarrow> runes (c # cs) = (byte_of c, [c]) # runes cs"
  by (simp add: runes.simps(2) decode_rune_ascii)

lemma runes_concat: "concat (map snd (runes s)) = s"
  by (induction s rule: runes.induct) (simp_all add: runes.simps(2) Let_def)

text \<open>A non-ASCII first byte never decodes to an ASCII code point.\<close>

lemma seq_len_cases:
  assumes "0x80 \<le> b0"
  obtains (bad) "seq_len b0 = 0"
    | (two) "seq_len b0 = 2" "0xC2 \<le> b0" "b0 \<le> 0xDF"
    | (three) "seq_len b0 = 3" "0xE0 \<le> b0" "b0 \<le> 0xEF"
    | (four) "seq_len b0 = 4" "0xF0 \<le> b0" "b0 \<le> 0xF4"
proof -
  consider "0xC2 \<le> b0 \<and> b0 \<le> 0xDF" | "0xE0 \<le> b0 \<and> b0 \<le> 0xEF" | "0xF0 \<le> b0 \<and> b0 \<le> 0xF4"
    | "b0 < 0xC2 \<or> 0xF4 < b0" by linarith
  then show thesis using assms that by cases (auto simp: seq_len_def)
qed

lemma rune2_nonascii:
  assumes "0xC2 \<le> b0" "b0 \<le> 0xDF"
  shows "0x80 \<le> (b0 mod 32) * 64 + (r :: nat)"
  using assms mod_window [of 6 32 b0] by simp

lemma rune3_nonascii:
  assumes "0xE0 \<le> b0" "b0 \<le> 0xEF" "second_lo b0 \<le> b1" "b1 \<le> second_hi b0"
  shows "0x80 \<le> (b0 mod 16) * 4096 + (b1 mod 64) * 64 + (r :: nat)"
proof (cases "b0 = 0xE0")
  case True
  with assms have "0xA0 \<le> b1" "b1 \<le> 0xBF" by (simp_all add: second_lo_def second_hi_def)
  with mod_window [of 2 64 b1] show ?thesis by simp
next
  case False
  with assms(1,2) mod_window [of 14 16 b0] show ?thesis by simp
qed

lemma rune4_nonascii:
  assumes "0xF0 \<le> b0" "b0 \<le> 0xF4" "second_lo b0 \<le> b1" "b1 \<le> second_hi b0"
  shows "0x80 \<le> (b0 mod 8) * 262144 + (b1 mod 64) * 4096 + (r :: nat)"
proof (cases "b0 = 0xF0")
  case True
  with assms have "0x90 \<le> b1" "b1 \<le> 0xBF" by (simp_all add: second_lo_def second_hi_def)
  with mod_window [of 2 64 b1] show ?thesis by simp
next
  case False
  with assms(1,2) mod_window [of 30 8 b0] show ?thesis by simp
qed

lemma decode_rune_nonascii:
  assumes "0x80 \<le> b0"
  shows "0x80 \<le> fst (decode_rune b0 bs)"
proof (rule seq_len_cases [OF assms], goal_cases)
  case 1
  then show ?thesis by (simp add: decode_rune_def rune_error_def split: list.split)
next
  case 2
  then show ?thesis
    by (simp add: decode_rune_def rune_error_def rune2_nonascii split: list.split)
next
  case 3
  then show ?thesis
    by (simp add: decode_rune_def rune_error_def rune3_nonascii not_less split: list.split)
next
  case 4
  have "0x80 \<le> (b0 mod 8) * 262144 + (b1 mod 64) * 4096 + r2 + (r3 :: nat)"
    if "second_lo b0 \<le> b1" "b1 \<le> second_hi b0" for b1 r2 r3
    using rune4_nonascii [OF 4(2,3) that, of "r2 + r3"] by (simp add: add.assoc)
  with 4 show ?thesis
    by (simp add: decode_rune_def rune_error_def not_less split: list.split)
qed

text \<open>The bytes a multi-byte rune is made of are all non-ASCII.\<close>

lemma second_lo_ge: "0x80 \<le> second_lo b0"
  by (simp add: second_lo_def)

lemma decode_rune_tail_nonascii:
  assumes "0x80 \<le> b0" and "b \<in> set (take (snd (decode_rune b0 bs) - 1) bs)"
  shows "0x80 \<le> b"
proof -
  have w1: "take (Suc 0) (x # xs) = [x]" "take 2 (x # y # xs) = [x, y]"
    "take 3 (x # y # z # xs) = [x, y, z]" for x y z :: nat and xs
    by (simp_all add: numeral_eq_Suc)
  note lo = order_trans [OF second_lo_ge [of b0]]
  note facts = decode_rune_def cont_def w1 not_less
  show ?thesis
  proof (rule seq_len_cases [OF assms(1)], goal_cases)
    case 1
    with assms(2) show ?case by (auto simp: facts split: list.splits)
  next
    case 2
    with assms(2) show ?case by (auto simp: facts intro: lo split: list.splits if_splits)
  next
    case 3
    with assms(2) show ?case by (auto simp: facts intro: lo split: list.splits if_splits)
  next
    case 4
    with assms(2) show ?case by (auto simp: facts intro: lo split: list.splits if_splits)
  qed
qed

lemma decode_rune_width: "snd (decode_rune b0 bs) - 1 \<le> 3"
  by (auto simp: decode_rune_def split: list.splits)

text \<open>
  What a \<open>range\<close> loop sees of a byte above ASCII: one rune above ASCII, made of that byte and of
  further bytes above ASCII.
\<close>

lemma runes_nonascii:
  assumes "0x80 \<le> byte_of c"
  obtains r w where "runes (c # cs) = (r, c # take w cs) # runes (drop w cs)" "0x80 \<le> r"
    "\<forall>x \<in> set (take w cs). 0x80 \<le> byte_of x"
proof -
  let ?bs = "map of_char (take 3 cs) :: nat list"
  let ?d = "decode_rune (byte_of c) ?bs"
  let ?w = "snd ?d - 1"
  have "take ?w ?bs = map of_char (take ?w cs)"
    using decode_rune_width [of "byte_of c" ?bs] by (simp add: take_map min_def)
  then have "\<forall>x \<in> set (take ?w cs). 0x80 \<le> byte_of x"
    using decode_rune_tail_nonascii [OF assms, of _ ?bs] by auto
  then show thesis
    using decode_rune_nonascii [OF assms, of ?bs]
    by (intro that [of "fst ?d" ?w]) (simp_all add: runes.simps(2) Let_def)
qed

section \<open>Case folding and trimming\<close>

text \<open>
  \<open>strings.ToLower\<close>. Every use in the program compares the result with ASCII literals, so what
  matters is which runes become ASCII: the letters A to Z, U+0130 (capital I with dot, which
  lowers to \<open>i\<close>) and U+212A (the Kelvin sign, which lowers to \<open>k\<close>). Any other rune above ASCII
  lowers to a rune above ASCII, whose identity no comparison can see; it is kept as it is.
\<close>

definition lower_chunk :: "nat \<times> gostring \<Rightarrow> gostring" where
  "lower_chunk p = (case p of (r, bs) \<Rightarrow>
     if 65 \<le> r \<and> r \<le> 90 then [char_of (r + 32)]
     else if r = 0x130 then ''i'' else if r = 0x212A then ''k'' else bs)"

definition to_lower :: "gostring \<Rightarrow> gostring" where
  "to_lower s = concat (map lower_chunk (runes s))"

text \<open>\<open>strings.TrimSpace\<close> with the White\_Space property of \<open>unicode.IsSpace\<close>.\<close>

definition is_space :: "nat \<Rightarrow> bool" where
  "is_space r \<longleftrightarrow> 9 \<le> r \<and> r \<le> 13 \<or> r = 32 \<or> r = 0x85 \<or> r = 0xA0 \<or> r = 0x1680
     \<or> 0x2000 \<le> r \<and> r \<le> 0x200A \<or> r = 0x2028 \<or> r = 0x2029 \<or> r = 0x202F \<or> r = 0x205F \<or> r = 0x3000"

definition trim_space :: "gostring \<Rightarrow> gostring" where
  "trim_space s =
     (let sp = (\<lambda>p. is_space (fst p))
      in concat (map snd (rev (dropWhile sp (rev (dropWhile sp (runes s)))))))"

text \<open>\<open>strings.TrimRight(s, cut)\<close> for a cutset of one ASCII byte, and \<open>strings.HasPrefix\<close>.\<close>

definition trim_right :: "char \<Rightarrow> gostring \<Rightarrow> gostring" where
  "trim_right c s = rev (dropWhile (\<lambda>x. x = c) (rev s))"

definition has_prefix :: "gostring \<Rightarrow> gostring \<Rightarrow> bool" where
  "has_prefix p s \<longleftrightarrow> take (length p) s = p"

lemma trim_right_last: "trim_right c s = [] \<or> last (trim_right c s) \<noteq> c"
  using dropWhile_rev_last [of "\<lambda>x. x = c" s] by (simp add: trim_right_def)

lemma trim_right_idem [simp]: "trim_right c (trim_right c s) = trim_right c s"
  by (simp add: trim_right_def)

section \<open>Decimal numbers\<close>

definition digit_char :: "nat \<Rightarrow> char" where
  "digit_char d = char_of (48 + d)"

definition is_digit :: "char \<Rightarrow> bool" where
  "is_digit c \<longleftrightarrow> 48 \<le> byte_of c \<and> byte_of c \<le> 57"

definition digit_val :: "char \<Rightarrow> nat" where
  "digit_val c = byte_of c - 48"

fun itoa_nat :: "nat \<Rightarrow> gostring" where
  "itoa_nat n = (if n < 10 then [digit_char n] else itoa_nat (n div 10) @ [digit_char (n mod 10)])"

declare itoa_nat.simps [simp del]

text \<open>\<open>strconv.Itoa\<close>.\<close>

definition itoa :: "int \<Rightarrow> gostring" where
  "itoa i = (if i < 0 then CHR ''-'' # itoa_nat (nat (- i)) else itoa_nat (nat i))"

fun dec_acc :: "nat \<Rightarrow> gostring \<Rightarrow> nat option" where
  "dec_acc a [] = Some a"
| "dec_acc a (c # cs) = (if is_digit c then dec_acc (10 * a + digit_val c) cs else None)"

definition parse_uint :: "gostring \<Rightarrow> nat option" where
  "parse_uint s = (if s = [] then None else dec_acc 0 s)"

text \<open>
  \<open>strconv.ParseInt(s, 10, 64)\<close>, and \<open>strconv.Atoi\<close> on a 64-bit platform: an optional sign, at
  least one digit, nothing else, and a value in the 64-bit range. \<open>None\<close> is the error.
\<close>

definition atoi :: "gostring \<Rightarrow> int option" where
  "atoi s =
     (let neg = (s \<noteq> [] \<and> hd s = CHR ''-'');
          rest = (if s \<noteq> [] \<and> (hd s = CHR ''-'' \<or> hd s = CHR ''+'') then tl s else s)
      in case parse_uint rest of
           None \<Rightarrow> None
         | Some n \<Rightarrow>
             let v = (if neg then - int n else int n)
             in if in_int64 v then Some v else None)"

lemma digit_char_props [simp]:
  assumes "d < 10"
  shows "is_digit (digit_char d)" and "digit_val (digit_char d) = d"
    and "digit_char d \<noteq> CHR ''-''" and "digit_char d \<noteq> CHR ''+''"
proof -
  have b: "byte_of (digit_char d) = 48 + d" using assms by (simp add: digit_char_def)
  show "is_digit (digit_char d)" and "digit_val (digit_char d) = d"
    using assms by (simp_all add: is_digit_def digit_val_def b)
  have "byte_of (CHR ''-'') \<noteq> 48 + d" and "byte_of (CHR ''+'') \<noteq> 48 + d" by simp_all
  with b show "digit_char d \<noteq> CHR ''-''" and "digit_char d \<noteq> CHR ''+''" by metis+
qed

lemma dec_acc_append:
  "dec_acc a (xs @ ys) = (case dec_acc a xs of None \<Rightarrow> None | Some b \<Rightarrow> dec_acc b ys)"
  by (induction xs arbitrary: a) auto

lemma dec_acc_itoa_nat: "dec_acc 0 (itoa_nat n) = Some n"
proof (induction n rule: itoa_nat.induct)
  case (1 n)
  then show ?case
    by (cases "n < 10") (simp_all add: itoa_nat.simps [of n] dec_acc_append)
qed

lemma itoa_nat_nonempty [simp]: "itoa_nat n \<noteq> []"
  by (simp add: itoa_nat.simps [of n])

lemma hd_itoa_nat: "\<exists>d < 10. hd (itoa_nat n) = digit_char d"
proof (induction n rule: itoa_nat.induct)
  case (1 n)
  then show ?case
    by (cases "n < 10") (auto simp: itoa_nat.simps [of n])
qed

lemma hd_itoa_nat_sign [simp]: "hd (itoa_nat n) \<noteq> CHR ''-''" "hd (itoa_nat n) \<noteq> CHR ''+''"
  using hd_itoa_nat [of n] digit_char_props(3,4) by metis+

lemma itoa_nonempty [simp]: "itoa i \<noteq> []"
  by (simp add: itoa_def)

text \<open>Printing an \<open>int\<close> and reading it back gives the same value.\<close>

lemma atoi_itoa: "in_int64 i \<Longrightarrow> atoi (itoa i) = Some i"
  by (simp add: atoi_def itoa_def parse_uint_def dec_acc_itoa_nat)

lemma atoi_in_range: "atoi s = Some i \<Longrightarrow> in_int64 i"
  by (auto simp: atoi_def Let_def split: option.splits if_splits)

section \<open>URL escaping\<close>

definition hex_upper :: "nat \<Rightarrow> char" where
  "hex_upper d = (if d < 10 then char_of (48 + d) else char_of (55 + d))"

definition unreserved :: "char \<Rightarrow> bool" where
  "unreserved c \<longleftrightarrow>
     (let b = byte_of c in 65 \<le> b \<and> b \<le> 90 \<or> 97 \<le> b \<and> b \<le> 122 \<or> 48 \<le> b \<and> b \<le> 57)
     \<or> c \<in> set ''-_.~''"

definition percent :: "char \<Rightarrow> gostring" where
  "percent c = [CHR ''%'', hex_upper (byte_of c div 16), hex_upper (byte_of c mod 16)]"

text \<open>\<open>url.PathEscape\<close> keeps, beside the unreserved bytes, \<open>$ & + = : @\<close>.\<close>

definition path_escape :: "gostring \<Rightarrow> gostring" where
  "path_escape s = concat (map (\<lambda>c. if unreserved c \<or> c \<in> set ''$&+=:@'' then [c] else percent c) s)"

definition query_escape :: "gostring \<Rightarrow> gostring" where
  "query_escape s =
     concat (map (\<lambda>c. if c = CHR '' '' then ''+'' else if unreserved c then [c] else percent c) s)"

lemma hex_upper_safe:
  assumes "d < 16"
  shows "unreserved (hex_upper d)"
  using assms by (auto simp: hex_upper_def unreserved_def Let_def)

text \<open>An escaped segment holds no byte that ends a path segment, a path or a URL.\<close>

lemma path_escape_no_delim:
  assumes "c \<in> set (path_escape s)"
  shows "c \<noteq> CHR ''/''" and "c \<noteq> CHR ''?''" and "c \<noteq> CHR ''#''"
proof -
  have hx: "unreserved (hex_upper (byte_of x div 16))" "unreserved (hex_upper (byte_of x mod 16))" for x
    using byte_of_less [of x] less_mult_imp_div_less [of "byte_of x" 16 16]
    by (auto intro!: hex_upper_safe)
  have bad: "\<not> unreserved (CHR ''/'')" "\<not> unreserved (CHR ''?'')" "\<not> unreserved (CHR ''#'')"
    by (simp_all add: unreserved_def)
  have "unreserved c \<or> c \<in> set ''%$&+=:@''"
    using assms hx by (auto simp: path_escape_def percent_def split: if_splits)
  then show "c \<noteq> CHR ''/''" and "c \<noteq> CHR ''?''" and "c \<noteq> CHR ''#''"
    using bad by auto
qed

section \<open>\<open>url.Values\<close>\<close>

text \<open>The program only uses \<open>Set\<close> and \<open>Encode\<close>; \<open>Encode\<close> sorts by key.\<close>

type_synonym url_values = "(gostring \<times> gostring) list"

definition values_set :: "gostring \<Rightarrow> gostring \<Rightarrow> url_values \<Rightarrow> url_values" where
  "values_set k v q = filter (\<lambda>p. fst p \<noteq> k) q @ [(k, v)]"

fun join_with :: "gostring \<Rightarrow> gostring list \<Rightarrow> gostring" where
  "join_with sep [] = []"
| "join_with sep [x] = x"
| "join_with sep (x # y # xs) = x @ sep @ join_with sep (y # xs)"

definition values_encode :: "url_values \<Rightarrow> gostring" where
  "values_encode q =
     join_with ''&'' (map (\<lambda>(k, v). query_escape k @ ''='' @ query_escape v) (sort_key fst q))"

text \<open>Setting a value only when it is non-empty, the shape every query builder of the client has.\<close>

definition set_nonempty :: "gostring \<Rightarrow> gostring \<Rightarrow> url_values \<Rightarrow> url_values" where
  "set_nonempty k v q = (if v \<noteq> [] then values_set k v q else q)"

end
