(* ===== verification/ForwardedTable.thy ===== *)
theory ForwardedTable
  imports GoStrings
begin

text \<open>
  The table \<open>forwarded_request\<close> (internal/migrate/files/0001_init.up.sql) and the meaning of the
  SQL statements of internal/store/request.go on it. A table is the list of its rows in insertion
  order; the primary key is the invariant \<open>keys_distinct\<close>. Every write of the program to the table
  is one of two statements, the datatype \<open>sql_stmt\<close>.

  Times are microseconds since the zero \<open>time.Time\<close> (the precision of TIMESTAMPTZ), so a time is
  zero exactly when \<open>IsZero\<close> holds. Postgres' text order depends on the collation of the database:
  it compares the collation's sort key, then the bytes.
\<close>

record forwarded_row =
  request_id :: gostring
  external_id :: "gostring option"
  status :: gostring
  last_polled :: "int option"
  error_text :: "gostring option"
  auto_monitor :: bool
  created_at :: int
  updated_at :: int

type_synonym table = "forwarded_row list"

definition terminal :: "gostring \<Rightarrow> bool" where
  "terminal s \<longleftrightarrow> s = ''imported'' \<or> s = ''failed''"

definition coalesce :: "'a option \<Rightarrow> 'a option \<Rightarrow> 'a option" where
  "coalesce a b = (case a of None \<Rightarrow> b | Some x \<Rightarrow> Some x)"

lemma coalesce_simps [simp]: "coalesce None b = b" "coalesce (Some x) b = Some x"
  by (simp_all add: coalesce_def)

lemma terminal_simps [simp]: "terminal ''imported''" "terminal ''failed''"
  by (simp_all add: terminal_def)

section \<open>Statements\<close>

text \<open>The \<open>DO UPDATE SET\<close> clause: \<open>x\<close> is \<open>EXCLUDED\<close>, \<open>r\<close> the row already there.\<close>

definition merge_row :: "forwarded_row \<Rightarrow> forwarded_row \<Rightarrow> forwarded_row" where
  "merge_row x r = r\<lparr>
     external_id := coalesce (external_id x) (external_id r),
     status := (if terminal (status r) then status r else status x),
     last_polled := coalesce (last_polled x) (last_polled r),
     error_text := coalesce (error_text x) (error_text r),
     auto_monitor := auto_monitor x \<or> auto_monitor r,
     updated_at := updated_at x\<rparr>"

fun sql_upsert :: "forwarded_row \<Rightarrow> table \<Rightarrow> table" where
  "sql_upsert x [] = [x]"
| "sql_upsert x (r # rs) =
     (if request_id r = request_id x then merge_row x r # rs else r # sql_upsert x rs)"

definition polled_row :: "gostring option \<Rightarrow> gostring \<Rightarrow> int \<Rightarrow> forwarded_row \<Rightarrow> forwarded_row" where
  "polled_row ext st t r = r\<lparr>
     external_id := coalesce ext (external_id r),
     status := (if terminal (status r) then status r else st),
     last_polled := Some t,
     error_text := None,
     updated_at := t\<rparr>"

definition sql_mark_polled ::
  "gostring \<Rightarrow> gostring option \<Rightarrow> gostring \<Rightarrow> int \<Rightarrow> table \<Rightarrow> table" where
  "sql_mark_polled k ext st t rows =
     map (\<lambda>r. if request_id r = k then polled_row ext st t r else r) rows"

datatype sql_stmt =
    Upsert forwarded_row
  | Mark_Polled gostring "gostring option" gostring int

fun exec_stmt :: "sql_stmt \<Rightarrow> table \<Rightarrow> table" where
  "exec_stmt (Upsert x) rows = sql_upsert x rows"
| "exec_stmt (Mark_Polled k ext st t) rows = sql_mark_polled k ext st t rows"

section \<open>Queries\<close>

definition row_at :: "table \<Rightarrow> gostring \<Rightarrow> forwarded_row option" where
  "row_at rows k = find (\<lambda>r. request_id r = k) rows"

text \<open>
  \<open>ORDER BY COALESCE(last_polled, '0001-01-01') ASC, request_id ASC LIMIT n\<close> over the rows whose
  status is not terminal. The key of a row is its time, the sort key of its id in the database's
  collation (\<open>ck\<close>) and the id; the library's sorting applies to it as a linear order.
\<close>

datatype poll_key = Poll_Key int gostring gostring

instantiation poll_key :: linorder
begin

fun less_eq_poll_key :: "poll_key \<Rightarrow> poll_key \<Rightarrow> bool" where
  "less_eq_poll_key (Poll_Key t a k) (Poll_Key u b l) \<longleftrightarrow> t < u \<or> t = u \<and> (a < b \<or> a = b \<and> k \<le> l)"

definition less_poll_key :: "poll_key \<Rightarrow> poll_key \<Rightarrow> bool" where
  "less_poll_key x y \<longleftrightarrow> x \<le> y \<and> \<not> y \<le> x"

instance
proof
  fix x y z :: poll_key
  show "x < y \<longleftrightarrow> x \<le> y \<and> \<not> y \<le> x" by (rule less_poll_key_def)
  show "x \<le> x" by (cases x) simp
  show "x \<le> y \<Longrightarrow> y \<le> z \<Longrightarrow> x \<le> z" by (cases x; cases y; cases z) auto
  show "x \<le> y \<Longrightarrow> y \<le> x \<Longrightarrow> x = y" by (cases x; cases y) auto
  show "x \<le> y \<or> y \<le> x" by (cases x; cases y) auto
qed

end

lemma poll_key_leI: "t \<le> u \<Longrightarrow> a \<le> b \<Longrightarrow> k \<le> l \<Longrightarrow> Poll_Key t a k \<le> Poll_Key u b l"
  by auto

definition poll_order :: "(gostring \<Rightarrow> gostring) \<Rightarrow> forwarded_row \<Rightarrow> poll_key" where
  "poll_order ck r =
     Poll_Key (case last_polled r of None \<Rightarrow> 0 | Some t \<Rightarrow> t) (ck (request_id r)) (request_id r)"

definition non_terminal :: "table \<Rightarrow> table" where
  "non_terminal rows = filter (\<lambda>r. \<not> terminal (status r)) rows"

definition sql_list :: "(gostring \<Rightarrow> gostring) \<Rightarrow> nat \<Rightarrow> table \<Rightarrow> table" where
  "sql_list ck n rows = take n (sort_key (poll_order ck) (non_terminal rows))"

definition count_where :: "(forwarded_row \<Rightarrow> bool) \<Rightarrow> table \<Rightarrow> int" where
  "count_where P rows = int (length (filter P rows))"

lemma count_where_nonneg [simp]: "0 \<le> count_where P rows"
  by (simp add: count_where_def)

lemma count_where_mono: "(\<And>r. P r \<Longrightarrow> Q r) \<Longrightarrow> count_where P rows \<le> count_where Q rows"
  unfolding count_where_def by (induction rows) auto

lemma count_where_split:
  "count_where P rows = count_where (\<lambda>r. P r \<and> Q r) rows + count_where (\<lambda>r. P r \<and> \<not> Q r) rows"
  by (simp add: count_where_def filter_partition_length [of P rows Q])

definition text_empty :: "gostring option \<Rightarrow> bool" where
  \<comment> \<open>\<open>COALESCE(x, '') = ''\<close>\<close>
  "text_empty x \<longleftrightarrow> x = None \<or> x = Some []"

section \<open>Laws\<close>

definition keys_distinct :: "table \<Rightarrow> bool" where
  "keys_distinct rows \<longleftrightarrow> distinct (map request_id rows)"

lemma merge_row_id [simp]: "request_id (merge_row x r) = request_id r"
  by (simp add: merge_row_def)

lemma polled_row_id [simp]: "request_id (polled_row ext st t r) = request_id r"
  by (simp add: polled_row_def)

lemma sql_upsert_ids:
  "request_id ` set (sql_upsert x rows) = insert (request_id x) (request_id ` set rows)"
  by (induction rows) auto

lemma sql_upsert_distinct: "keys_distinct rows \<Longrightarrow> keys_distinct (sql_upsert x rows)"
proof (induction rows)
  case (Cons r rs)
  then show ?case
    using sql_upsert_ids [of x rs]
    by (auto simp: keys_distinct_def simp flip: set_map)
qed (simp add: keys_distinct_def)

lemma sql_mark_polled_ids [simp]:
  "map request_id (sql_mark_polled k ext st t rows) = map request_id rows"
  by (simp add: sql_mark_polled_def)

lemma exec_stmt_distinct: "keys_distinct rows \<Longrightarrow> keys_distinct (exec_stmt s rows)"
  using sql_upsert_distinct by (cases s) (auto simp: keys_distinct_def)

lemma row_at_simps [simp]:
  "row_at [] k = None"
  "row_at (r # rs) k = (if request_id r = k then Some r else row_at rs k)"
  by (simp_all add: row_at_def)

lemma row_at_nil [simp]: "row_at [] = Map.empty"
  by (simp add: fun_eq_iff)

lemma row_at_id: "row_at rows k = Some r \<Longrightarrow> request_id r = k"
  by (induction rows) (auto split: if_splits)

lemma row_at_mem: "row_at rows k = Some r \<Longrightarrow> r \<in> set rows"
  by (induction rows) (auto split: if_splits)

lemma row_at_of_mem: "keys_distinct rows \<Longrightarrow> r \<in> set rows \<Longrightarrow> row_at rows (request_id r) = Some r"
  by (induction rows) (auto simp: keys_distinct_def)

text \<open>
  The abstract table: a finite map from request ids to rows. An upsert inserts or merges, a poll
  updates in place; both leave every other key alone.
\<close>

lemma row_at_upsert:
  "row_at (sql_upsert x rows) =
     (row_at rows)(request_id x \<mapsto>
        (case row_at rows (request_id x) of None \<Rightarrow> x | Some r \<Rightarrow> merge_row x r))"
  by (induction rows) (auto simp: fun_eq_iff)

lemma row_at_mark_polled:
  "row_at (sql_mark_polled k ext st t rows) =
     (row_at rows)(k := map_option (polled_row ext st t) (row_at rows k))"
  by (induction rows) (auto simp: fun_eq_iff sql_mark_polled_def)

lemma row_at_none_iff: "row_at rows k = None \<longleftrightarrow> k \<notin> request_id ` set rows"
  by (induction rows) auto

text \<open>The status a row has after a write of \<open>st\<close>: the terminal guard of both statements.\<close>

definition status_after :: "forwarded_row option \<Rightarrow> gostring \<Rightarrow> gostring" where
  "status_after old st =
     (case old of None \<Rightarrow> st | Some r \<Rightarrow> if terminal (status r) then status r else st)"

lemma row_at_upsert_key:
  obtains r where "row_at (sql_upsert x rows) (request_id x) = Some r"
    "status r = status_after (row_at rows (request_id x)) (status x)"
    "external_id x \<noteq> None \<longrightarrow> external_id r = external_id x"
    "error_text x \<noteq> None \<longrightarrow> error_text r = error_text x"
  by (cases "row_at rows (request_id x)")
    (auto simp: row_at_upsert merge_row_def status_after_def coalesce_def split: option.splits intro: that)

lemma status_after_twice:
  "status r = status_after old st1 \<Longrightarrow> \<not> terminal st1 \<Longrightarrow> status_after (Some r) st = status_after old st"
  by (auto simp: status_after_def split: option.splits if_splits)

section \<open>Interface: a table whose rows only move forward\<close>

text \<open>
  What the consumer, the reconciler and the portal rely on: no statement deletes a row or changes
  its key's presence, and a relation \<open>fwd\<close> between the old and the new row holds for each. The
  lemmas lift this from one statement to any sequence of statements.
\<close>

locale forward_table =
  fixes exec :: "'s \<Rightarrow> 't \<Rightarrow> 't"
    and get :: "'t \<Rightarrow> 'k \<Rightarrow> 'r option"
    and fwd :: "'r \<Rightarrow> 'r \<Rightarrow> bool"
  assumes fwd_refl: "fwd r r"
    and fwd_trans: "fwd a b \<Longrightarrow> fwd b c \<Longrightarrow> fwd a c"
    and exec_fwd: "get t k = Some r \<Longrightarrow> \<exists>r'. get (exec s t) k = Some r' \<and> fwd r r'"
begin

lemma fold_fwd: "get t k = Some r \<Longrightarrow> \<exists>r'. get (fold exec ss t) k = Some r' \<and> fwd r r'"
proof (induction ss arbitrary: t r)
  case Nil
  then show ?case by (simp add: fwd_refl)
next
  case (Cons s ss)
  obtain r1 where r1: "get (exec s t) k = Some r1" "fwd r r1"
    using exec_fwd [OF Cons.prems] by blast
  obtain r2 where "get (fold exec ss (exec s t)) k = Some r2" "fwd r1 r2"
    using Cons.IH [OF r1(1)] by blast
  with r1(2) show ?case by (auto intro: fwd_trans)
qed

end

text \<open>
  How a row may change: its key and creation time stay; a terminal status stays; an external id is
  never lost; the auto-monitor flag is never cleared.
\<close>

definition row_forward :: "forwarded_row \<Rightarrow> forwarded_row \<Rightarrow> bool" where
  "row_forward r r' \<longleftrightarrow>
     request_id r' = request_id r \<and> created_at r' = created_at r
     \<and> (terminal (status r) \<longrightarrow> status r' = status r)
     \<and> (external_id r \<noteq> None \<longrightarrow> external_id r' \<noteq> None)
     \<and> (auto_monitor r \<longrightarrow> auto_monitor r')"

lemma merge_row_forward: "row_forward r (merge_row x r)"
  by (cases "external_id x") (simp_all add: row_forward_def merge_row_def)

lemma merge_row_keeps:
  "external_id r \<noteq> None \<Longrightarrow> external_id (merge_row x r) \<noteq> None"
  "error_text r \<noteq> None \<Longrightarrow> error_text (merge_row x r) \<noteq> None"
  "last_polled r \<noteq> None \<Longrightarrow> last_polled (merge_row x r) \<noteq> None"
  by (auto simp: merge_row_def coalesce_def split: option.split)

lemma polled_row_forward: "row_forward r (polled_row ext st t r)"
  by (cases ext) (simp_all add: row_forward_def polled_row_def)

interpretation fwd_tbl: forward_table exec_stmt row_at row_forward
proof
  fix r a b c :: forwarded_row and t k s
  show "row_forward r r" by (simp add: row_forward_def)
  show "row_forward a c" if "row_forward a b" "row_forward b c"
    using that by (auto simp: row_forward_def)
  show "\<exists>r'. row_at (exec_stmt s t) k = Some r' \<and> row_forward r r'" if "row_at t k = Some r"
    using that merge_row_forward polled_row_forward \<open>row_forward r r\<close>
    by (cases s) (auto simp: row_at_upsert row_at_mark_polled)
qed

section \<open>Interface: an invariant of every row, kept by admissible statements\<close>

locale guarded_table =
  fixes exec :: "'s \<Rightarrow> 't \<Rightarrow> 't"
    and inv :: "'t \<Rightarrow> bool"
    and ok :: "'s \<Rightarrow> bool"
  assumes exec_inv: "ok s \<Longrightarrow> inv t \<Longrightarrow> inv (exec s t)"
begin

lemma fold_inv: "(\<And>s. s \<in> set ss \<Longrightarrow> ok s) \<Longrightarrow> inv t \<Longrightarrow> inv (fold exec ss t)"
  by (induction ss arbitrary: t) (auto intro: exec_inv)

end

interpretation keyed_tbl: guarded_table exec_stmt keys_distinct "\<lambda>_. True"
  by unfold_locales (rule exec_stmt_distinct)

text \<open>
  The statuses the program writes, and the rule that a request which upstream has accepted carries
  the upstream id: only \<open>submitted\<close> and \<open>failed\<close> rows may lack one. Without the id the
  reconciler never polls the row.
\<close>

definition known_statuses :: "gostring list" where
  "known_statuses = [''submitted'', ''acknowledged'', ''searching'', ''found'', ''downloading'',
     ''imported'', ''failed'']"

definition has_ext :: "gostring option \<Rightarrow> bool" where
  "has_ext e \<longleftrightarrow> (case e of None \<Rightarrow> False | Some x \<Rightarrow> x \<noteq> [])"

definition row_ok :: "forwarded_row \<Rightarrow> bool" where
  "row_ok r \<longleftrightarrow> status r \<in> set known_statuses \<and> external_id r \<noteq> Some []
     \<and> (status r \<in> set [''submitted'', ''failed''] \<or> has_ext (external_id r))"

definition table_ok :: "table \<Rightarrow> bool" where
  "table_ok rows \<longleftrightarrow> (\<forall>r \<in> set rows. row_ok r)"

fun stmt_ok :: "sql_stmt \<Rightarrow> bool" where
  "stmt_ok (Upsert x) = row_ok x"
| "stmt_ok (Mark_Polled k ext st t) =
     (st \<in> set known_statuses \<and> ext \<noteq> Some [] \<and> (st \<in> set [''submitted'', ''failed''] \<or> has_ext ext))"

lemma merge_row_ok: "row_ok x \<Longrightarrow> row_ok r \<Longrightarrow> row_ok (merge_row x r)"
  by (cases "external_id x"; cases "external_id r")
    (auto simp: row_ok_def merge_row_def has_ext_def terminal_def)

lemma polled_row_ok: "stmt_ok (Mark_Polled k ext st t) \<Longrightarrow> row_ok r \<Longrightarrow> row_ok (polled_row ext st t r)"
  by (cases ext; cases "external_id r")
    (auto simp: row_ok_def polled_row_def has_ext_def terminal_def)

lemma sql_upsert_set: "set (sql_upsert x rows) \<subseteq> insert x (set rows \<union> merge_row x ` set rows)"
  by (induction rows) auto

lemma exec_stmt_ok: "stmt_ok s \<Longrightarrow> table_ok rows \<Longrightarrow> table_ok (exec_stmt s rows)"
proof (cases s)
  case (Upsert x)
  assume "stmt_ok s" and "table_ok rows"
  with Upsert show ?thesis
    using sql_upsert_set [of x rows] merge_row_ok by (fastforce simp: table_ok_def)
next
  case (Mark_Polled k ext st t)
  assume "stmt_ok s" and "table_ok rows"
  with Mark_Polled show ?thesis
    using polled_row_ok [of k ext st t] by (auto simp: table_ok_def sql_mark_polled_def)
qed

interpretation ok_tbl: guarded_table exec_stmt table_ok stmt_ok
  by unfold_locales (rule exec_stmt_ok)

end
