(* ===== verification/GoFloat.thy ===== *)
theory GoFloat
  imports GoStrings
begin

text \<open>
  Go's \<open>float64\<close>, as far as the program uses it: reading a decimal literal
  (\<open>strconv.ParseFloat\<close>, as encoding/json calls it), printing (\<open>strconv.FormatFloat\<close> with the
  format \<open>'f'\<close> and precision -1, and the variant encoding/json prints), comparison with zero and
  conversion to \<open>int\<close>. A finite value is a sign, a mantissa below \<open>2 ^ 53\<close> and a binary exponent,
  in the normal form of IEEE 754: the mantissa is at least \<open>2 ^ 52\<close> unless the exponent is the
  least one, -1074. JSON and protobuf numbers of the program are finite.
\<close>

datatype f64 = F64 (f_neg: bool) (f_mant: nat) (f_exp: int)

definition f64_zero :: f64 where
  "f64_zero = F64 False 0 (-1074)"

definition f64_is_zero :: "f64 \<Rightarrow> bool" where
  "f64_is_zero f \<longleftrightarrow> f_mant f = 0"

fun bit_len :: "nat \<Rightarrow> nat" where
  "bit_len n = (if n = 0 then 0 else Suc (bit_len (n div 2)))"

declare bit_len.simps [simp del]

definition round_half_even :: "nat \<Rightarrow> nat \<Rightarrow> nat" where
  "round_half_even num den =
     (let q = num div den; r = num mod den
      in if 2 * r < den then q else if den < 2 * r then q + 1 else if even q then q else q + 1)"

definition scaled :: "nat \<Rightarrow> nat \<Rightarrow> int \<Rightarrow> nat \<times> nat" where
  "scaled num den e =
     (if 0 \<le> e then (num, den * 2 ^ nat e) else (num * 2 ^ nat (- e), den))"

text \<open>The \<open>float64\<close> nearest to \<open>num / den\<close>, ties to even; \<open>None\<close> when it is out of range.\<close>

definition f64_of_ratio :: "bool \<Rightarrow> nat \<Rightarrow> nat \<Rightarrow> f64 option" where
  "f64_of_ratio neg num den =
     (if num = 0 then Some (F64 neg 0 (-1074))
      else
        let e0 = max (-1074) (int (bit_len num) - int (bit_len den) - 53);
            (n0, d0) = scaled num den e0;
            e1 = (if 2 ^ 53 \<le> n0 div d0 then e0 + 1 else e0);
            (n1, d1) = scaled num den e1;
            m = round_half_even n1 d1;
            (m2, e2) = (if m = 2 ^ 53 then (2 ^ 52, e1 + 1) else (m, e1))
        in if 971 < e2 then None else Some (F64 neg m2 e2))"

definition f64_of_decimal :: "bool \<Rightarrow> nat \<Rightarrow> int \<Rightarrow> f64 option" where
  "f64_of_decimal neg d k =
     (if 0 \<le> k then f64_of_ratio neg (d * 10 ^ nat k) 1 else f64_of_ratio neg d (10 ^ nat (- k)))"

definition f64_ratio :: "f64 \<Rightarrow> nat \<times> nat" where
  "f64_ratio f = (if 0 \<le> f_exp f then (f_mant f * 2 ^ nat (f_exp f), 1)
                  else (f_mant f, 2 ^ nat (- f_exp f)))"

section \<open>Reading a literal\<close>

text \<open>
  The parts of a JSON number literal: sign, digits of the integer part, of the fraction and of
  the exponent. The literal has been checked against the grammar when this is called.
\<close>

definition literal_parts :: "gostring \<Rightarrow> bool \<times> gostring \<times> gostring \<times> int" where
  "literal_parts s =
     (let neg = (s \<noteq> [] \<and> hd s = CHR ''-'');
          s1 = (if neg then tl s else s);
          ip = takeWhile is_digit s1; s2 = dropWhile is_digit s1;
          (fp, s3) = (if s2 \<noteq> [] \<and> hd s2 = CHR ''.''
                      then (takeWhile is_digit (tl s2), dropWhile is_digit (tl s2)) else ([], s2));
          s4 = (if s3 \<noteq> [] then tl s3 else []);
          eneg = (s4 \<noteq> [] \<and> hd s4 = CHR ''-'');
          s5 = (if s4 \<noteq> [] \<and> (hd s4 = CHR ''-'' \<or> hd s4 = CHR ''+'') then tl s4 else s4);
          ev = (case dec_acc 0 s5 of None \<Rightarrow> 0 | Some n \<Rightarrow> if eneg then - int n else int n)
      in (neg, ip, fp, ev))"

definition parse_float :: "gostring \<Rightarrow> f64 option" where
  "parse_float s =
     (case literal_parts s of (neg, ip, fp, ev) \<Rightarrow>
       (case dec_acc 0 (ip @ fp) of
          None \<Rightarrow> None
        | Some d \<Rightarrow> f64_of_decimal neg d (ev - int (length fp))))"

section \<open>Printing\<close>

function neg_log10 :: "nat \<Rightarrow> nat \<Rightarrow> nat" where
  "neg_log10 num den = (if num = 0 \<or> den \<le> num then 0 else Suc (neg_log10 (10 * num) den))"
  by pat_completeness auto
termination
  by (relation "measure (\<lambda>(num, den). den - num)") auto

declare neg_log10.simps [simp del]

text \<open>The decimal exponent \<open>p\<close> with \<open>10 ^ p \<le> num / den < 10 ^ (p + 1)\<close>.\<close>

definition log10_ratio :: "nat \<Rightarrow> nat \<Rightarrow> int" where
  "log10_ratio num den =
     (if den \<le> num then int (length (itoa_nat (num div den))) - 1 else - int (neg_log10 num den))"

definition floor_at :: "nat \<Rightarrow> nat \<Rightarrow> int \<Rightarrow> nat \<times> bool" where
  \<comment> \<open>the multiple of \<open>10 ^ u\<close> just below \<open>num / den\<close>, and whether it is the nearer neighbour\<close>
  "floor_at num den u =
     (let (n, d) = (if 0 \<le> u then (num, den * 10 ^ nat u) else (num * 10 ^ nat (- u), den))
      in (n div d, 2 * (n mod d) \<le> d))"

text \<open>
  The shortest decimal \<open>c * 10 ^ u\<close> that reads back as the value: the number of digits grows until
  the neighbour below or above does (17 digits always suffice for a \<open>float64\<close>).
\<close>

fun shortest_from :: "f64 \<Rightarrow> nat \<Rightarrow> nat \<Rightarrow> int \<Rightarrow> nat \<Rightarrow> nat \<times> int" where
  "shortest_from f num den u 0 = (fst (floor_at num den u), u)"
| "shortest_from f num den u (Suc k) =
     (let (lo, near_lo) = floor_at num den u;
          ok_lo = (f64_of_decimal (f_neg f) lo u = Some f);
          ok_hi = (f64_of_decimal (f_neg f) (lo + 1) u = Some f)
      in if ok_lo \<and> (near_lo \<or> \<not> ok_hi) then (lo, u)
         else if ok_hi then (lo + 1, u)
         else shortest_from f num den (u - 1) k)"

definition shortest :: "f64 \<Rightarrow> nat \<times> int" where
  "shortest f = (let (num, den) = f64_ratio f in shortest_from f num den (log10_ratio num den) 16)"

definition pad_left :: "nat \<Rightarrow> gostring \<Rightarrow> gostring" where
  "pad_left n s = replicate (n - length s) (CHR ''0'') @ s"

definition minus_sign :: "f64 \<Rightarrow> gostring" where
  "minus_sign f = (if f_neg f then ''-'' else [])"

text \<open>\<open>strconv.FormatFloat(f, 'f', -1, 64)\<close>.\<close>

definition format_float :: "f64 \<Rightarrow> gostring" where
  "format_float f =
     (if f_mant f = 0 then minus_sign f @ ''0''
      else case shortest f of (c, u) \<Rightarrow>
        minus_sign f @
        (if 0 \<le> u then itoa_nat (c * 10 ^ nat u)
         else let p = 10 ^ nat (- u);
                  frac = trim_right (CHR ''0'') (pad_left (nat (- u)) (itoa_nat (c mod p)))
              in itoa_nat (c div p) @ (if frac = [] then [] else CHR ''.'' # frac)))"

text \<open>How encoding/json prints a \<open>float64\<close>: as above, in \<open>e\<close> notation below 1e-6 and from 1e21.\<close>

definition format_float_e :: "f64 \<Rightarrow> gostring" where
  "format_float_e f =
     (case shortest f of (c, u) \<Rightarrow>
       let ds = itoa_nat c; ex = u + int (length ds) - 1;
           rest = trim_right (CHR ''0'') (tl ds)
       in minus_sign f @ [hd ds] @ (if rest = [] then [] else CHR ''.'' # rest) @
          (if ex < 0 then ''e-'' @ itoa (- ex) else ''e+'' @ itoa ex))"

definition json_float :: "f64 \<Rightarrow> gostring" where
  "json_float f =
     (let (num, den) = f64_ratio f
      in if num \<noteq> 0 \<and> (num * 10 ^ 6 < den \<or> den * 10 ^ 21 \<le> num) then format_float_e f
         else format_float f)"

section \<open>Integers\<close>

lemma bit_len_bounds: "0 < n \<Longrightarrow> 0 < bit_len n \<and> 2 ^ (bit_len n - 1) \<le> n"
proof (induction n rule: bit_len.induct)
  case (1 n)
  show ?case
  proof (cases "n div 2 = 0")
    case True
    then show ?thesis using 1(2) by (simp add: bit_len.simps [of n] bit_len.simps [of 0])
  next
    case False
    then have "2 * 2 ^ (bit_len (n div 2) - 1) \<le> n" "0 < bit_len (n div 2)" using 1 by auto
    then show ?thesis using 1(2) by (cases "bit_len (n div 2)") (simp_all add: bit_len.simps [of n])
  qed
qed

text \<open>A positive integer is not rounded to zero.\<close>

lemma scaled_pos:
  assumes "0 < n" and "e < int (bit_len n)" and "scaled n 1 e = (n1, d1)"
  shows "0 < d1 \<and> d1 \<le> n1"
proof (cases "0 \<le> e")
  case True
  then have "nat e \<le> bit_len n - 1" using assms(2) by linarith
  then have "(2::nat) ^ nat e \<le> 2 ^ (bit_len n - 1)" by (intro power_increasing) simp_all
  then have "2 ^ nat e \<le> n" using bit_len_bounds [OF assms(1)] le_trans by blast
  then show ?thesis using True assms(3) by (auto simp: scaled_def)
next
  case False
  then show ?thesis using assms(1,3) by (auto simp: scaled_def)
qed

lemma round_half_even_pos: "0 < d \<Longrightarrow> d \<le> n \<Longrightarrow> 0 < round_half_even n d"
  by (auto simp: round_half_even_def Let_def div_greater_zero_iff)

lemma f64_of_int_zero:
  assumes "f64_of_ratio neg n 1 = Some f"
  shows "f_mant f = 0 \<longleftrightarrow> n = 0"
proof (cases "n = 0")
  case True
  then show ?thesis using assms by (auto simp: f64_of_ratio_def)
next
  case False
  define e0 where "e0 = max (-1074) (int (bit_len n) - int (bit_len 1) - 53)"
  define e1 where "e1 = (if 2 ^ 53 \<le> fst (scaled n 1 e0) div snd (scaled n 1 e0) then e0 + 1 else e0)"
  have "bit_len 1 = 1" by (simp add: bit_len.simps [of "Suc 0"] bit_len.simps [of 0])
  then have "e1 < int (bit_len n)" using bit_len_bounds [of n] False by (auto simp: e0_def e1_def max_def)
  then have "0 < round_half_even (fst (scaled n 1 e1)) (snd (scaled n 1 e1))"
    using scaled_pos [of n e1] False round_half_even_pos by (metis neq0_conv prod.collapse)
  then show ?thesis
    using assms False
    unfolding f64_of_ratio_def Let_def case_prod_beta e0_def [symmetric] e1_def [symmetric]
    by (auto split: if_splits)
qed

section \<open>Conversion to \<open>int\<close>\<close>

text \<open>
  \<open>int(f)\<close> truncates toward zero. A value outside the 64-bit range gives the least \<open>int64\<close>, what
  the amd64 conversion instruction returns (the supported platform of the plugin's manifest).
\<close>

definition f64_trunc :: "f64 \<Rightarrow> int" where
  "f64_trunc f = (let (num, den) = f64_ratio f; t = int (num div den)
                  in if f_neg f then - t else t)"

definition f64_to_int :: "f64 \<Rightarrow> int" where
  "f64_to_int f = (if in_int64 (f64_trunc f) then f64_trunc f else int64_min)"

lemma f64_to_int_in_range [simp]: "in_int64 (f64_to_int f)"
  by (simp add: f64_to_int_def) (simp add: int64_defs)

lemma f64_to_int_zero [simp]: "f64_to_int f64_zero = 0"
  by (simp add: f64_to_int_def f64_trunc_def f64_ratio_def f64_zero_def int64_defs)

section \<open>Values of type \<open>any\<close>\<close>

text \<open>
  The dynamic values the program takes apart with type assertions: what \<open>structpb.Struct.AsMap\<close>
  gives for an event's payload or a configuration entry, and the claims of a token.
\<close>

datatype any =
    ANil
  | ABool bool
  | ANum f64
  | AStr gostring
  | AList "any list"
  | AMap "(gostring \<times> any) list"

type_synonym anymap = "(gostring \<times> any) list"

text \<open>\<open>m[k].(string)\<close> with its failure as the zero value, as in \<open>s, _ := m[k].(string)\<close>.\<close>

definition any_string :: "any option \<Rightarrow> gostring" where
  "any_string v = (case v of Some (AStr s) \<Rightarrow> s | _ \<Rightarrow> [])"

definition any_bool :: "any option \<Rightarrow> bool" where
  "any_bool v = (case v of Some (ABool b) \<Rightarrow> b | _ \<Rightarrow> False)"

lemma any_string_simps [simp]:
  "any_string (Some (AStr s)) = s" "any_string None = []" "any_string (Some ANil) = []"
  "any_string (Some (ABool b)) = []" "any_string (Some (ANum f)) = []"
  "any_string (Some (AList l)) = []" "any_string (Some (AMap m)) = []"
  by (simp_all add: any_string_def)

lemma any_bool_simps [simp]:
  "any_bool (Some (ABool b)) = b" "any_bool None = False" "any_bool (Some (AStr s)) = False"
  by (simp_all add: any_bool_def)

end
