(* ===== verification/GoJson.thy ===== *)
theory GoJson
  imports GoFloat
begin

text \<open>
  What the program uses of encoding/json: the scanner and parser behind \<open>json.Unmarshal\<close>, the
  rules that store a JSON value into a Go value of a given type, and the printer behind
  \<open>json.Marshal\<close> and \<open>json.NewEncoder\<close>. A number is kept as its literal until a field of type
  \<open>int\<close> or \<open>float64\<close> reads it.

  Not modelled: the nesting limit of 10000 and the wording of syntax errors, which the program
  never inspects (where it reaches an error text, \<open>json_error_text\<close> stands for it).
\<close>

datatype json =
    JNull
  | JBool bool
  | JNum gostring
  | JStr gostring
  | JArr "json list"
  | JObj "(gostring \<times> json) list"

section \<open>Parsing\<close>

definition skip_ws :: "gostring \<Rightarrow> gostring" where
  "skip_ws s = dropWhile (\<lambda>c. byte_of c \<in> {32, 9, 10, 13}) s"

definition encode_rune :: "nat \<Rightarrow> gostring" where
  "encode_rune r =
     (if r < 0x80 then [char_of r]
      else if r < 0x800 then [char_of (0xC0 + r div 64), char_of (0x80 + r mod 64)]
      else if r < 0x10000
      then [char_of (0xE0 + r div 4096), char_of (0x80 + r div 64 mod 64), char_of (0x80 + r mod 64)]
      else [char_of (0xF0 + r div 262144), char_of (0x80 + r div 4096 mod 64),
            char_of (0x80 + r div 64 mod 64), char_of (0x80 + r mod 64)])"

definition to_valid_utf8 :: "gostring \<Rightarrow> gostring" where
  "to_valid_utf8 s =
     concat (map (\<lambda>(r, bs). if r = rune_error \<and> length bs = 1 then encode_rune rune_error else bs) (runes s))"

lemma to_valid_utf8_id:
  "list_all (\<lambda>(r, bs). r \<noteq> rune_error \<or> length bs \<noteq> 1) (runes s) \<Longrightarrow> to_valid_utf8 s = s"
proof -
  assume v: "list_all (\<lambda>(r, bs). r \<noteq> rune_error \<or> length bs \<noteq> 1) (runes s)"
  have "to_valid_utf8 s = concat (map snd (runes s))"
    unfolding to_valid_utf8_def using v
    by (intro arg_cong [of _ _ concat] map_cong refl) (auto simp: list_all_iff)
  then show ?thesis by (simp add: runes_concat)
qed

definition hex_val :: "char \<Rightarrow> nat option" where
  "hex_val c =
     (let b = byte_of c
      in if 48 \<le> b \<and> b \<le> 57 then Some (b - 48)
         else if 97 \<le> b \<and> b \<le> 102 then Some (b - 87)
         else if 65 \<le> b \<and> b \<le> 70 then Some (b - 55) else None)"

definition hex4 :: "char \<Rightarrow> char \<Rightarrow> char \<Rightarrow> char \<Rightarrow> nat option" where
  "hex4 a b c d =
     (case (hex_val a, hex_val b, hex_val c, hex_val d) of
        (Some w, Some x, Some y, Some z) \<Rightarrow> Some (((w * 16 + x) * 16 + y) * 16 + z)
      | _ \<Rightarrow> None)"

definition simple_escape :: "char \<Rightarrow> char option" where
  "simple_escape e =
     (if e = CHR 0x22 \<or> e = CHR 0x5C \<or> e = CHR ''/'' then Some e
      else if e = CHR ''b'' then Some (CHR 0x08)
      else if e = CHR ''f'' then Some (CHR 0x0C)
      else if e = CHR ''n'' then Some (CHR 0x0A)
      else if e = CHR ''r'' then Some (CHR 0x0D)
      else if e = CHR ''t'' then Some (CHR 0x09) else None)"

text \<open>The low half of a surrogate pair, when the text goes on with one.\<close>

definition low_surrogate :: "gostring \<Rightarrow> nat option" where
  "low_surrogate s =
     (case s of
        x # u # a # b # c # d # _ \<Rightarrow>
          if x = CHR 0x5C \<and> u = CHR ''u''
          then (case hex4 a b c d of
                  Some r \<Rightarrow> if 0xDC00 \<le> r \<and> r < 0xE000 then Some r else None
                | None \<Rightarrow> None)
          else None
      | _ \<Rightarrow> None)"

definition prepend :: "gostring \<Rightarrow> (gostring \<times> 'r) option \<Rightarrow> (gostring \<times> 'r) option" where
  "prepend p r = map_option (\<lambda>(s, rest). (p @ s, rest)) r"

text \<open>The text after an opening quote: the string's contents and what follows the closing quote.\<close>

function scan_str :: "gostring \<Rightarrow> (gostring \<times> gostring) option" where
  "scan_str [] = None"
| "scan_str (c # cs) =
     (if c = CHR 0x22 then Some ([], cs)
      else if c = CHR 0x5C
      then (case cs of
          [] \<Rightarrow> None
        | e # es \<Rightarrow>
            if e = CHR ''u''
            then (case es of
                a # b # c' # d # fs \<Rightarrow>
                  (case hex4 a b c' d of
                     None \<Rightarrow> None
                   | Some r \<Rightarrow>
                       if 0xD800 \<le> r \<and> r < 0xE000
                       then (case low_surrogate fs of
                               Some lo \<Rightarrow>
                                 if r < 0xDC00
                                 then prepend (encode_rune ((r - 0xD800) * 1024 + (lo - 0xDC00) + 0x10000))
                                        (scan_str (drop 6 fs))
                                 else prepend (encode_rune rune_error) (scan_str fs)
                             | None \<Rightarrow> prepend (encode_rune rune_error) (scan_str fs))
                       else prepend (encode_rune r) (scan_str fs))
              | _ \<Rightarrow> None)
            else (case simple_escape e of None \<Rightarrow> None | Some x \<Rightarrow> prepend [x] (scan_str es)))
      else if byte_of c < 32 then None
      else prepend [c] (scan_str cs))"
  by pat_completeness auto
termination
  by (relation "measure length") (auto simp: less_Suc_eq_le)

declare scan_str.simps(2) [simp del]

definition scan_string :: "gostring \<Rightarrow> (gostring \<times> gostring) option" where
  "scan_string s = map_option (\<lambda>(t, rest). (to_valid_utf8 t, rest)) (scan_str s)"

text \<open>A number: its sign, integer part, fraction and exponent, then the literal and the rest.\<close>

definition num_sign :: "gostring \<Rightarrow> gostring" where
  "num_sign s = (if s \<noteq> [] \<and> hd s = CHR ''-'' then ''-'' else [])"

definition num_int :: "gostring \<Rightarrow> gostring" where
  "num_int s = (if s \<noteq> [] \<and> hd s = CHR ''0'' then ''0'' else takeWhile is_digit s)"

definition num_frac :: "gostring \<Rightarrow> gostring" where
  "num_frac s = (if s \<noteq> [] \<and> hd s = CHR ''.'' then CHR ''.'' # takeWhile is_digit (tl s) else [])"

definition num_exp :: "gostring \<Rightarrow> gostring" where
  "num_exp s =
     (if s \<noteq> [] \<and> (hd s = CHR ''e'' \<or> hd s = CHR ''E'')
      then (let t = tl s;
                es = (if t \<noteq> [] \<and> (hd t = CHR ''+'' \<or> hd t = CHR ''-'') then [hd t] else [])
            in hd s # es @ takeWhile is_digit (drop (length es) t))
      else [])"

definition scan_number :: "gostring \<Rightarrow> (gostring \<times> gostring) option" where
  "scan_number s =
     (let sg = num_sign s; s1 = drop (length sg) s;
          ip = num_int s1; s2 = drop (length ip) s1;
          fp = num_frac s2; s3 = drop (length fp) s2;
          ep = num_exp s3
      in if ip = [] \<or> fp = ''.'' \<or> (ep \<noteq> [] \<and> \<not> is_digit (last ep)) then None
         else Some (sg @ ip @ fp @ ep, drop (length ep) s3))"

fun jvalue :: "nat \<Rightarrow> gostring \<Rightarrow> (json \<times> gostring) option"
  and jelems :: "nat \<Rightarrow> gostring \<Rightarrow> (json list \<times> gostring) option"
  and jmembers :: "nat \<Rightarrow> gostring \<Rightarrow> ((gostring \<times> json) list \<times> gostring) option" where
  "jvalue 0 s = None"
| "jvalue (Suc n) s =
     (case skip_ws s of
        [] \<Rightarrow> None
      | c # cs \<Rightarrow>
          if c = CHR 0x22 then map_option (\<lambda>(t, r). (JStr t, r)) (scan_string cs)
          else if c = CHR ''['' then
            (let s1 = skip_ws cs
             in if s1 \<noteq> [] \<and> hd s1 = CHR '']'' then Some (JArr [], tl s1)
                else map_option (\<lambda>(es, r). (JArr es, r)) (jelems n s1))
          else if c = CHR ''{'' then
            (let s1 = skip_ws cs
             in if s1 \<noteq> [] \<and> hd s1 = CHR ''}'' then Some (JObj [], tl s1)
                else map_option (\<lambda>(ms, r). (JObj ms, r)) (jmembers n s1))
          else if has_prefix ''null'' (c # cs) then Some (JNull, drop 4 (c # cs))
          else if has_prefix ''true'' (c # cs) then Some (JBool True, drop 4 (c # cs))
          else if has_prefix ''false'' (c # cs) then Some (JBool False, drop 5 (c # cs))
          else map_option (\<lambda>(l, r). (JNum l, r)) (scan_number (c # cs)))"
| "jelems 0 s = None"
| "jelems (Suc n) s =
     (case jvalue n s of
        None \<Rightarrow> None
      | Some (v, r) \<Rightarrow>
          (case skip_ws r of
             [] \<Rightarrow> None
           | c # cs \<Rightarrow>
               if c = CHR '','' then map_option (\<lambda>(vs, r'). (v # vs, r')) (jelems n cs)
               else if c = CHR '']'' then Some ([v], cs) else None))"
| "jmembers 0 s = None"
| "jmembers (Suc n) s =
     (case skip_ws s of
        [] \<Rightarrow> None
      | q # s1 \<Rightarrow>
          if q \<noteq> CHR 0x22 then None
          else (case scan_string s1 of
             None \<Rightarrow> None
           | Some (k, r) \<Rightarrow>
               (case skip_ws r of
                  [] \<Rightarrow> None
                | c # cs \<Rightarrow>
                    if c \<noteq> CHR '':'' then None
                    else (case jvalue n cs of
                       None \<Rightarrow> None
                     | Some (v, r2) \<Rightarrow>
                         (case skip_ws r2 of
                            [] \<Rightarrow> None
                          | d # ds \<Rightarrow>
                              if d = CHR '',''
                              then map_option (\<lambda>(ms, r'). ((k, v) # ms, r')) (jmembers n ds)
                              else if d = CHR ''}'' then Some ([(k, v)], ds) else None)))))"

text \<open>
  The fuel bounds the number of nested calls; a call of \<open>jvalue\<close> from \<open>jelems\<close> or \<open>jmembers\<close>
  reads at least one byte, so twice the length of the text is enough.
\<close>

definition json_prefix :: "gostring \<Rightarrow> (json \<times> gostring) option" where
  "json_prefix s = jvalue (2 * length s + 4) s"

definition json_parse :: "gostring \<Rightarrow> json option" where
  "json_parse s =
     (case json_prefix s of
        Some (v, r) \<Rightarrow> if skip_ws r = [] then Some v else None
      | None \<Rightarrow> None)"

section \<open>The fuel is enough\<close>

text \<open>What a scan leaves is no longer than what it began with.\<close>

lemma skip_ws_length: "length (skip_ws s) \<le> length s"
  by (simp add: skip_ws_def length_dropWhile_le)

lemma skip_ws_shorter: "skip_ws s = c # cs \<Longrightarrow> length cs < length s"
  using skip_ws_length [of s] by simp

lemma scan_str_length: "scan_str s = Some (t, r) \<Longrightarrow> length r < length s"
proof (induction s arbitrary: t r rule: length_induct)
  case (1 s)
  have IH: "length r' < length s" if pre: "prepend p (scan_str x) = Some (t', r')" and len: "length x < length s" for x p t' r'
  proof -
    obtain u where "scan_str x = Some (u, r')" using pre by (auto simp: prepend_def)
    with len 1(1) show ?thesis by (meson less_trans)
  qed
  show ?case
  proof (cases s)
    case (Cons c cs)
    show ?thesis
      using 1(2) [unfolded Cons scan_str.simps(2)] IH unfolding Cons
      by (auto split: if_split_asm list.split_asm option.split_asm)
  qed (use 1(2) in simp)
qed

lemma scan_string_length: "scan_string s = Some (t, r) \<Longrightarrow> length r < length s"
  by (auto simp: scan_string_def dest: scan_str_length)

lemma scan_number_length:
  assumes "scan_number s = Some (l, r)"
  shows "length r \<le> length s"
proof -
  have step: "(if b then None else Some (x, drop i (drop j (drop k y)))) = Some (l, r) \<Longrightarrow>
      length y \<le> length s \<Longrightarrow> length r \<le> length s" for b x i j k and y :: gostring
    by (auto split: if_split_asm)
  show ?thesis
    by (rule step [OF assms [unfolded scan_number_def Let_def case_prod_beta]]) simp
qed


lemma jvalue_rest:
  "jvalue n s = Some (v, r) \<Longrightarrow> length r \<le> length s"
  "jelems n s = Some (vs, r) \<Longrightarrow> length r \<le> length s"
  "jmembers n s = Some (ms, r) \<Longrightarrow> length r \<le> length s"
proof (induction n arbitrary: s v r vs ms)
  case (Suc n)
  {
    case 1
    show ?case
    proof (cases "skip_ws s")
      case (Cons c cs)
      note shorter = skip_ws_shorter [OF Cons]
      have el: "length r \<le> length s" if "jelems n (skip_ws cs) = Some (es, r)" for es r
        using Suc(2) [OF that] skip_ws_length [of cs] shorter by linarith
      have mem: "length r \<le> length s" if "jmembers n (skip_ws cs) = Some (es, r)" for es r
        using Suc(3) [OF that] skip_ws_length [of cs] shorter by linarith
      have num: "length r \<le> length s" if "scan_number (c # cs) = Some (l, r)" for l r
        using scan_number_length [OF that] shorter by simp
      have str: "length r \<le> length s" if "scan_string cs = Some (l, r)" for l r
        using scan_string_length [OF that] shorter by simp
      have tl: "length (tl (skip_ws cs)) \<le> length s" using skip_ws_length [of cs] shorter by simp
      show ?thesis
        using 1 el mem num str tl shorter
        by (auto simp: Cons Let_def split: if_split_asm)
    qed (use 1 in simp)
  next
    case 2
    then obtain v1 r1 where v: "jvalue n s = Some (v1, r1)" by (auto split: option.splits)
    note r1 = Suc(1) [OF v]
    show ?case
    proof (cases "skip_ws r1")
      case (Cons c cs)
      note shorter = skip_ws_shorter [OF Cons]
      have el: "length r \<le> length s" if "jelems n cs = Some (es, r)" for es r
        using Suc(2) [OF that] r1 shorter by linarith
      show ?thesis
        using 2 el r1 shorter by (auto simp: v Cons split: if_split_asm)
    qed (use 2 v in simp)
  next
    case 3
    then obtain q s1 where q: "skip_ws s = q # s1" "q = CHR 0x22" by (auto split: list.splits if_split_asm)
    with 3 obtain k r1 where k: "scan_string s1 = Some (k, r1)" by (auto split: option.splits)
    with 3 q obtain c cs where c: "skip_ws r1 = c # cs" "c = CHR '':''" by (auto split: list.splits if_split_asm)
    with 3 q k obtain v2 r2 where v2: "jvalue n cs = Some (v2, r2)" by (auto split: option.splits)
    with 3 q k c obtain d ds where d: "skip_ws r2 = d # ds" by (auto split: list.splits)
    have len: "length ds < length s"
      using skip_ws_shorter [OF q(1)] scan_string_length [OF k] skip_ws_shorter [OF c(1)] Suc(1) [OF v2]
        skip_ws_shorter [OF d] by linarith
    have mem: "length r \<le> length s" if "jmembers n ds = Some (es, r)" for es r
      using Suc(3) [OF that] len by linarith
    show ?case
      using 3 mem len by (auto simp: q k c v2 d split: if_split_asm)
  }
qed simp_all

text \<open>More fuel than twice the length of the text changes nothing.\<close>

lemma jvalue_enough:
  "2 * length s < m \<Longrightarrow> 2 * length s < n \<Longrightarrow> jvalue m s = jvalue n s"
  "2 * length s + 1 < m \<Longrightarrow> 2 * length s + 1 < n \<Longrightarrow> jelems m s = jelems n s"
  "2 * length s < m \<Longrightarrow> 2 * length s < n \<Longrightarrow> jmembers m s = jmembers n s"
proof (induction m arbitrary: n s)
  case (Suc m)
  {
    case 1
    then obtain k where n: "n = Suc k" by (cases n) auto
    show ?case
    proof (cases "skip_ws s")
      case (Cons c cs)
      note shorter = skip_ws_shorter [OF Cons] skip_ws_length [of cs]
      have eqs: "jelems m (skip_ws cs) = jelems k (skip_ws cs)" "jmembers m (skip_ws cs) = jmembers k (skip_ws cs)"
        using Suc(2,3) [of "skip_ws cs" k] 1 n shorter by simp_all
      then show ?thesis by (simp only: n jvalue.simps Cons list.case Let_def)
    qed (simp add: n)
  next
    case 2
    then obtain k where n: "n = Suc k" by (cases n) auto
    have v: "jvalue m s = jvalue k s" using Suc(1) [of s k] 2 n by simp
    have "jelems m cs = jelems k cs" if "jvalue k s = Some (x, r)" "skip_ws r = c # cs" for x r c cs
      using Suc(2) [of cs k] 2 n jvalue_rest(1) [OF that(1)] skip_ws_shorter [OF that(2)] by simp
    then show ?case by (auto simp: n v split: option.split list.split)
  next
    case 3
    then obtain k where n: "n = Suc k" by (cases n) auto
    have v: "jvalue m cs = jvalue k cs"
      if "skip_ws s = q # s1" "scan_string s1 = Some (l, r)" "skip_ws r = c # cs" for q s1 l r c cs
      using Suc(1) [of cs k] 3 n skip_ws_shorter [OF that(1)] scan_string_length [OF that(2)]
        skip_ws_shorter [OF that(3)] by simp
    have e: "jmembers m ds = jmembers k ds"
      if "skip_ws s = q # s1" "scan_string s1 = Some (l, r)" "skip_ws r = c # cs"
        "jvalue k cs = Some (x, r2)" "skip_ws r2 = d # ds" for q s1 l r c cs x r2 d ds
      using Suc(3) [of ds k] 3 n skip_ws_shorter [OF that(1)] scan_string_length [OF that(2)]
        skip_ws_shorter [OF that(3)] jvalue_rest(1) [OF that(4)] skip_ws_shorter [OF that(5)] by simp
    show ?case
      using v e by (auto simp: n split: option.split list.split)
  }
qed simp_all

text \<open>So the parser never stops for lack of fuel: any more of it gives the same answer.\<close>

lemma json_prefix_fuel: "2 * length s < n \<Longrightarrow> jvalue n s = json_prefix s"
  unfolding json_prefix_def by (rule jvalue_enough(1)) simp_all

definition json_error_text :: gostring where
  "json_error_text = ''json error''"

section \<open>Storing into Go values\<close>

text \<open>
  A decoder takes the value already in the target and a JSON value, and gives the new contents, or
  \<open>None\<close> for a type error (\<open>json.Unmarshal\<close> then returns an error and the program drops the
  target). \<open>null\<close> leaves a string, number, boolean or struct as it is and empties a slice.
\<close>

type_synonym 'a decoder = "'a \<Rightarrow> json \<Rightarrow> 'a option"

fun dec_str :: "gostring decoder" where
  "dec_str old JNull = Some old"
| "dec_str old (JStr s) = Some s"
| "dec_str old _ = None"

fun dec_bool :: "bool decoder" where
  "dec_bool old JNull = Some old"
| "dec_bool old (JBool b) = Some b"
| "dec_bool old _ = None"

fun dec_int :: "int decoder" where
  "dec_int old JNull = Some old"
| "dec_int old (JNum l) = atoi l"
| "dec_int old _ = None"

fun dec_float :: "f64 decoder" where
  "dec_float old JNull = Some old"
| "dec_float old (JNum l) = parse_float l"
| "dec_float old _ = None"

fun dec_all :: "(json \<Rightarrow> 'a option) \<Rightarrow> json list \<Rightarrow> 'a list option" where
  "dec_all d [] = Some []"
| "dec_all d (x # xs) =
     (case d x of
        None \<Rightarrow> None
      | Some v \<Rightarrow> map_option (\<lambda>vs. v # vs) (dec_all d xs))"

definition dec_list :: "'a decoder \<Rightarrow> 'a \<Rightarrow> 'a list decoder" where
  "dec_list d zero old j =
     (case j of JNull \<Rightarrow> Some [] | JArr xs \<Rightarrow> dec_all (d zero) xs | _ \<Rightarrow> None)"

text \<open>A pointer field (\<open>*string\<close>): \<open>null\<close> is \<open>nil\<close>.\<close>

definition dec_ptr :: "'a decoder \<Rightarrow> 'a \<Rightarrow> 'a option decoder" where
  "dec_ptr d zero old j =
     (case j of JNull \<Rightarrow> Some None
      | _ \<Rightarrow> map_option Some (d (case old of None \<Rightarrow> zero | Some v \<Rightarrow> v) j))"

text \<open>
  A member's key selects the field of that exact name, or else the field equal to it up to case:
  ASCII case, and the two runes above ASCII (the Kelvin sign and the long s) whose simple folding
  is an ASCII letter. A key that selects no field is skipped.
\<close>

definition fold_chunk :: "nat \<times> gostring \<Rightarrow> gostring" where
  "fold_chunk p = (case p of (r, bs) \<Rightarrow>
     if 97 \<le> r \<and> r \<le> 122 then [char_of (r - 32)]
     else if r = 0x212A then ''K'' else if r = 0x17F then ''S'' else bs)"

definition fold_key :: "gostring \<Rightarrow> gostring" where
  "fold_key s = concat (map fold_chunk (runes s))"

type_synonym 's fields = "(gostring \<times> ('s \<Rightarrow> json \<Rightarrow> 's option)) list"

definition find_field :: "'s fields \<Rightarrow> gostring \<Rightarrow> ('s \<Rightarrow> json \<Rightarrow> 's option) option" where
  "find_field fs k =
     (case map_of fs k of
        Some d \<Rightarrow> Some d
      | None \<Rightarrow> map_option snd (find (\<lambda>p. fold_key (fst p) = fold_key k) fs))"

fun dec_members :: "'s fields \<Rightarrow> 's \<Rightarrow> (gostring \<times> json) list \<Rightarrow> 's option" where
  "dec_members fs st [] = Some st"
| "dec_members fs st ((k, v) # ms) =
     (case find_field fs k of
        None \<Rightarrow> dec_members fs st ms
      | Some d \<Rightarrow> (case d st v of None \<Rightarrow> None | Some st' \<Rightarrow> dec_members fs st' ms))"

definition dec_struct :: "'s fields \<Rightarrow> 's decoder" where
  "dec_struct fs old j =
     (case j of JNull \<Rightarrow> Some old | JObj ms \<Rightarrow> dec_members fs old ms | _ \<Rightarrow> None)"

text \<open>\<open>field name decoder get put\<close>: one field of a struct.\<close>

definition field ::
  "gostring \<Rightarrow> 'a decoder \<Rightarrow> ('s \<Rightarrow> 'a) \<Rightarrow> ('a \<Rightarrow> 's \<Rightarrow> 's) \<Rightarrow> gostring \<times> ('s \<Rightarrow> json \<Rightarrow> 's option)" where
  "field name d get put = (name, \<lambda>st j. map_option (\<lambda>v. put v st) (d (get st) j))"

text \<open>\<open>json.Unmarshal(body, &v)\<close> with \<open>v\<close> holding \<open>zero\<close>.\<close>

definition unmarshal :: "'a decoder \<Rightarrow> 'a \<Rightarrow> gostring \<Rightarrow> 'a res" where
  "unmarshal d zero body =
     (case json_parse body of
        None \<Rightarrow> Inl json_error_text
      | Some j \<Rightarrow> (case d zero j of None \<Rightarrow> Inl json_error_text | Some v \<Rightarrow> Inr v))"

section \<open>Printing\<close>

definition json_char :: "nat \<times> gostring \<Rightarrow> gostring" where
  "json_char p = (case p of (r, bs) \<Rightarrow>
     let u4 = (\<lambda>n. [CHR 0x5C, CHR ''u''] @ map (\<lambda>d. if d < 10 then char_of (48 + d) else char_of (87 + d))
                     [n div 4096 mod 16, n div 256 mod 16, n div 16 mod 16, n mod 16])
     in if r = 0x22 \<or> r = 0x5C then [CHR 0x5C, char_of r]
        else if r = 8 then [CHR 0x5C, CHR ''b''] else if r = 12 then [CHR 0x5C, CHR ''f'']
        else if r = 10 then [CHR 0x5C, CHR ''n''] else if r = 13 then [CHR 0x5C, CHR ''r'']
        else if r = 9 then [CHR 0x5C, CHR ''t'']
        else if r < 32 \<or> r = 0x3C \<or> r = 0x3E \<or> r = 0x26 \<or> r = 0x2028 \<or> r = 0x2029 then u4 r
        else if r = rune_error \<and> length bs = 1 then u4 r else bs)"

definition json_quote :: "gostring \<Rightarrow> gostring" where
  "json_quote s = [CHR 0x22] @ concat (map json_char (runes s)) @ [CHR 0x22]"

fun json_print :: "json \<Rightarrow> gostring" where
  "json_print JNull = ''null''"
| "json_print (JBool b) = (if b then ''true'' else ''false'')"
| "json_print (JNum l) = l"
| "json_print (JStr s) = json_quote s"
| "json_print (JArr xs) = ''['' @ join_with '','' (map json_print xs) @ '']''"
| "json_print (JObj ms) =
     ''{'' @ join_with '','' (map (\<lambda>(k, v). json_quote k @ '':'' @ json_print v) ms) @ ''}''"

text \<open>A field with \<open>omitempty\<close> is left out when it holds its zero value.\<close>

definition omit :: "bool \<Rightarrow> gostring \<Rightarrow> json \<Rightarrow> (gostring \<times> json) list" where
  "omit z k v = (if z then [] else [(k, v)])"

definition jstrs :: "gostring list \<Rightarrow> json" where
  "jstrs xs = JArr (map JStr xs)"

definition jint :: "int \<Rightarrow> json" where
  "jint i = JNum (itoa i)"

definition jfloat :: "f64 \<Rightarrow> json" where
  "jfloat f = JNum (json_float f)"

lemma dec_all_map_some: "(\<And>x. x \<in> set xs \<Longrightarrow> d (f x) = Some x) \<Longrightarrow> dec_all d (map f xs) = Some xs"
  by (induction xs) auto

lemma dec_list_jstrs [simp]: "dec_list dec_str [] old (jstrs xs) = Some xs"
  by (simp add: dec_list_def jstrs_def dec_all_map_some)

lemma dec_int_jint [simp]: "in_int64 i \<Longrightarrow> dec_int old (jint i) = Some i"
  by (simp add: jint_def atoi_itoa)

section \<open>Concrete runs\<close>

text \<open>Equations for a fuel that is written as a number, and the facts a concrete parse or print unfolds.\<close>

lemmas jvalue_numeral = jvalue.simps(2) [of "pred_numeral k" s for k s, folded numeral_eq_Suc]
lemmas jelems_numeral = jelems.simps(2) [of "pred_numeral k" s for k s, folded numeral_eq_Suc]
lemmas jmembers_numeral = jmembers.simps(2) [of "pred_numeral k" s for k s, folded numeral_eq_Suc]

lemmas json_parse_eval = json_parse_def json_prefix_def skip_ws_def scan_string_def to_valid_utf8_def
  simple_escape_def prepend_def rune_error_def scan_str.simps has_prefix_def hex4_def
  low_surrogate_def scan_number_def num_sign_def num_int_def num_frac_def num_exp_def is_digit_def jvalue_numeral jelems_numeral jmembers_numeral

lemmas json_decode_eval = unmarshal_def dec_struct_def find_field_def field_def dec_list_def

lemmas json_print_eval = json_quote_def json_char_def jstrs_def omit_def rune_error_def

declare json_parse_eval [go_eval] json_decode_eval [go_eval] json_print_eval [go_eval]
declare Let_def [go_eval]

end
