(* ===== verification/World.thy ===== *)
theory World
  imports ForwardedTable GoJson
begin

text \<open>
  The world the plugin runs in, as one state that every operation takes and returns: the two
  tables of its database schema, the HTTP requests it has sent upstream, the events it has
  published, and how often it has used the database, the clock and its context.

  What the environment decides is the record \<open>env\<close>, indexed by the number of the call, so that
  nothing is assumed about it: the answer of each HTTP round trip, whether a database call fails
  (and whether a failed statement has been applied all the same), the clock, the deadline.
\<close>

section \<open>HTTP messages\<close>

type_synonym headers = "(gostring \<times> gostring) list"

definition header_get :: "headers \<Rightarrow> gostring \<Rightarrow> gostring" where
  "header_get hs k = (case map_of hs k of None \<Rightarrow> [] | Some v \<Rightarrow> v)"

definition header_set :: "gostring \<Rightarrow> gostring \<Rightarrow> headers \<Rightarrow> headers" where
  "header_set k v hs = filter (\<lambda>p. fst p \<noteq> k) hs @ [(k, v)]"

definition header_del :: "gostring \<Rightarrow> headers \<Rightarrow> headers" where
  "header_del k hs = filter (\<lambda>p. fst p \<noteq> k) hs"

lemma map_of_filter_other: "map_of (filter (\<lambda>p. fst p \<noteq> k) hs) k' = (if k' = k then None else map_of hs k')"
  by (induction hs) auto

lemma header_get_set [simp]:
  "header_get (header_set k v hs) k' = (if k' = k then v else header_get hs k')"
  by (simp add: header_get_def header_set_def map_add_def map_of_filter_other split: option.split)

lemma header_get_del [simp]:
  "header_get (header_del k hs) k' = (if k' = k then [] else header_get hs k')"
  by (simp add: header_get_def header_del_def map_of_filter_other)

lemma header_get_nil [simp]: "header_get [] k = []"
  by (simp add: header_get_def)

text \<open>
  A request as it is sent: \<open>hq_host\<close> is the host of its URL. A response's \<open>Location\<close> header is
  given resolved against the request's URL, as the client of net/http resolves it.
\<close>

record http_request =
  hq_method :: gostring
  hq_url :: gostring
  hq_host :: gostring
  hq_headers :: headers
  hq_body :: gostring

datatype location = No_Location | Bad_Location gostring | Location_At gostring gostring

record http_response =
  hs_status :: int
  hs_headers :: headers
  hs_location :: location
  hs_body :: gostring
  hs_body_err :: "gostring option"

section \<open>Environment and state\<close>

text \<open>
  What a database call meets: it works; it fails with an error (a statement may have been applied
  before the connection broke); or the connection breaks after \<open>n\<close> rows of the answer, which a
  query that returns many rows notices only through \<open>rows.Err\<close>.
\<close>

datatype db_outcome = Db_Ok | Db_Fail gostring bool | Db_Cut nat

type_synonym payload = "(gostring \<times> gostring) list"

record env =
  e_net :: "nat \<Rightarrow> http_request \<Rightarrow> http_response res"
  e_db :: "nat \<Rightarrow> db_outcome"
  e_clock :: "nat \<Rightarrow> int"
  e_ctx_done :: "nat \<Rightarrow> bool"
  e_collate :: "gostring \<Rightarrow> gostring"

text \<open>An environment for concrete runs: the database works, the upstream does not answer.\<close>

definition calm_env :: env where
  "calm_env = \<lparr>e_net = (\<lambda>_ _. Inl ''offline''), e_db = (\<lambda>_. Db_Ok), e_clock = (\<lambda>n. int n + 1),
     e_ctx_done = (\<lambda>_. False), e_collate = id\<rparr>"

record world =
  w_rows :: table
  w_config :: "json option"
  w_http :: "http_request list"
  w_events :: "(gostring \<times> payload) list"
  w_db :: nat
  w_clk :: nat
  w_ctx :: nat

definition empty_world :: world where
  "empty_world = \<lparr>w_rows = [], w_config = None, w_http = [], w_events = [], w_db = 0, w_clk = 0, w_ctx = 0\<rparr>"

text \<open>\<open>time.Now()\<close>, \<open>ctx.Err() != nil\<close> and one HTTP round trip.\<close>

definition now :: "env \<Rightarrow> world \<Rightarrow> int \<times> world" where
  "now env w = (e_clock env (w_clk w), w\<lparr>w_clk := Suc (w_clk w)\<rparr>)"

definition ctx_err :: "env \<Rightarrow> world \<Rightarrow> bool \<times> world" where
  "ctx_err env w = (e_ctx_done env (w_ctx w), w\<lparr>w_ctx := Suc (w_ctx w)\<rparr>)"

definition round_trip :: "env \<Rightarrow> world \<Rightarrow> http_request \<Rightarrow> http_response res \<times> world" where
  "round_trip env w req = (e_net env (length (w_http w)) req, w\<lparr>w_http := w_http w @ [req]\<rparr>)"

definition emit :: "gostring \<Rightarrow> payload \<Rightarrow> world \<Rightarrow> world" where
  "emit name p w = w\<lparr>w_events := w_events w @ [(name, p)]\<rparr>"

text \<open>
  Postgres (with a UTF8 database) refuses a text parameter that is not valid UTF-8 or holds a NUL
  byte, before it runs the statement.
\<close>

definition pg_text :: "gostring \<Rightarrow> bool" where
  "pg_text s \<longleftrightarrow> CHR 0x00 \<notin> set s \<and> list_all (\<lambda>(r, bs). r \<noteq> rune_error \<or> length bs \<noteq> 1) (runes s)"

definition pg_text_opt :: "gostring option \<Rightarrow> bool" where
  "pg_text_opt x = (case x of None \<Rightarrow> True | Some s \<Rightarrow> pg_text s)"

fun stmt_encodable :: "sql_stmt \<Rightarrow> bool" where
  "stmt_encodable (Upsert x) =
     (pg_text (request_id x) \<and> pg_text_opt (external_id x) \<and> pg_text (status x) \<and> pg_text_opt (error_text x))"
| "stmt_encodable (Mark_Polled k ext st t) = (pg_text k \<and> pg_text_opt ext \<and> pg_text st)"

definition encoding_error :: gostring where
  "encoding_error = ''invalid byte sequence for encoding UTF8''"

definition connection_lost :: gostring where
  "connection_lost = ''connection lost''"

text \<open>
  \<open>pool.Exec\<close> of a statement: on success it has been applied; on failure the caller gets an error
  and the statement may or may not have been applied.
\<close>

definition db_exec :: "env \<Rightarrow> sql_stmt \<Rightarrow> world \<Rightarrow> unit res \<times> world" where
  "db_exec env s w =
     (let w1 = w\<lparr>w_db := Suc (w_db w)\<rparr>; ok = stmt_encodable s
      in case e_db env (w_db w) of
           Db_Ok \<Rightarrow> if ok then (Inr (), w1\<lparr>w_rows := exec_stmt s (w_rows w)\<rparr>) else (Inl encoding_error, w1)
         | Db_Fail e applied \<Rightarrow>
             (Inl e, if ok \<and> applied then w1\<lparr>w_rows := exec_stmt s (w_rows w)\<rparr> else w1)
         | Db_Cut n \<Rightarrow> (Inl connection_lost, w1))"

text \<open>A query: the answer may be cut after some rows (\<open>QueryRow\<close> then reports the error).\<close>

definition db_query :: "env \<Rightarrow> world \<Rightarrow> nat option res \<times> world" where
  "db_query env w =
     (let w1 = w\<lparr>w_db := Suc (w_db w)\<rparr>
      in case e_db env (w_db w) of
           Db_Ok \<Rightarrow> (Inr None, w1) | Db_Fail e _ \<Rightarrow> (Inl e, w1) | Db_Cut n \<Rightarrow> (Inr (Some n), w1))"

definition db_query_row :: "env \<Rightarrow> world \<Rightarrow> unit res \<times> world" where
  "db_query_row env w =
     (let w1 = w\<lparr>w_db := Suc (w_db w)\<rparr>
      in case e_db env (w_db w) of
           Db_Ok \<Rightarrow> (Inr (), w1) | Db_Fail e _ \<Rightarrow> (Inl e, w1) | Db_Cut n \<Rightarrow> (Inl connection_lost, w1))"

lemma now_frame [simp]:
  "w_rows (snd (now env w)) = w_rows w" "w_config (snd (now env w)) = w_config w"
  "w_http (snd (now env w)) = w_http w" "w_events (snd (now env w)) = w_events w"
  "w_db (snd (now env w)) = w_db w"
  by (simp_all add: now_def)

lemma now_rows: "now env w = (t, w1) \<Longrightarrow> w_rows w1 = w_rows w"
  by (auto simp: now_def)

lemma ctx_err_frame [simp]:
  "w_rows (snd (ctx_err env w)) = w_rows w" "w_config (snd (ctx_err env w)) = w_config w"
  "w_http (snd (ctx_err env w)) = w_http w" "w_events (snd (ctx_err env w)) = w_events w"
  "w_db (snd (ctx_err env w)) = w_db w"
  by (simp_all add: ctx_err_def)

lemma round_trip_frame [simp]:
  "w_rows (snd (round_trip env w q)) = w_rows w" "w_config (snd (round_trip env w q)) = w_config w"
  "w_events (snd (round_trip env w q)) = w_events w" "w_db (snd (round_trip env w q)) = w_db w"
  "w_clk (snd (round_trip env w q)) = w_clk w" "w_ctx (snd (round_trip env w q)) = w_ctx w"
  by (simp_all add: round_trip_def)

lemma emit_frame [simp]:
  "w_rows (emit n p w) = w_rows w" "w_config (emit n p w) = w_config w"
  "w_http (emit n p w) = w_http w" "w_events (emit n p w) = w_events w @ [(n, p)]"
  by (simp_all add: emit_def)

lemma db_exec_frame [simp]:
  "w_config (snd (db_exec env s w)) = w_config w" "w_http (snd (db_exec env s w)) = w_http w"
  "w_events (snd (db_exec env s w)) = w_events w" "w_clk (snd (db_exec env s w)) = w_clk w"
  "w_ctx (snd (db_exec env s w)) = w_ctx w"
  by (simp_all add: db_exec_def Let_def split: db_outcome.split)

lemma db_query_frame [simp]:
  "w_rows (snd (db_query env w)) = w_rows w" "w_config (snd (db_query env w)) = w_config w"
  "w_http (snd (db_query env w)) = w_http w" "w_events (snd (db_query env w)) = w_events w"
  by (simp_all add: db_query_def Let_def split: db_outcome.split)

lemma db_query_row_frame [simp]:
  "w_rows (snd (db_query_row env w)) = w_rows w" "w_config (snd (db_query_row env w)) = w_config w"
  "w_http (snd (db_query_row env w)) = w_http w" "w_events (snd (db_query_row env w)) = w_events w"
  by (simp_all add: db_query_row_def Let_def split: db_outcome.split)

lemma db_exec_ok:
  "fst (db_exec env s w) = Inr () \<Longrightarrow> w_rows (snd (db_exec env s w)) = exec_stmt s (w_rows w)"
  by (auto simp: db_exec_def Let_def split: db_outcome.splits if_splits)

section \<open>Writes to the table\<close>

text \<open>
  \<open>writes P w w'\<close>: the table of \<open>w'\<close> is that of \<open>w\<close> after some statements that all satisfy \<open>P\<close>.
  Every operation of the program is proved to relate its states this way, for the \<open>P\<close> its
  statements satisfy; the laws of the table then carry over.
\<close>

definition writes :: "(sql_stmt \<Rightarrow> bool) \<Rightarrow> world \<Rightarrow> world \<Rightarrow> bool" where
  "writes P w w' \<longleftrightarrow> (\<exists>ss. (\<forall>s \<in> set ss. P s) \<and> w_rows w' = fold exec_stmt ss (w_rows w))"

lemma writes_same: "w_rows w' = w_rows w \<Longrightarrow> writes P w w'"
  by (auto simp: writes_def intro: exI [of _ "[]"])

lemma writes_refl [simp]: "writes P w w"
  by (rule writes_same) simp

lemma writes_trans [trans]: "writes P a b \<Longrightarrow> writes P b c \<Longrightarrow> writes P a c"
  unfolding writes_def
proof (elim exE conjE)
  fix ss ts
  assume "\<forall>s\<in>set ss. P s" "\<forall>s\<in>set ts. P s"
    and "w_rows b = fold exec_stmt ss (w_rows a)" "w_rows c = fold exec_stmt ts (w_rows b)"
  then show "\<exists>us. (\<forall>s\<in>set us. P s) \<and> w_rows c = fold exec_stmt us (w_rows a)"
    by (intro exI [of _ "ss @ ts"]) auto
qed

lemma writes_mono: "writes P a b \<Longrightarrow> (\<And>s. P s \<Longrightarrow> Q s) \<Longrightarrow> writes Q a b"
  unfolding writes_def by blast

text \<open>\<open>wrote P w w'\<close>: at most one statement, with \<open>P\<close>, lies between the two tables.\<close>

definition wrote :: "(sql_stmt \<Rightarrow> bool) \<Rightarrow> world \<Rightarrow> world \<Rightarrow> bool" where
  "wrote P w w' \<longleftrightarrow> w_rows w' = w_rows w \<or> (\<exists>s. P s \<and> w_rows w' = exec_stmt s (w_rows w))"

lemma wrote_same: "w_rows w' = w_rows w \<Longrightarrow> wrote P w w'"
  by (simp add: wrote_def)

lemma wrote_cong: "w_rows w1 = w_rows w \<Longrightarrow> w_rows w3 = w_rows w2 \<Longrightarrow> wrote P w1 w2 \<Longrightarrow> wrote P w w3"
  by (simp add: wrote_def)

lemma wrote_mono: "wrote P a b \<Longrightarrow> (\<And>s. P s \<Longrightarrow> Q s) \<Longrightarrow> wrote Q a b"
  unfolding wrote_def by blast

lemma wrote_writes: "wrote P a b \<Longrightarrow> writes P a b"
  by (auto simp: wrote_def writes_def intro: exI [of _ "[]"] exI [of _ "[s]" for s])

lemma db_exec_wrote: "P s \<Longrightarrow> wrote P w (snd (db_exec env s w))"
  by (auto simp: wrote_def db_exec_def Let_def split: db_outcome.split)

lemma writes_forward:
  assumes "writes P w w'" and "row_at (w_rows w) k = Some r"
  shows "\<exists>r'. row_at (w_rows w') k = Some r' \<and> row_forward r r'"
  using assms fwd_tbl.fold_fwd unfolding writes_def by metis

lemma writes_distinct: "writes P w w' \<Longrightarrow> keys_distinct (w_rows w) \<Longrightarrow> keys_distinct (w_rows w')"
  using keyed_tbl.fold_inv unfolding writes_def by metis

lemma writes_ok: "writes stmt_ok w w' \<Longrightarrow> table_ok (w_rows w) \<Longrightarrow> table_ok (w_rows w')"
  using ok_tbl.fold_inv unfolding writes_def by metis

section \<open>Growing logs\<close>

text \<open>From \<open>w\<close> to \<open>w'\<close> the log \<open>f\<close> has grown by at most \<open>n\<close> entries, all with \<open>P\<close>.\<close>

definition grows :: "(world \<Rightarrow> 'a list) \<Rightarrow> ('a \<Rightarrow> bool) \<Rightarrow> nat \<Rightarrow> world \<Rightarrow> world \<Rightarrow> bool" where
  "grows f P n w w' \<longleftrightarrow> (\<exists>xs. f w' = f w @ xs \<and> length xs \<le> n \<and> (\<forall>x \<in> set xs. P x))"

lemma grows_same: "f w' = f w \<Longrightarrow> grows f P n w w'"
  by (auto simp: grows_def intro: exI [of _ "[]"])

lemma grows_one: "f w' = f w @ [x] \<Longrightarrow> P x \<Longrightarrow> n \<ge> 1 \<Longrightarrow> grows f P n w w'"
  by (auto simp: grows_def)

lemma grows_trans: "grows f P m a b \<Longrightarrow> grows f P n b c \<Longrightarrow> grows f P (m + n) a c"
  unfolding grows_def by (elim exE conjE, rule_tac x = "xs @ xsa" in exI) auto

lemma grows_mono: "grows f P m a b \<Longrightarrow> m \<le> n \<Longrightarrow> (\<And>x. P x \<Longrightarrow> Q x) \<Longrightarrow> grows f Q n a b"
  unfolding grows_def by (elim exE conjE, rule_tac x = xs in exI) auto

lemma grows_length: "grows f P n w w' \<Longrightarrow> length (f w') \<le> length (f w) + n"
  by (auto simp: grows_def)

text \<open>Statements about one key leave the rows of all other keys alone.\<close>

fun stmt_key :: "sql_stmt \<Rightarrow> gostring" where
  "stmt_key (Upsert x) = request_id x"
| "stmt_key (Mark_Polled k ext st t) = k"

lemma exec_stmt_other: "stmt_key s \<noteq> k \<Longrightarrow> row_at (exec_stmt s rows) k = row_at rows k"
  by (cases s) (auto simp: row_at_upsert row_at_mark_polled)

lemma fold_stmt_other:
  "(\<And>s. s \<in> set ss \<Longrightarrow> stmt_key s \<noteq> k) \<Longrightarrow> row_at (fold exec_stmt ss rows) k = row_at rows k"
  by (induction ss arbitrary: rows) (auto simp: exec_stmt_other)

lemma writes_other:
  assumes "writes (\<lambda>s. stmt_key s \<in> K) w w'" and "k \<notin> K"
  shows "row_at (w_rows w') k = row_at (w_rows w) k"
  using assms fold_stmt_other unfolding writes_def by metis

end
