(* ===== verification/GoUrl.thy ===== *)
theory GoUrl
  imports GoStrings
begin

text \<open>
  \<open>url.Parse\<close> of net/url, which the program calls to validate the configured base URL and which
  \<open>http.NewRequestWithContext\<close> calls on every request URL: the scheme, the host and the checks that
  make it fail. What the program does not read of the result (path, query, fragment, user) is
  checked for well-formedness and dropped. The wording of the error is not modelled.

  Simplification: a host in square brackets (an IPv6 literal) needs its closing bracket and a valid
  optional port; the zone and the address inside the brackets are not checked further.
\<close>

record url =
  u_scheme :: gostring
  u_host :: gostring

definition url_error_text :: gostring where
  "url_error_text = ''invalid URL''"

text \<open>\<open>strings.Cut\<close>, and the position of the last occurrence of a byte.\<close>

definition cut_at :: "char \<Rightarrow> gostring \<Rightarrow> gostring \<times> gostring" where
  "cut_at c s = (takeWhile (\<lambda>x. x \<noteq> c) s, tl (dropWhile (\<lambda>x. x \<noteq> c) s))"

definition after_last :: "char \<Rightarrow> gostring \<Rightarrow> gostring" where
  "after_last c s = rev (takeWhile (\<lambda>x. x \<noteq> c) (rev s))"

lemma after_last_append: "c \<notin> set b \<Longrightarrow> after_last c (a @ c # b) = b"
proof -
  assume "c \<notin> set b"
  then have "takeWhile (\<lambda>x. x \<noteq> c) (rev b @ c # rev a) = rev b @ takeWhile (\<lambda>x. x \<noteq> c) (c # rev a)"
    by (intro takeWhile_append2) auto
  then show ?thesis by (simp add: after_last_def)
qed

definition before_last :: "char \<Rightarrow> gostring \<Rightarrow> gostring" where
  "before_last c s = rev (tl (dropWhile (\<lambda>x. x \<noteq> c) (rev s)))"

definition is_letter :: "char \<Rightarrow> bool" where
  "is_letter c \<longleftrightarrow> (let b = byte_of c in 65 \<le> b \<and> b \<le> 90 \<or> 97 \<le> b \<and> b \<le> 122)"

definition is_hex :: "char \<Rightarrow> bool" where
  "is_hex c \<longleftrightarrow> is_digit c \<or> (let b = byte_of c in 65 \<le> b \<and> b \<le> 70 \<or> 97 \<le> b \<and> b \<le> 102)"

text \<open>\<open>getScheme\<close>: \<open>None\<close> is the error of a leading colon.\<close>

fun scheme_scan :: "gostring \<Rightarrow> gostring \<Rightarrow> gostring \<Rightarrow> (gostring \<times> gostring) option" where
  "scheme_scan whole acc [] = Some ([], whole)"
| "scheme_scan whole acc (c # cs) =
     (if is_letter c then scheme_scan whole (acc @ [c]) cs
      else if is_digit c \<or> c \<in> set ''+-.''
      then (if acc = [] then Some ([], whole) else scheme_scan whole (acc @ [c]) cs)
      else if c = CHR '':'' then (if acc = [] then None else Some (acc, cs))
      else Some ([], whole))"

text \<open>\<open>unescape\<close> as a check: every percent sign starts an escape of two hex digits.\<close>

fun escapes_ok :: "gostring \<Rightarrow> bool" where
  "escapes_ok [] = True"
| "escapes_ok [c] = (c \<noteq> CHR ''%'')"
| "escapes_ok [c, d] = (c \<noteq> CHR ''%'' \<and> d \<noteq> CHR ''%'')"
| "escapes_ok (c # d # e # cs) =
     (if c = CHR ''%'' then is_hex d \<and> is_hex e \<and> escapes_ok cs else escapes_ok (d # e # cs))"

text \<open>
  In a host, an escape must stand for a byte above ASCII, and an ASCII byte must be unreserved or
  one of the delimiters a host may hold.
\<close>

fun host_escapes_ok :: "gostring \<Rightarrow> bool" where
  "host_escapes_ok [] = True"
| "host_escapes_ok (c # cs) =
     (if c = CHR ''%''
      then (case cs of d # e # _ \<Rightarrow> is_hex d \<and> is_hex e \<and> d \<notin> set ''01234567'' | _ \<Rightarrow> False)
           \<and> host_escapes_ok cs
      else (0x80 \<le> byte_of c \<or> unreserved c \<or> c \<in> set ''!$&()*+,;=:[]<>'' \<or> byte_of c \<in> {34, 39})
           \<and> host_escapes_ok cs)"

definition port_ok :: "gostring \<Rightarrow> bool" where
  "port_ok s \<longleftrightarrow> s = [] \<or> (hd s = CHR '':'' \<and> list_all is_digit (tl s))"

definition parse_host :: "gostring \<Rightarrow> gostring option" where
  "parse_host h =
     (if has_prefix ''['' h
      then (if CHR '']'' \<in> set h \<and> port_ok (after_last (CHR '']'') h) then Some h else None)
      else if (CHR '':'' \<in> set h \<and> \<not> list_all is_digit (after_last (CHR '':'') h)) \<or> \<not> host_escapes_ok h
      then None else Some h)"

definition userinfo_ok :: "gostring \<Rightarrow> bool" where
  "userinfo_ok s \<longleftrightarrow>
     list_all (\<lambda>c. is_letter c \<or> is_digit c \<or> c \<in> set ''-._:~!$&()*+,;=%@'' \<or> byte_of c = 39) s \<and> escapes_ok s"

definition parse_authority :: "gostring \<Rightarrow> gostring option" where
  "parse_authority a =
     (if CHR ''@'' \<in> set a
      then (if userinfo_ok (before_last (CHR ''@'') a) then parse_host (after_last (CHR ''@'') a) else None)
      else parse_host a)"

definition url_parse :: "gostring \<Rightarrow> url res" where
  "url_parse raw =
     (let (u, frag) = cut_at (CHR ''#'') raw
      in if list_ex (\<lambda>c. byte_of c < 32 \<or> byte_of c = 127) u \<or> \<not> escapes_ok frag then Inl url_error_text
         else if u = ''*'' then Inr \<lparr>u_scheme = [], u_host = []\<rparr>
         else case scheme_scan u [] u of
           None \<Rightarrow> Inl url_error_text
         | Some (sch, rest0) \<Rightarrow>
             (let scheme = to_lower sch; rest = fst (cut_at (CHR ''?'') rest0)
              in if \<not> has_prefix ''/'' rest \<and> scheme \<noteq> [] then Inr \<lparr>u_scheme = scheme, u_host = []\<rparr>
                 else if \<not> has_prefix ''/'' rest \<and> CHR '':'' \<in> set (fst (cut_at (CHR ''/'') rest))
                 then Inl url_error_text
                 else if (scheme \<noteq> [] \<or> \<not> has_prefix ''///'' rest) \<and> has_prefix ''//'' rest
                 then (let auth = takeWhile (\<lambda>c. c \<noteq> CHR ''/'') (drop 2 rest);
                           path = dropWhile (\<lambda>c. c \<noteq> CHR ''/'') (drop 2 rest)
                       in case parse_authority auth of
                            None \<Rightarrow> Inl url_error_text
                          | Some h \<Rightarrow> if escapes_ok path then Inr \<lparr>u_scheme = scheme, u_host = h\<rparr>
                                      else Inl url_error_text)
                 else if escapes_ok rest then Inr \<lparr>u_scheme = scheme, u_host = []\<rparr>
                 else Inl url_error_text))"

section \<open>Adding a path\<close>

lemma scheme_scan_append:
  "scheme_scan whole acc s = Some (sch, rest) \<Longrightarrow> sch \<noteq> [] \<Longrightarrow>
   scheme_scan (whole @ p) acc (s @ p) = Some (sch, rest @ p)"
  by (induction whole acc s rule: scheme_scan.induct) (auto split: if_splits)

lemma takeWhile_all: "(\<And>x. x \<in> set b \<Longrightarrow> P x) \<Longrightarrow> takeWhile P b = b"
  by (simp add: takeWhile_eq_all_conv)

lemma has_prefixD: "has_prefix p s \<Longrightarrow> \<exists>t. s = p @ t"
  unfolding has_prefix_def by (metis append_take_drop_id)

lemma has_prefixI [simp]: "has_prefix p (p @ t)"
  by (simp add: has_prefix_def)

lemma cut_append_path:
  assumes "p = [] \<or> has_prefix ''/'' p" and "c \<noteq> CHR ''/''"
  shows "\<exists>p'. fst (cut_at c (b @ p)) = fst (cut_at c b) @ p' \<and> (p' = [] \<or> has_prefix ''/'' p')"
proof (cases "c \<in> set b")
  case True
  then have "fst (cut_at c (b @ p)) = fst (cut_at c b) @ []"
    by (auto simp: cut_at_def takeWhile_append)
  then show ?thesis by blast
next
  case False
  then have "fst (cut_at c (b @ p)) = fst (cut_at c b) @ takeWhile (\<lambda>x. x \<noteq> c) p"
    by (auto simp: cut_at_def takeWhile_append takeWhile_all)
  moreover have "takeWhile (\<lambda>x. x \<noteq> c) p = [] \<or> has_prefix ''/'' (takeWhile (\<lambda>x. x \<noteq> c) p)"
    using assms by (cases p) (auto simp: has_prefix_def)
  ultimately show ?thesis by blast
qed

definition authority :: "gostring \<Rightarrow> gostring" where
  "authority rest = takeWhile (\<lambda>c. c \<noteq> CHR ''/'') (drop 2 rest)"

text \<open>With a host and a scheme, the host is read from the authority.\<close>

lemma url_parse_host:
  assumes "url_parse raw = Inr u" and "u_host u \<noteq> []"
  obtains sch rest0 where "scheme_scan (fst (cut_at (CHR ''#'') raw)) [] (fst (cut_at (CHR ''#'') raw)) = Some (sch, rest0)"
    "u_scheme u = to_lower sch" "has_prefix ''//'' (fst (cut_at (CHR ''?'') rest0))"
    "parse_authority (authority (fst (cut_at (CHR ''?'') rest0))) = Some (u_host u)"
  using assms unfolding url_parse_def authority_def
  by (auto simp: Let_def split: prod.splits if_splits option.splits)

lemma slashes_prefix: "has_prefix ''//'' s \<Longrightarrow> has_prefix ''/'' s"
  by (cases s) (auto simp: has_prefix_def)

lemma url_parse_authority:
  assumes "url_parse raw = Inr u"
    and scan: "scheme_scan (fst (cut_at (CHR ''#'') raw)) [] (fst (cut_at (CHR ''#'') raw)) = Some (sch, rest0)"
    and pre: "has_prefix ''//'' (fst (cut_at (CHR ''?'') rest0))" and "to_lower sch \<noteq> []"
  shows "parse_authority (authority (fst (cut_at (CHR ''?'') rest0))) = Some (u_host u)"
proof -
  have "fst (cut_at (CHR ''#'') raw) \<noteq> ''*''"
  proof
    assume star: "fst (cut_at (CHR ''#'') raw) = ''*''"
    then have "rest0 = ''*''" using scan by (auto simp: is_letter_def is_digit_def split: if_splits)
    then show False using pre by (simp add: cut_at_def has_prefix_def)
  qed
  then show ?thesis
    using assms slashes_prefix [OF pre] unfolding url_parse_def authority_def
    by (auto simp: Let_def split: prod.splits if_splits option.splits)
qed

lemma authority_append:
  assumes r: "has_prefix ''//'' r" and p: "has_prefix ''/'' p"
  shows "authority (r @ p) = authority r"
proof -
  obtain r' p' where "r = ''//'' @ r'" "p = ''/'' @ p'"
    using has_prefixD [OF r] has_prefixD [OF p] by blast
  then show ?thesis by (simp add: authority_def takeWhile_append takeWhile_all)
qed

text \<open>Appending a path to a URL with a scheme and a host keeps its host.\<close>

lemma url_parse_append_path:
  assumes b: "url_parse b = Inr u" "u_host u \<noteq> []" "u_scheme u \<noteq> []"
    and p: "has_prefix ''/'' p" and u': "url_parse (b @ p) = Inr u'"
  shows "u_host u' = u_host u"
proof -
  let ?c = "\<lambda>s. fst (cut_at (CHR ''#'') s)" and ?q = "\<lambda>s. fst (cut_at (CHR ''?'') s)"
  obtain sch rest0 where h: "scheme_scan (?c b) [] (?c b) = Some (sch, rest0)"
    "u_scheme u = to_lower sch" "has_prefix ''//'' (?q rest0)"
    "parse_authority (authority (?q rest0)) = Some (u_host u)"
    using url_parse_host [OF b(1,2)] by blast
  have sch: "sch \<noteq> []" using b(3) h(2) by (auto simp: to_lower_def)
  obtain p' where p': "?c (b @ p) = ?c b @ p'" "p' = [] \<or> has_prefix ''/'' p'"
    using cut_append_path [of p "CHR ''#''" b] p by auto
  have scan: "scheme_scan (?c (b @ p)) [] (?c (b @ p)) = Some (sch, rest0 @ p')"
    using scheme_scan_append [OF h(1) sch] by (simp add: p'(1))
  obtain p2 where p2: "?q (rest0 @ p') = ?q rest0 @ p2" "p2 = [] \<or> has_prefix ''/'' p2"
    using cut_append_path [OF p'(2), of "CHR ''?''" rest0] by auto
  have pre: "has_prefix ''//'' (?q (rest0 @ p'))"
    unfolding p2(1) using has_prefixD [OF h(3)] by (metis append_assoc has_prefixI)
  have "authority (?q (rest0 @ p')) = authority (?q rest0)"
    using p2 authority_append [OF h(3)] by auto
  then show ?thesis
    using url_parse_authority [OF u' scan pre] b(3) h(2,4) by simp
qed

section \<open>Concrete runs\<close>

lemmas url_parse_eval = url_parse_def cut_at_def is_letter_def is_digit_def parse_authority_def
  parse_host_def unreserved_def to_lower_def lower_chunk_def after_last_def before_last_def
  has_prefix_def

declare url_parse_eval [go_eval]

end
