(* ===== verification/AppConfig.thy ===== *)
theory AppConfig
  imports World GoUrl
begin

text \<open>
  The plugin's configuration: internal/runtime/runtime.go (its type, what is masked in the log, the
  \<open>Configure\<close> call of the host) and internal/store/store.go (the singleton row of \<open>app_config\<close>).

  The column \<open>data\<close> is \<open>jsonb\<close>: the world keeps the JSON value it denotes. What \<open>json.Marshal\<close> writes
  is read back by Postgres as the same value with invalid bytes replaced, and a NUL in a string is
  refused (the keys are the names of the fields). The callback of \<open>Configure\<close> is a parameter here; the theory Plugin gives it.
\<close>

section \<open>The configuration\<close>

record app_config =
  ac_database_url :: gostring
  ac_base_url :: gostring
  ac_api_key :: gostring
  ac_default_cover_size :: gostring
  ac_request_quality_profile :: gostring
  ac_enable_auto_monitoring :: bool
  ac_stream_signing_secret :: gostring

definition zero_config :: app_config where
  "zero_config = \<lparr>ac_database_url = [], ac_base_url = [], ac_api_key = [], ac_default_cover_size = [],
     ac_request_quality_profile = [], ac_enable_auto_monitoring = False, ac_stream_signing_secret = []\<rparr>"

definition config_json :: "app_config \<Rightarrow> json" where
  "config_json c = JObj (
     omit (ac_database_url c = []) ''database_url'' (JStr (ac_database_url c))
     @ [(''base_url'', JStr (ac_base_url c))]
     @ omit (ac_api_key c = []) ''api_key'' (JStr (ac_api_key c))
     @ [(''default_cover_size'', JStr (ac_default_cover_size c))]
     @ omit (ac_request_quality_profile c = []) ''request_quality_profile'' (JStr (ac_request_quality_profile c))
     @ [(''enable_auto_monitoring'', JBool (ac_enable_auto_monitoring c))]
     @ omit (ac_stream_signing_secret c = []) ''stream_signing_secret'' (JStr (ac_stream_signing_secret c)))"

definition config_fields :: "app_config fields" where
  "config_fields =
     [field ''database_url'' dec_str ac_database_url (\<lambda>v c. c\<lparr>ac_database_url := v\<rparr>),
      field ''base_url'' dec_str ac_base_url (\<lambda>v c. c\<lparr>ac_base_url := v\<rparr>),
      field ''api_key'' dec_str ac_api_key (\<lambda>v c. c\<lparr>ac_api_key := v\<rparr>),
      field ''default_cover_size'' dec_str ac_default_cover_size (\<lambda>v c. c\<lparr>ac_default_cover_size := v\<rparr>),
      field ''request_quality_profile'' dec_str ac_request_quality_profile
        (\<lambda>v c. c\<lparr>ac_request_quality_profile := v\<rparr>),
      field ''enable_auto_monitoring'' dec_bool ac_enable_auto_monitoring
        (\<lambda>v c. c\<lparr>ac_enable_auto_monitoring := v\<rparr>),
      field ''stream_signing_secret'' dec_str ac_stream_signing_secret
        (\<lambda>v c. c\<lparr>ac_stream_signing_secret := v\<rparr>)]"

definition configured :: "app_config \<Rightarrow> bool" where
  "configured c \<longleftrightarrow> ac_database_url c \<noteq> []"

definition provider_configured :: "app_config \<Rightarrow> bool" where
  "provider_configured c \<longleftrightarrow> ac_base_url c \<noteq> [] \<and> ac_api_key c \<noteq> []"

definition mask :: "gostring \<Rightarrow> gostring" where
  "mask s = (if s = [] then [] else ''***redacted***'')"

text \<open>\<open>LogValue\<close>: the attributes of the group.\<close>

definition log_value :: "app_config \<Rightarrow> (gostring \<times> any) list" where
  "log_value c =
     [(''database_url'', AStr (mask (ac_database_url c))),
      (''base_url'', AStr (ac_base_url c)),
      (''api_key'', AStr (mask (ac_api_key c))),
      (''default_cover_size'', AStr (ac_default_cover_size c)),
      (''request_quality_profile'', AStr (ac_request_quality_profile c)),
      (''enable_auto_monitoring'', ABool (ac_enable_auto_monitoring c)),
      (''stream_signing_secret'', AStr (mask (ac_stream_signing_secret c)))]"

text \<open>\<open>String\<close>: how log/slog writes that group, \<open>[key=value \<dots>]\<close>.\<close>

definition attr_text :: "gostring \<times> any \<Rightarrow> gostring" where
  "attr_text a = fst a @ ''='' @ (case snd a of AStr s \<Rightarrow> s | ABool b \<Rightarrow> (if b then ''true'' else ''false'') | _ \<Rightarrow> [])"

definition config_string :: "app_config \<Rightarrow> gostring" where
  "config_string c = ''['' @ join_with '' '' (map attr_text (log_value c)) @ '']''"

section \<open>The stored row\<close>

definition default_app_config :: app_config where
  "default_app_config = zero_config\<lparr>ac_base_url := ''https://bookwarehouse.domain.com'',
     ac_default_cover_size := ''medium''\<rparr>"

definition default_cover :: "app_config \<Rightarrow> app_config" where
  "default_cover c = (if ac_default_cover_size c = [] then c\<lparr>ac_default_cover_size := ''medium''\<rparr> else c)"

fun jsonb :: "json \<Rightarrow> json" where
  "jsonb (JStr s) = JStr (to_valid_utf8 s)"
| "jsonb (JArr xs) = JArr (map jsonb xs)"
| "jsonb (JObj ms) = JObj (map (\<lambda>(k, v). (k, jsonb v)) ms)"
| "jsonb j = j"

fun jsonb_ok :: "json \<Rightarrow> bool" where
  "jsonb_ok (JStr s) = (CHR 0x00 \<notin> set s)"
| "jsonb_ok (JArr xs) = list_all jsonb_ok xs"
| "jsonb_ok (JObj ms) = list_all (\<lambda>(k, v). jsonb_ok v) ms"
| "jsonb_ok j = True"

text \<open>A statement on the row: \<open>ok\<close> tells whether the database accepts its parameter.\<close>

definition config_exec :: "env \<Rightarrow> bool \<Rightarrow> (json option \<Rightarrow> json) \<Rightarrow> world \<Rightarrow> unit res \<times> world" where
  "config_exec env ok f w =
     (let w1 = w\<lparr>w_db := Suc (w_db w)\<rparr>; w2 = w1\<lparr>w_config := Some (f (w_config w))\<rparr>
      in case e_db env (w_db w) of
           Db_Ok \<Rightarrow> if ok then (Inr (), w2) else (Inl encoding_error, w1)
         | Db_Fail e applied \<Rightarrow> (Inl e, if ok \<and> applied then w2 else w1)
         | Db_Cut n \<Rightarrow> (Inl connection_lost, w1))"

text \<open>\<open>INSERT \<dots> ON CONFLICT (id) DO NOTHING\<close> of an empty object.\<close>

definition ensure_config_row :: "env \<Rightarrow> world \<Rightarrow> unit res \<times> world" where
  "ensure_config_row env w =
     config_exec env True (\<lambda>old. case old of None \<Rightarrow> JObj [] | Some j \<Rightarrow> j) w"

definition decode_config :: "json \<Rightarrow> app_config res" where
  "decode_config j =
     (case dec_struct config_fields default_app_config j of
        None \<Rightarrow> Inl (''decode app_config: '' @ json_error_text)
      | Some c \<Rightarrow> Inr (default_cover c))"

lemma ensure_config_row_present: "ensure_config_row env w = (Inr u, w1) \<Longrightarrow> \<exists>j. w_config w1 = Some j"
  by (auto simp: ensure_config_row_def config_exec_def Let_def split: db_outcome.splits)

lemma db_query_row_config: "db_query_row env w = (r, w1) \<Longrightarrow> w_config w1 = w_config w"
  using db_query_row_frame(2) [of env w] by simp

text \<open>\<open>GetAppConfig\<close> calls itself after it has inserted a missing row; then the row is there.\<close>

function get_app_config :: "env \<Rightarrow> world \<Rightarrow> app_config res \<times> world" where
  "get_app_config env w =
     (case db_query_row env w of
        (Inl e, w1) \<Rightarrow> (Inl (''get app_config: '' @ e), w1)
      | (Inr _, w1) \<Rightarrow>
          (case w_config w1 of
             Some j \<Rightarrow> (decode_config j, w1)
           | None \<Rightarrow>
               (case ensure_config_row env w1 of
                  (Inl e, w2) \<Rightarrow> (Inl (''ensure app_config: '' @ e), w2)
                | (Inr _, w2) \<Rightarrow> get_app_config env w2)))"
  by pat_completeness auto
termination
  by (relation "measure (\<lambda>(env, w). if w_config w = None then 1 else 0)")
    (auto dest!: db_query_row_config [OF sym] ensure_config_row_present [OF sym])

declare get_app_config.simps [simp del]

definition update_app_config :: "env \<Rightarrow> world \<Rightarrow> app_config \<Rightarrow> unit res \<times> world" where
  "update_app_config env w cfg =
     (let j = config_json (default_cover (cfg\<lparr>ac_database_url := []\<rparr>))
      in case config_exec env (jsonb_ok j) (\<lambda>_. jsonb j) w of
           (Inl e, w1) \<Rightarrow> (Inl (''update app_config: '' @ e), w1)
         | (Inr _, w1) \<Rightarrow> (Inr (), w1))"

definition merge_legacy :: "app_config \<Rightarrow> app_config \<Rightarrow> app_config" where
  "merge_legacy legacy current =
     (let l1 = legacy\<lparr>ac_database_url := []\<rparr>;
          l2 = (if ac_base_url l1 = [] then l1\<lparr>ac_base_url := ac_base_url current\<rparr> else l1)
      in if ac_default_cover_size l2 = [] then l2\<lparr>ac_default_cover_size := ac_default_cover_size current\<rparr>
         else l2)"

definition import_legacy :: "env \<Rightarrow> world \<Rightarrow> app_config \<Rightarrow> app_config res \<times> world" where
  "import_legacy env w legacy =
     (case get_app_config env w of
        (Inl e, w1) \<Rightarrow> (Inl e, w1)
      | (Inr current, w1) \<Rightarrow>
          if current \<noteq> default_app_config then (Inr current, w1)
          else if merge_legacy legacy current = current then (Inr current, w1)
          else (case update_app_config env w1 (merge_legacy legacy current) of
                  (Inl e, w2) \<Rightarrow> (Inl e, w2)
                | (Inr _, w2) \<Rightarrow> get_app_config env w2))"

section \<open>Configure\<close>

text \<open>One entry: its key and its value's map, \<open>None\<close> for a nil value.\<close>

type_synonym config_entry = "gostring \<times> anymap option"

definition apply_entry :: "config_entry \<Rightarrow> app_config \<Rightarrow> app_config" where
  "apply_entry e cfg =
     (case snd e of
        None \<Rightarrow> cfg
      | Some m \<Rightarrow>
          (let v = map_of m ''value'';  s = any_string v; k = fst e
           in if k = ''database_url'' then cfg\<lparr>ac_database_url := s\<rparr>
              else if k = ''base_url'' then cfg\<lparr>ac_base_url := s\<rparr>
              else if k = ''api_key'' then cfg\<lparr>ac_api_key := s\<rparr>
              else if k = ''default_cover_size'' then cfg\<lparr>ac_default_cover_size := s\<rparr>
              else if k = ''request_quality_profile'' then cfg\<lparr>ac_request_quality_profile := s\<rparr>
              else if k = ''enable_auto_monitoring''
              then (case v of Some (ABool b) \<Rightarrow> cfg\<lparr>ac_enable_auto_monitoring := b\<rparr> | _ \<Rightarrow> cfg)
              else if k = ''stream_signing_secret'' then cfg\<lparr>ac_stream_signing_secret := s\<rparr>
              else cfg))"

definition parse_entries :: "config_entry list \<Rightarrow> app_config" where
  "parse_entries es = fold apply_entry es zero_config"

definition base_url_ok :: "gostring \<Rightarrow> bool" where
  "base_url_ok s =
     (case url_parse s of
        Inl _ \<Rightarrow> False
      | Inr u \<Rightarrow> (u_scheme u = ''http'' \<or> u_scheme u = ''https'') \<and> u_host u \<noteq> [])"

text \<open>\<open>Configure\<close> over the server's stored configuration \<open>cur\<close> and the state \<open>s\<close> of its callback.\<close>

definition configure ::
  "(app_config \<Rightarrow> 's \<Rightarrow> unit res \<times> 's) option \<Rightarrow> config_entry list \<Rightarrow> app_config \<Rightarrow> 's
   \<Rightarrow> unit res \<times> app_config \<times> 's" where
  "configure on_cfg es cur s =
     (let cfg = parse_entries es
      in if ac_database_url cfg = [] then (Inr (), cfg, s)
         else if ac_base_url cfg \<noteq> [] \<and> \<not> base_url_ok (ac_base_url cfg)
         then (Inl ''base_url must be a valid http(s) URL'', cur, s)
         else case on_cfg of
           None \<Rightarrow> (Inr (), cfg, s)
         | Some f \<Rightarrow>
             (case f cfg s of
                (Inl e, s1) \<Rightarrow> (Inl e, cur, s1)
              | (Inr _, s1) \<Rightarrow> (Inr (), cfg, s1)))"

section \<open>Laws\<close>

lemma config_exec_frame [simp]:
  "w_rows (snd (config_exec env ok f w)) = w_rows w" "w_http (snd (config_exec env ok f w)) = w_http w"
  "w_events (snd (config_exec env ok f w)) = w_events w" "w_ctx (snd (config_exec env ok f w)) = w_ctx w"
  "w_clk (snd (config_exec env ok f w)) = w_clk w"
  by (simp_all add: config_exec_def Let_def split: db_outcome.split)

lemma config_exec_ok:
  "fst (config_exec env ok f w) = Inr u \<Longrightarrow> ok \<and> w_config (snd (config_exec env ok f w)) = Some (f (w_config w))"
  by (auto simp: config_exec_def Let_def split: db_outcome.splits if_splits)

lemma update_app_config_snd:
  "snd (update_app_config env w cfg) =
     snd (config_exec env (jsonb_ok (config_json (default_cover (cfg\<lparr>ac_database_url := []\<rparr>))))
            (\<lambda>_. jsonb (config_json (default_cover (cfg\<lparr>ac_database_url := []\<rparr>)))) w)"
  by (simp add: update_app_config_def Let_def case_prod_beta split: sum.split)

lemma update_app_config_ok:
  "fst (update_app_config env w cfg) = Inr u \<Longrightarrow>
   w_config (snd (update_app_config env w cfg))
     = Some (jsonb (config_json (default_cover (cfg\<lparr>ac_database_url := []\<rparr>))))"
  using config_exec_ok [of env "jsonb_ok (config_json (default_cover (cfg\<lparr>ac_database_url := []\<rparr>)))"
      "\<lambda>_. jsonb (config_json (default_cover (cfg\<lparr>ac_database_url := []\<rparr>)))" w]
  by (auto simp: update_app_config_def Let_def case_prod_beta split: sum.splits)

text \<open>With the row there, \<open>GetAppConfig\<close> is one query.\<close>

lemma get_app_config_row:
  "w_config w = Some j \<Longrightarrow> get_app_config env w =
     (case fst (db_query_row env w) of
        Inl e \<Rightarrow> (Inl (''get app_config: '' @ e), snd (db_query_row env w))
      | Inr _ \<Rightarrow> (decode_config j, snd (db_query_row env w)))"
  by (subst get_app_config.simps) (simp add: case_prod_beta split: sum.split)

lemma get_app_config_no_row:
  "w_config w = None \<Longrightarrow> get_app_config env w =
     (case db_query_row env w of
        (Inl e, w1) \<Rightarrow> (Inl (''get app_config: '' @ e), w1)
      | (Inr _, w1) \<Rightarrow>
          (case ensure_config_row env w1 of
             (Inl e, w2) \<Rightarrow> (Inl (''ensure app_config: '' @ e), w2)
           | (Inr _, w2) \<Rightarrow> get_app_config env w2))"
  using db_query_row_config [of env w]
  by (subst get_app_config.simps) (auto split: prod.split sum.split)

text \<open>What a read and an import leave alone.\<close>

definition same_tables :: "world \<Rightarrow> world \<Rightarrow> bool" where
  "same_tables w w' \<longleftrightarrow> w_rows w' = w_rows w \<and> w_http w' = w_http w \<and> w_events w' = w_events w"

lemma same_tables_refl [simp]: "same_tables w w"
  by (simp add: same_tables_def)

lemma same_tables_trans: "same_tables a b \<Longrightarrow> same_tables b c \<Longrightarrow> same_tables a c"
  by (simp add: same_tables_def)

lemma same_tables_query [simp]: "same_tables w (snd (db_query_row env w))"
  by (simp add: same_tables_def)

lemma same_tables_exec [simp]: "same_tables w (snd (config_exec env ok f w))"
  by (simp add: same_tables_def)

lemma get_app_config_same: "same_tables w (snd (get_app_config env w))"
proof (cases "w_config w")
  case (Some j)
  then show ?thesis by (simp add: get_app_config_row split: sum.split)
next
  case None
  obtain r w1 where q: "db_query_row env w = (r, w1)" by (metis surj_pair)
  obtain r2 w2 where e: "ensure_config_row env w1 = (r2, w2)" by (metis surj_pair)
  have st: "same_tables w w1" using same_tables_query [of w env] q by simp
  moreover have "same_tables w1 w2"
    using same_tables_exec [of w1 env] e unfolding ensure_config_row_def by (metis snd_conv)
  ultimately have st2: "same_tables w w2" by (rule same_tables_trans)
  have "same_tables w (snd (get_app_config env w2))" if ok: "r2 = Inr u" for u
  proof -
    obtain j where "w_config w2 = Some j" using ensure_config_row_present [of env w1 u w2] e ok by auto
    then show ?thesis
      using same_tables_trans [OF st2 same_tables_query] by (simp add: get_app_config_row split: sum.split)
  qed
  then show ?thesis
    using st st2 None by (simp add: get_app_config_no_row q e split: sum.split)
qed

lemma update_app_config_same: "same_tables w (snd (update_app_config env w cfg))"
  by (simp add: update_app_config_snd)

text \<open>The ways an import goes.\<close>

lemma import_legacy_cases:
  obtains (failed) e where "fst (get_app_config env w) = Inl e"
      "import_legacy env w legacy = (Inl e, snd (get_app_config env w))"
  | (kept) current where "fst (get_app_config env w) = Inr current"
      "current \<noteq> default_app_config \<or> merge_legacy legacy current = current"
      "import_legacy env w legacy = (Inr current, snd (get_app_config env w))"
  | (refused) e w2 where "fst (get_app_config env w) = Inr default_app_config"
      "update_app_config env (snd (get_app_config env w)) (merge_legacy legacy default_app_config) = (Inl e, w2)"
      "import_legacy env w legacy = (Inl e, w2)"
  | (stored) w2 where "fst (get_app_config env w) = Inr default_app_config"
      "update_app_config env (snd (get_app_config env w)) (merge_legacy legacy default_app_config) = (Inr (), w2)"
      "import_legacy env w legacy = get_app_config env w2"
proof (cases "fst (get_app_config env w)")
  case (Inl e)
  then show ?thesis by (intro failed [of e]) (simp_all add: import_legacy_def case_prod_beta)
next
  case (Inr current)
  show ?thesis
  proof (cases "current \<noteq> default_app_config \<or> merge_legacy legacy current = current")
    case True
    then show ?thesis using Inr by (intro kept [of current]) (auto simp: import_legacy_def case_prod_beta)
  next
    case False
    obtain r w2 where
      "update_app_config env (snd (get_app_config env w)) (merge_legacy legacy default_app_config) = (r, w2)"
      by (metis surj_pair)
    with Inr False show ?thesis
      by (cases r) (auto simp: import_legacy_def case_prod_beta intro: refused stored)
  qed
qed

lemma import_legacy_same: "same_tables w (snd (import_legacy env w legacy))"
proof -
  have g: "same_tables w (snd (get_app_config env w))" by (rule get_app_config_same)
  show ?thesis
  proof (cases rule: import_legacy_cases [of env w legacy])
    case (refused e w2)
    then show ?thesis using same_tables_trans [OF g update_app_config_same] by (metis snd_conv)
  next
    case (stored w2)
    then have "same_tables w w2" using same_tables_trans [OF g update_app_config_same] by (metis snd_conv)
    then show ?thesis using same_tables_trans [OF _ get_app_config_same] stored(3) by metis
  qed (use g in simp_all)
qed

text \<open>Reading back what was written.\<close>

lemma to_valid_utf8_nil [simp]: "to_valid_utf8 s = [] \<longleftrightarrow> s = []"
  by (cases s) (auto simp: to_valid_utf8_def runes.simps(2) Let_def encode_rune_def)

lemma to_valid_utf8_empty [simp]: "to_valid_utf8 [] = []"
  by simp

definition utf8_config :: "app_config \<Rightarrow> app_config" where
  "utf8_config c = \<lparr>ac_database_url = to_valid_utf8 (ac_database_url c), ac_base_url = to_valid_utf8 (ac_base_url c),
     ac_api_key = to_valid_utf8 (ac_api_key c), ac_default_cover_size = to_valid_utf8 (ac_default_cover_size c),
     ac_request_quality_profile = to_valid_utf8 (ac_request_quality_profile c),
     ac_enable_auto_monitoring = ac_enable_auto_monitoring c,
     ac_stream_signing_secret = to_valid_utf8 (ac_stream_signing_secret c)\<rparr>"

lemma decode_config_jsonb:
  assumes "ac_database_url c = []" and "ac_default_cover_size c \<noteq> []"
  shows "decode_config (jsonb (config_json c)) = Inr (utf8_config c)"
  using assms
  by (simp add: decode_config_def config_json_def omit_def dec_struct_def config_fields_def find_field_def
      field_def default_app_config_def zero_config_def utf8_config_def default_cover_def)

text \<open>What a read gives after a write.\<close>

lemma config_roundtrip_read:
  assumes "fst (update_app_config env w cfg) = Inr ()"
    and "fst (db_query_row env2 (snd (update_app_config env w cfg))) = Inr ()"
  shows "get_app_config env2 (snd (update_app_config env w cfg))
    = (Inr (utf8_config (default_cover (cfg\<lparr>ac_database_url := []\<rparr>))),
       snd (db_query_row env2 (snd (update_app_config env w cfg))))"
proof -
  let ?c = "default_cover (cfg\<lparr>ac_database_url := []\<rparr>)"
  have "decode_config (jsonb (config_json ?c)) = Inr (utf8_config ?c)"
    by (rule decode_config_jsonb) (simp_all add: default_cover_def)
  then show ?thesis
    using get_app_config_row [OF update_app_config_ok [OF assms(1)], of env2] assms(2) by simp
qed

lemma calm_query [simp]: "db_query_row calm_env w = (Inr (), w\<lparr>w_db := Suc (w_db w)\<rparr>)"
  by (simp add: db_query_row_def calm_env_def)

lemma import_legacy_calm:
  "w_config w = Some j \<Longrightarrow> decode_config j = Inr c \<Longrightarrow> c \<noteq> default_app_config \<Longrightarrow>
   import_legacy calm_env w legacy = (Inr c, w\<lparr>w_db := Suc (w_db w)\<rparr>)"
  by (simp add: import_legacy_def get_app_config_row)

section \<open>Properties\<close>

text \<open>
  C27. The stored configuration round-trips: after \<open>UpdateAppConfig\<close> has succeeded, every
  \<open>GetAppConfig\<close> whose query works gives the configuration that was stored, without the database URL,
  with the default cover size filled in and invalid bytes replaced; it leaves the row as it is.
\<close>

theorem config_roundtrip:
  assumes "fst (update_app_config env w cfg) = Inr ()" and "fst (db_query_row env2 (snd (update_app_config env w cfg))) = Inr ()"
  shows "fst (get_app_config env2 (snd (update_app_config env w cfg)))
      = Inr (utf8_config (default_cover (cfg\<lparr>ac_database_url := []\<rparr>)))
    \<and> w_config (snd (get_app_config env2 (snd (update_app_config env w cfg))))
      = w_config (snd (update_app_config env w cfg))"
  by (simp add: config_roundtrip_read [OF assms])

definition sample_config :: app_config where
  "sample_config = zero_config\<lparr>ac_database_url := ''postgres://db'', ac_base_url := ''http://bw.local'',
     ac_api_key := ''key'', ac_stream_signing_secret := ''s!''\<rparr>"

lemma sample_stored:
  "update_app_config calm_env empty_world sample_config
     = (Inr (), empty_world\<lparr>w_db := 1, w_config := Some (jsonb (config_json
          (sample_config\<lparr>ac_database_url := [], ac_default_cover_size := ''medium''\<rparr>)))\<rparr>)"
  by (simp add: update_app_config_def config_exec_def calm_env_def empty_world_def sample_config_def
      zero_config_def default_cover_def config_json_def omit_def Let_def)

theorem config_roundtrip_witness:
  "fst (get_app_config calm_env (snd (update_app_config calm_env empty_world sample_config)))
     = Inr (utf8_config (sample_config\<lparr>ac_database_url := [], ac_default_cover_size := ''medium''\<rparr>))"
proof -
  have "default_cover (sample_config\<lparr>ac_database_url := []\<rparr>)
      = sample_config\<lparr>ac_database_url := [], ac_default_cover_size := ''medium''\<rparr>"
    by (simp add: default_cover_def sample_config_def zero_config_def)
  then show ?thesis
    using config_roundtrip [of calm_env empty_world sample_config calm_env] by (simp add: sample_stored)
qed

text \<open>What a successful read has seen is in the row.\<close>

lemma get_app_config_seen:
  assumes "fst (get_app_config env w) = Inr c"
  shows "\<exists>j. w_config (snd (get_app_config env w)) = Some j \<and> decode_config j = Inr c"
proof (cases "w_config w")
  case (Some j)
  then show ?thesis using assms by (auto simp: get_app_config_row split: sum.splits)
next
  case None
  obtain r w1 where q: "db_query_row env w = (r, w1)" by (metis surj_pair)
  obtain r2 w2 where e: "ensure_config_row env w1 = (r2, w2)" by (metis surj_pair)
  obtain u v where ok: "r = Inr u" "r2 = Inr v"
    using assms None by (auto simp: get_app_config_no_row q e split: sum.splits)
  obtain j where j: "w_config w2 = Some j" using ensure_config_row_present [of env w1 v w2] e ok by auto
  then show ?thesis
    using assms None by (auto simp: get_app_config_no_row q e ok get_app_config_row split: sum.splits)
qed

lemma import_legacy_seen:
  assumes "fst (import_legacy env w legacy) = Inr c"
  shows "\<exists>j. w_config (snd (import_legacy env w legacy)) = Some j \<and> decode_config j = Inr c"
proof (cases rule: import_legacy_cases [of env w legacy])
  case (kept current)
  then show ?thesis using assms get_app_config_seen by simp
next
  case (stored w2)
  then show ?thesis using assms get_app_config_seen by metis
qed (use assms in simp_all)

text \<open>
  C37. The first customised configuration sticks: once an import has given a configuration other than
  the default, every later import whose query works gives the same one, whatever the host
  configures, and leaves the row as it is. The host's settings count only until then.
\<close>

theorem import_sticks:
  assumes "fst (import_legacy env w legacy) = Inr c" and "c \<noteq> default_app_config"
    and "fst (db_query_row env2 (snd (import_legacy env w legacy))) = Inr ()"
  shows "fst (import_legacy env2 (snd (import_legacy env w legacy)) legacy2) = Inr c
    \<and> w_config (snd (import_legacy env2 (snd (import_legacy env w legacy)) legacy2))
      = w_config (snd (import_legacy env w legacy))"
proof -
  let ?w = "snd (import_legacy env w legacy)"
  obtain j where "w_config ?w = Some j" "decode_config j = Inr c"
    using import_legacy_seen [OF assms(1)] by blast
  then have "get_app_config env2 ?w = (Inr c, snd (db_query_row env2 ?w))"
    using assms(3) by (simp add: get_app_config_row)
  then show ?thesis using assms(2) by (simp add: import_legacy_def)
qed

lemma sample_decoded:
  "decode_config (jsonb (config_json (sample_config\<lparr>ac_database_url := [], ac_default_cover_size := ''medium''\<rparr>)))
     = Inr (utf8_config (sample_config\<lparr>ac_database_url := [], ac_default_cover_size := ''medium''\<rparr>))"
  by (rule decode_config_jsonb) simp_all

definition stored_world :: world where
  "stored_world = snd (update_app_config calm_env empty_world sample_config)"

lemma stored_import:
  "import_legacy calm_env stored_world legacy =
     (Inr (utf8_config (sample_config\<lparr>ac_database_url := [], ac_default_cover_size := ''medium''\<rparr>)),
      stored_world\<lparr>w_db := 2\<rparr>)"
proof -
  let ?c = "utf8_config (sample_config\<lparr>ac_database_url := [], ac_default_cover_size := ''medium''\<rparr>)"
  have "ac_api_key ?c \<noteq> ac_api_key default_app_config"
    by (simp add: utf8_config_def sample_config_def default_app_config_def zero_config_def)
  then have ne: "?c \<noteq> default_app_config" by auto
  have row: "w_config stored_world = Some (jsonb (config_json
      (sample_config\<lparr>ac_database_url := [], ac_default_cover_size := ''medium''\<rparr>)))" "w_db stored_world = 1"
    by (simp_all add: sample_stored stored_world_def)
  then show ?thesis
    using ne by (simp add: import_legacy_calm [OF _ sample_decoded])
qed

theorem import_sticks_witness:
  "fst (import_legacy calm_env (stored_world\<lparr>w_db := 2\<rparr>) (zero_config\<lparr>ac_base_url := ''http://other''\<rparr>))
     = Inr (utf8_config (sample_config\<lparr>ac_database_url := [], ac_default_cover_size := ''medium''\<rparr>))"
proof -
  let ?c = "utf8_config (sample_config\<lparr>ac_database_url := [], ac_default_cover_size := ''medium''\<rparr>)"
  have "ac_api_key ?c \<noteq> ac_api_key default_app_config"
    by (simp add: utf8_config_def sample_config_def default_app_config_def zero_config_def)
  then have ne: "?c \<noteq> default_app_config" by auto
  show ?thesis
    using import_sticks [of calm_env stored_world zero_config ?c calm_env "zero_config\<lparr>ac_base_url := ''http://other''\<rparr>"] ne
    by (simp add: stored_import)
qed

text \<open>
  The log does not depend on the secrets: whatever the database URL, the API key and the signing
  secret are, the attributes logged and the text of \<open>String\<close> show only whether each is set.
\<close>

lemma log_hides_secrets:
  assumes "d = [] \<longleftrightarrow> ac_database_url c = []" and "k = [] \<longleftrightarrow> ac_api_key c = []"
    and "s = [] \<longleftrightarrow> ac_stream_signing_secret c = []"
  shows "log_value (c\<lparr>ac_database_url := d, ac_api_key := k, ac_stream_signing_secret := s\<rparr>) = log_value c
    \<and> config_string (c\<lparr>ac_database_url := d, ac_api_key := k, ac_stream_signing_secret := s\<rparr>) = config_string c"
  using assms by (simp add: config_string_def log_value_def mask_def)

theorem log_hides_secrets_witness:
  "log_value (sample_config\<lparr>ac_database_url := ''x'', ac_api_key := ''y'', ac_stream_signing_secret := ''z''\<rparr>)
     = log_value sample_config"
  by (rule conjunct1 [OF log_hides_secrets]) (simp_all add: sample_config_def)

text \<open>
  What \<open>Configure\<close> accepts: without a database URL the configuration is stored and nothing is wired;
  a base URL that is not an http(s) URL with a host is refused before the callback runs; a failed
  callback leaves the stored configuration as it was; only a success of the callback stores it.
\<close>

lemma configure_guards:
  "(ac_database_url (parse_entries es) = [] \<longrightarrow> configure (Some f) es cur s = (Inr (), parse_entries es, s))
   \<and> (ac_database_url (parse_entries es) \<noteq> [] \<and> ac_base_url (parse_entries es) \<noteq> []
        \<and> \<not> base_url_ok (ac_base_url (parse_entries es)) \<longrightarrow>
        configure (Some f) es cur s = (Inl ''base_url must be a valid http(s) URL'', cur, s))
   \<and> (fst (f (parse_entries es) s) = Inl e \<longrightarrow> ac_database_url (parse_entries es) \<noteq> [] \<longrightarrow>
        (\<exists>m. fst (configure (Some f) es cur s) = Inl m) \<and> fst (snd (configure (Some f) es cur s)) = cur)
   \<and> (fst (configure (Some f) es cur s) = Inr () \<longrightarrow> fst (snd (configure (Some f) es cur s)) = parse_entries es)"
  by (auto simp: configure_def Let_def case_prod_beta split: sum.splits)

theorem configure_guards_witness:
  "configure (Some (\<lambda>_ n. (Inr (), Suc n)))
     [(''database_url'', Some [(''value'', AStr ''postgres://db'')]), (''base_url'', Some [(''value'', AStr ''ftp://x'')])]
     zero_config 0 = (Inl ''base_url must be a valid http(s) URL'', zero_config, 0 :: nat)"
proof -
  have p: "parse_entries [(''database_url'', Some [(''value'', AStr ''postgres://db'')]),
      (''base_url'', Some [(''value'', AStr ''ftp://x'')])]
      = zero_config\<lparr>ac_database_url := ''postgres://db'', ac_base_url := ''ftp://x''\<rparr>"
    by (simp add: parse_entries_def apply_entry_def)
  have "url_parse ''ftp://x'' = Inr \<lparr>u_scheme = ''ftp'', u_host = ''x''\<rparr>"
    by (simp add: url_parse_eval Let_def)
  then have "\<not> base_url_ok ''ftp://x''" by (simp add: base_url_ok_def)
  then show ?thesis
    using configure_guards [of "[(''database_url'', Some [(''value'', AStr ''postgres://db'')]),
      (''base_url'', Some [(''value'', AStr ''ftp://x'')])]" "\<lambda>_ n. (Inr (), Suc n)" zero_config 0]
    by (simp add: p)
qed

end
