(* ===== verification/Client.thy ===== *)
theory Client
  imports World GoUrl
begin

text \<open>
  The HTTP client of internal/bookwarehouse/client.go: the cover size, the request builder, the
  redirect loop of \<open>http.Client\<close> with the program's \<open>CheckRedirect\<close>, the bounded read of the body,
  and \<open>Get\<close>, \<open>GetStreamWithRange\<close>, \<open>PostJSON\<close> and \<open>Ping\<close>.

  Every operation takes the environment and the world and returns its result with the new world,
  in which only the log of requests has grown (\<open>sends\<close>). The \<open>Referer\<close> header that net/http adds to
  a redirected request is not modelled; whether the transport accepts a request at all (its scheme,
  its header values, the 30 second timeout) is the environment's answer to the round trip.
\<close>

section \<open>Requests sent\<close>

text \<open>\<open>sends P n w w'\<close>: from \<open>w\<close> to \<open>w'\<close> at most \<open>n\<close> requests were sent, all with \<open>P\<close>, and nothing
  else happened.\<close>

definition sends :: "(http_request \<Rightarrow> bool) \<Rightarrow> nat \<Rightarrow> world \<Rightarrow> world \<Rightarrow> bool" where
  "sends P n w w' \<longleftrightarrow>
     (\<exists>qs. w' = w\<lparr>w_http := w_http w @ qs\<rparr> \<and> length qs \<le> n \<and> (\<forall>q \<in> set qs. P q))"

lemma sends_refl [simp]: "sends P n w w"
  by (auto simp: sends_def intro: exI [of _ "[]"])

lemma sends_trans: "sends P m a b \<Longrightarrow> sends P n b c \<Longrightarrow> sends P (m + n) a c"
  unfolding sends_def by (elim exE conjE, rule_tac x = "qs @ qsa" in exI) auto

lemma sends_mono: "sends P m a b \<Longrightarrow> m \<le> n \<Longrightarrow> (\<And>q. P q \<Longrightarrow> Q q) \<Longrightarrow> sends Q n a b"
  unfolding sends_def by (elim exE conjE, rule_tac x = qs in exI) auto

lemma sends_frame [dest]:
  assumes "sends P n w w'"
  shows "w_rows w' = w_rows w \<and> w_config w' = w_config w \<and> w_events w' = w_events w
    \<and> w_db w' = w_db w \<and> w_clk w' = w_clk w \<and> w_ctx w' = w_ctx w"
  using assms by (auto simp: sends_def)

lemma sends_writes [intro]: "sends P n w w' \<Longrightarrow> writes Q w w'"
  by (rule writes_same) (simp add: sends_frame)

lemma sends_grows: "sends P n w w' \<Longrightarrow> grows w_http P n w w'"
  by (auto simp: sends_def grows_def)

section \<open>Cover size and error snippets\<close>

definition default_cover_size_fallback :: gostring where
  "default_cover_size_fallback = ''medium''"

definition normalize_cover_size :: "gostring \<Rightarrow> gostring" where
  "normalize_cover_size s =
     (let t = to_lower (trim_space s)
      in if t = ''thumbnail'' \<or> t = ''medium'' \<or> t = ''original'' then t
         else if t = ''small'' then ''thumbnail''
         else if t = ''large'' then ''original''
         else default_cover_size_fallback)"

definition max_response_bytes :: nat where
  "max_response_bytes = 10485760"

definition err_body_snippet :: nat where
  "err_body_snippet = 512"

definition truncated_suffix :: gostring where
  "truncated_suffix = [CHR 0xE2, CHR 0x80, CHR 0xA6] @ ''(truncated)''"

definition trunc_for_error :: "gostring \<Rightarrow> gostring" where
  "trunc_for_error b =
     (if length b \<le> err_body_snippet then b else take err_body_snippet b @ truncated_suffix)"

section \<open>The client\<close>

record client =
  c_base :: gostring
  c_key :: gostring
  c_cover :: gostring

definition new_client :: "gostring \<Rightarrow> gostring \<Rightarrow> client" where
  "new_client base key =
     \<lparr>c_base = trim_right (CHR ''/'') base, c_key = key, c_cover = default_cover_size_fallback\<rparr>"

definition set_default_cover_size :: "gostring \<Rightarrow> client \<Rightarrow> client" where
  "set_default_cover_size sz c = c\<lparr>c_cover := normalize_cover_size sz\<rparr>"

definition reconfigure :: "gostring \<Rightarrow> gostring \<Rightarrow> client \<Rightarrow> client" where
  "reconfigure base key c = c\<lparr>c_base := trim_right (CHR ''/'') base, c_key := key\<rparr>"

section \<open>Sending a request\<close>

definition api_key_header :: gostring where
  \<comment> \<open>\<open>X-API-Key\<close> in canonical form\<close>
  "api_key_header = ''X-Api-Key''"

text \<open>\<open>CheckRedirect\<close>: \<open>None\<close> is \<open>ErrUseLastResponse\<close>.\<close>

definition check_redirect :: "http_request \<Rightarrow> http_request list \<Rightarrow> http_request option" where
  "check_redirect req via =
     (if 10 \<le> length via then None
      else if hq_host req \<noteq> hq_host (hd via)
      then Some (req\<lparr>hq_headers := header_del api_key_header (hq_headers req)\<rparr>)
      else Some req)"

text \<open>\<open>redirectBehavior\<close> of net/http: the next method, and whether the body is sent again.\<close>

definition redirect_behavior :: "gostring \<Rightarrow> int \<Rightarrow> (gostring \<times> bool) option" where
  "redirect_behavior meth st =
     (if st = 301 \<or> st = 302 \<or> st = 303
      then Some (if meth = ''GET'' \<or> meth = ''HEAD'' then meth else ''GET'', False)
      else if st = 307 \<or> st = 308 then Some (meth, True) else None)"

definition redirected :: "http_request \<Rightarrow> gostring \<times> bool \<Rightarrow> gostring \<Rightarrow> gostring \<Rightarrow> http_request" where
  "redirected first mb u host =
     \<lparr>hq_method = fst mb, hq_url = u, hq_host = host, hq_headers = hq_headers first,
      hq_body = (if snd mb then hq_body first else [])\<rparr>"

text \<open>\<open>http.Client.Do\<close>: \<open>via\<close> are the requests already sent, \<open>req\<close> the one to send now.\<close>

function do_request ::
  "env \<Rightarrow> world \<Rightarrow> http_request list \<Rightarrow> http_request \<Rightarrow> http_response res \<times> world" where
  "do_request env w via req =
     (case round_trip env w req of
        (Inl e, w1) \<Rightarrow> (Inl e, w1)
      | (Inr resp, w1) \<Rightarrow>
          (case redirect_behavior (hq_method req) (hs_status resp) of
             None \<Rightarrow> (Inr resp, w1)
           | Some mb \<Rightarrow>
               (case hs_location resp of
                  No_Location \<Rightarrow> (Inr resp, w1)
                | Bad_Location e \<Rightarrow> (Inl e, w1)
                | Location_At u host \<Rightarrow>
                    (case check_redirect (redirected (hd (via @ [req])) mb u host) (via @ [req]) of
                       None \<Rightarrow> (Inr resp, w1)
                     | Some next_req \<Rightarrow> do_request env w1 (via @ [req]) next_req))))"
  by pat_completeness auto
termination
  by (relation "measure (\<lambda>(env, w, via, req). 10 - length via)")
    (auto simp: check_redirect_def split: if_splits)

declare do_request.simps [simp del]

text \<open>\<open>http.NewRequestWithContext\<close>; a host that ends in a colon loses it.\<close>

definition remove_empty_port :: "gostring \<Rightarrow> gostring" where
  "remove_empty_port h = (if h \<noteq> [] \<and> last h = CHR '':'' then butlast h else h)"

definition new_request :: "gostring \<Rightarrow> gostring \<Rightarrow> headers \<Rightarrow> gostring \<Rightarrow> http_request res" where
  "new_request meth u hs body =
     (case url_parse u of
        Inl e \<Rightarrow> Inl (''new request: '' @ e)
      | Inr p \<Rightarrow> Inr \<lparr>hq_method = meth, hq_url = u, hq_host = remove_empty_port (u_host p),
                       hq_headers = hs, hq_body = body\<rparr>)"

text \<open>\<open>io.ReadAll(io.LimitReader(resp.Body, maxResponseBytes))\<close>: at the limit the reader stops, so a
  longer body is cut and an error behind the limit is never seen.\<close>

definition read_body :: "http_response \<Rightarrow> gostring res" where
  "read_body resp =
     (if length (hs_body resp) < max_response_bytes
      then (case hs_body_err resp of None \<Rightarrow> Inr (hs_body resp) | Some e \<Rightarrow> Inl e)
      else Inr (take max_response_bytes (hs_body resp)))"

definition finish_request :: "http_response res \<times> world \<Rightarrow> gostring res \<times> world" where
  "finish_request rw =
     (case rw of
        (Inl e, w) \<Rightarrow> (Inl (''do: '' @ e), w)
      | (Inr resp, w) \<Rightarrow>
          (case read_body resp of
             Inl e \<Rightarrow> (Inl (''read body: '' @ e), w)
           | Inr body \<Rightarrow>
               if 400 \<le> hs_status resp
               then (Inl (''upstream '' @ itoa (hs_status resp) @ '': '' @ trunc_for_error body), w)
               else (Inr body, w)))"

definition client_get :: "client \<Rightarrow> env \<Rightarrow> world \<Rightarrow> gostring \<Rightarrow> gostring res \<times> world" where
  "client_get c env w path =
     (case new_request ''GET'' (c_base c @ path)
             [(api_key_header, c_key c), (''Accept'', ''application/json'')] [] of
        Inl e \<Rightarrow> (Inl e, w)
      | Inr req \<Rightarrow> finish_request (do_request env w [] req))"

definition post_json :: "client \<Rightarrow> env \<Rightarrow> world \<Rightarrow> gostring \<Rightarrow> gostring \<Rightarrow> gostring res \<times> world" where
  "post_json c env w path body =
     (case new_request ''POST'' (c_base c @ path)
             [(api_key_header, c_key c), (''Content-Type'', ''application/json''),
              (''Accept'', ''application/json'')] body of
        Inl e \<Rightarrow> (Inl e, w)
      | Inr req \<Rightarrow> finish_request (do_request env w [] req))"

definition get_stream_with_range ::
  "client \<Rightarrow> env \<Rightarrow> world \<Rightarrow> gostring \<Rightarrow> gostring \<Rightarrow> http_response res \<times> world" where
  "get_stream_with_range c env w path rng =
     (case new_request ''GET'' (c_base c @ path)
             ([(api_key_header, c_key c)] @ (if rng \<noteq> [] then [(''Range'', rng)] else [])) [] of
        Inl e \<Rightarrow> (Inl e, w)
      | Inr req \<Rightarrow>
          (case do_request env w [] req of
             (Inl e, w1) \<Rightarrow> (Inl (''do: '' @ e), w1)
           | (Inr resp, w1) \<Rightarrow>
               if 400 \<le> hs_status resp \<and> hs_status resp \<noteq> 416
               then (Inl (''upstream '' @ itoa (hs_status resp)), w1)
               else (Inr resp, w1)))"

definition get_stream :: "client \<Rightarrow> env \<Rightarrow> world \<Rightarrow> gostring \<Rightarrow> http_response res \<times> world" where
  [simp]: "get_stream c env w path = get_stream_with_range c env w path []"

definition ping :: "client \<Rightarrow> env \<Rightarrow> world \<Rightarrow> unit res \<times> world" where
  "ping c env w =
     (case client_get c env w ''/api/v1/health'' of
        (Inr _, w1) \<Rightarrow> (Inr (), w1)
      | (Inl _, w1) \<Rightarrow>
          (case client_get c env w1 ''/health'' of
             (Inr _, w2) \<Rightarrow> (Inr (), w2)
           | (Inl e, w2) \<Rightarrow> (Inl e, w2)))"

section \<open>What is sent\<close>

text \<open>A request that carries the API key goes to the host of the first request of its chain.\<close>

definition key_safe :: "gostring \<Rightarrow> http_request \<Rightarrow> bool" where
  "key_safe host q \<longleftrightarrow> hq_host q = host \<or> header_get (hq_headers q) api_key_header = []"

lemma check_redirect_some:
  "check_redirect req via = Some q \<Longrightarrow>
     length via < 10 \<and> hq_host q = hq_host req \<and> key_safe (hq_host (hd via)) q"
  by (auto simp: check_redirect_def key_safe_def split: if_splits)

lemma round_trip_sends: "P req \<Longrightarrow> sends P 1 w (snd (round_trip env w req))"
  by (auto simp: sends_def round_trip_def intro: exI [of _ "[req]"])

lemma do_request_sends:
  "length via < 10 \<Longrightarrow> key_safe (hq_host (hd (via @ [req]))) req \<Longrightarrow>
   sends (key_safe (hq_host (hd (via @ [req])))) (10 - length via) w (snd (do_request env w via req))"
proof (induction env w via req rule: do_request.induct)
  case (1 env w via req)
  let ?P = "key_safe (hq_host (hd (via @ [req])))"
  obtain r w1 where rt: "round_trip env w req = (r, w1)" by (cases "round_trip env w req")
  have one: "sends ?P 1 w w1"
    using round_trip_sends [of ?P req w env] "1.prems" by (simp add: rt)
  then have stop: "sends ?P (10 - length via) w w1"
    by (rule sends_mono) (use "1.prems" in auto)
  show ?case
  proof (cases "\<exists>resp mb u host q. r = Inr resp
      \<and> redirect_behavior (hq_method req) (hs_status resp) = Some mb
      \<and> hs_location resp = Location_At u host
      \<and> check_redirect (redirected (hd (via @ [req])) mb u host) (via @ [req]) = Some q")
    case True
    then obtain resp mb u host q where hop: "r = Inr resp"
      "redirect_behavior (hq_method req) (hs_status resp) = Some mb"
      "hs_location resp = Location_At u host"
      "check_redirect (redirected (hd (via @ [req])) mb u host) (via @ [req]) = Some q"
      by blast
    have q: "length (via @ [req]) < 10" "?P q" using check_redirect_some [OF hop(4)] by auto
    have hd2: "hd ((via @ [req]) @ [q]) = hd (via @ [req])" by (cases via) auto
    have "sends ?P (10 - length (via @ [req])) w1 (snd (do_request env w1 (via @ [req]) q))"
      using "1.IH" [OF rt [symmetric] hop(1) hop(2) hop(3) hop(4)] q hd2 by simp
    from sends_trans [OF one this] have "sends ?P (10 - length via) w (snd (do_request env w1 (via @ [req]) q))"
      by (rule sends_mono) (use q in auto)
    then show ?thesis by (simp add: do_request.simps [of env w via req] rt hop)
  next
    case False
    then have "snd (do_request env w via req) = w1"
      by (auto simp: do_request.simps [of env w via req] rt split: sum.split option.split location.split)
    with stop show ?thesis by simp
  qed
qed

lemma finish_request_snd [simp]: "snd (finish_request rw) = snd rw"
  by (auto simp: finish_request_def split: prod.split sum.split)

text \<open>The host a request to this client's upstream goes to first.\<close>

definition upstream_host :: "client \<Rightarrow> gostring \<Rightarrow> gostring" where
  "upstream_host c path =
     (case url_parse (c_base c @ path) of Inl _ \<Rightarrow> [] | Inr u \<Rightarrow> remove_empty_port (u_host u))"

lemma new_request_host:
  "new_request meth (c_base c @ path) hs body = Inr req \<Longrightarrow> hq_host req = upstream_host c path"
  by (auto simp: new_request_def upstream_host_def split: sum.splits)

lemma fresh_request_sends:
  "sends (key_safe (hq_host req)) 10 w (snd (do_request env w [] req))"
  using do_request_sends [of "[]" req w env] by (simp add: key_safe_def)

lemma client_get_sends:
  "sends (key_safe (upstream_host c path)) 10 w (snd (client_get c env w path))"
  by (auto simp: client_get_def fresh_request_sends dest!: new_request_host split: sum.split)
    (metis fresh_request_sends)+

lemma post_json_sends:
  "sends (key_safe (upstream_host c path)) 10 w (snd (post_json c env w path body))"
  by (auto simp: post_json_def dest!: new_request_host split: sum.split)
    (metis fresh_request_sends)+

lemma get_stream_sends:
  "sends (key_safe (upstream_host c path)) 10 w (snd (get_stream_with_range c env w path rng))"
proof (cases "new_request ''GET'' (c_base c @ path)
    ([(api_key_header, c_key c)] @ (if rng \<noteq> [] then [(''Range'', rng)] else [])) []")
  case (Inr req)
  have "snd (get_stream_with_range c env w path rng) = snd (do_request env w [] req)"
    using Inr by (auto simp: get_stream_with_range_def split: prod.split sum.split)
  then show ?thesis using fresh_request_sends [of req w env] new_request_host [OF Inr] by simp
qed (simp add: get_stream_with_range_def)

section \<open>Concrete runs\<close>

definition answer :: "int \<Rightarrow> gostring \<Rightarrow> http_response" where
  "answer st body = \<lparr>hs_status = st, hs_headers = [], hs_location = No_Location, hs_body = body,
     hs_body_err = None\<rparr>"

definition answering :: "int \<Rightarrow> gostring \<Rightarrow> env" where
  "answering st body = calm_env\<lparr>e_net := (\<lambda>_ _. Inr (answer st body))\<rparr>"

definition sample_client :: client where
  "sample_client = \<lparr>c_base = ''http://bw.local'', c_key = ''key'', c_cover = ''medium''\<rparr>"

text \<open>An upstream that always answers the same, without a redirect.\<close>

lemma do_request_answering [simp]:
  "redirect_behavior (hq_method req) st = None \<Longrightarrow>
   do_request (answering st body) w via req = (Inr (answer st body), w\<lparr>w_http := w_http w @ [req]\<rparr>)"
  by (subst do_request.simps) (simp add: round_trip_def answering_def answer_def)

lemma answering_simps [simp]:
  "e_db (answering st body) = (\<lambda>_. Db_Ok)" "e_clock (answering st body) = (\<lambda>n. int n + 1)"
  "e_ctx_done (answering st body) = (\<lambda>_. False)" "e_collate (answering st body) = id"
  by (simp_all add: answering_def calm_env_def)

lemmas client_eval = client_get_def post_json_def new_request_def sample_client_def finish_request_def
  read_body_def answer_def redirect_behavior_def max_response_bytes_def remove_empty_port_def
  new_client_def trim_right_def

declare client_eval [go_eval]

section \<open>Properties\<close>

lemma client_silent:
  assumes "url_parse (c_base c @ path) = Inl e"
  shows "snd (client_get c env w path) = w" "snd (post_json c env w path body) = w"
    "snd (get_stream_with_range c env w path rng) = w"
  using assms by (simp_all add: client_get_def post_json_def get_stream_with_range_def new_request_def)

lemma upstream_host_base:
  assumes "url_parse (c_base c) = Inr u" and "u_host u \<noteq> []" and "u_scheme u \<noteq> []"
    and "has_prefix ''/'' path" and "url_parse (c_base c @ path) = Inr u'"
  shows "upstream_host c path = remove_empty_port (u_host u)"
  using url_parse_append_path [OF assms] assms(5) by (simp add: upstream_host_def)

lemma key_safe_sent:
  assumes "sends (key_safe host) 10 w w'"
  shows "\<exists>qs. w_http w' = w_http w @ qs \<and> length qs \<le> 10
    \<and> (\<forall>q \<in> set qs. header_get (hq_headers q) api_key_header \<noteq> [] \<longrightarrow> hq_host q = host)"
  using assms unfolding sends_def key_safe_def by (elim exE conjE, rule_tac x = qs in exI) auto

text \<open>
  C14. The API key stays with the configured upstream. Whatever upstream answers, redirects included,
  a call sends at most ten requests, and those that carry the key all go to the host of the
  base URL.
\<close>

theorem api_key_confined:
  assumes base: "url_parse (c_base c) = Inr u" "u_host u \<noteq> []" "u_scheme u \<noteq> []"
    and path: "has_prefix ''/'' path"
  shows "\<forall>w' \<in> {snd (client_get c env w path), snd (post_json c env w path body),
      snd (get_stream_with_range c env w path rng)}.
    \<exists>qs. w_http w' = w_http w @ qs \<and> length qs \<le> 10
      \<and> (\<forall>q \<in> set qs. header_get (hq_headers q) api_key_header \<noteq> [] \<longrightarrow>
            hq_host q = remove_empty_port (u_host u))"
proof (cases "url_parse (c_base c @ path)")
  case (Inl e)
  then show ?thesis by (simp add: client_silent)
next
  case (Inr u')
  note host = upstream_host_base [OF base path Inr]
  show ?thesis
    using key_safe_sent [OF client_get_sends [of c path w env]] key_safe_sent [OF post_json_sends [of c path w env body]]
      key_safe_sent [OF get_stream_sends [of c path w env rng]]
    unfolding host by blast
qed

text \<open>An upstream that redirects every request to another host: the key is sent once.\<close>

definition redirecting :: env where
  "redirecting = calm_env\<lparr>e_net := (\<lambda>n _. Inr \<lparr>hs_status = (if n = 0 then 302 else 200), hs_headers = [],
     hs_location = Location_At ''http://evil/'' ''evil'', hs_body = [], hs_body_err = None\<rparr>)\<rparr>"

lemma sample_base: "url_parse ''http://bw.local'' = Inr \<lparr>u_scheme = ''http'', u_host = ''bw.local''\<rparr>"
  by (simp add: go_eval)

theorem api_key_confined_witness:
  "\<exists>qs. w_http (snd (client_get sample_client redirecting empty_world ''/x'')) = w_http empty_world @ qs
      \<and> length qs \<le> 10
      \<and> (\<forall>q \<in> set qs. header_get (hq_headers q) api_key_header \<noteq> [] \<longrightarrow> hq_host q = ''bw.local'')"
proof -
  have host: "remove_empty_port ''bw.local'' = ''bw.local''" by (simp add: remove_empty_port_def)
  show ?thesis
    using api_key_confined [of sample_client "\<lparr>u_scheme = ''http'', u_host = ''bw.local''\<rparr>" "''/x''"]
    by (simp add: sample_client_def sample_base has_prefix_def host)
qed

text \<open>
  Cover sizes. Whatever the configuration says, the client asks for one of the three sizes upstream
  has; normalising is idempotent, so storing the normalised size changes nothing.
\<close>

lemma cover_size_canonical:
  "c_cover (set_default_cover_size sz c) \<in> {''thumbnail'', ''medium'', ''original''}
   \<and> normalize_cover_size (normalize_cover_size sz) = normalize_cover_size sz"
proof -
  have fixed: "normalize_cover_size ''thumbnail'' = ''thumbnail''" "normalize_cover_size ''medium'' = ''medium''"
    "normalize_cover_size ''original'' = ''original''"
    by (simp_all add: normalize_cover_size_def go_eval trim_space_def is_space_def default_cover_size_fallback_def)
  have "normalize_cover_size sz \<in> {''thumbnail'', ''medium'', ''original''}"
    by (simp add: normalize_cover_size_def Let_def default_cover_size_fallback_def)
  with fixed show ?thesis by (auto simp: set_default_cover_size_def)
qed

end
