(* ===== verification/Books.thy ===== *)
theory Books
  imports Client
begin

text \<open>
  internal/bookwarehouse/types.go and catalog.go: the books of the upstream catalogue, the query and
  the cursor of a page, the fan-out that removes duplicates, and the keys it compares by.
\<close>

section \<open>Types\<close>

record book =
  b_id :: gostring
  b_title :: gostring
  b_authors :: "gostring list"
  b_isbn :: gostring
  b_publisher :: gostring
  b_series :: gostring
  b_series_index :: f64
  b_year :: int
  b_language :: gostring
  b_cover_url :: gostring
  b_has_cover :: bool
  b_rating :: f64
  b_formats :: "gostring list"

record bfile =
  bf_format :: gostring
  bf_size :: int
  bf_url :: gostring

record book_detail =
  bd_book :: book
  bd_description :: gostring
  bd_genres :: "gostring list"
  bd_tags :: "gostring list"
  bd_files :: "bfile list"

record 'a paged =
  pg_items :: "'a list"
  pg_next :: gostring
  pg_total :: int

definition zero_book :: book where
  "zero_book = \<lparr>b_id = [], b_title = [], b_authors = [], b_isbn = [], b_publisher = [], b_series = [],
     b_series_index = f64_zero, b_year = 0, b_language = [], b_cover_url = [], b_has_cover = False,
     b_rating = f64_zero, b_formats = []\<rparr>"

definition empty_page :: "'a paged" where
  "empty_page = \<lparr>pg_items = [], pg_next = [], pg_total = 0\<rparr>"

record list_params =
  lp_cursor :: gostring
  lp_limit :: int
  lp_sort :: gostring
  lp_order :: gostring
  lp_query :: gostring
  lp_author :: gostring
  lp_series :: gostring
  lp_genre :: gostring
  lp_tag :: gostring

definition zero_params :: list_params where
  "zero_params = \<lparr>lp_cursor = [], lp_limit = 0, lp_sort = [], lp_order = [], lp_query = [],
     lp_author = [], lp_series = [], lp_genre = [], lp_tag = []\<rparr>"

section \<open>Decoding\<close>

text \<open>The inline structs of \<open>ListBooks\<close> and \<open>GetBook\<close>; an author, genre or tag is its name.\<close>

record upstream_book =
  ub_id :: gostring
  ub_title :: gostring
  ub_author :: gostring
  ub_authors :: "gostring list"
  ub_isbn13 :: gostring
  ub_publisher :: gostring
  ub_published_at :: gostring
  ub_language :: gostring
  ub_has_cover :: bool
  ub_cover_url :: gostring
  ub_file_format :: gostring
  ub_series_name :: gostring
  ub_series_index :: f64
  ub_file_size :: int
  ub_description :: gostring
  ub_genres :: "gostring list"
  ub_tags :: "gostring list"

definition zero_upstream_book :: upstream_book where
  "zero_upstream_book = \<lparr>ub_id = [], ub_title = [], ub_author = [], ub_authors = [], ub_isbn13 = [],
     ub_publisher = [], ub_published_at = [], ub_language = [], ub_has_cover = False,
     ub_cover_url = [], ub_file_format = [], ub_series_name = [], ub_series_index = f64_zero,
     ub_file_size = 0, ub_description = [], ub_genres = [], ub_tags = []\<rparr>"

definition dec_named :: "gostring decoder" where
  "dec_named = dec_struct [field ''name'' dec_str id (\<lambda>v _. v)]"

definition common_book_fields :: "upstream_book fields" where
  "common_book_fields =
     [field ''id'' dec_str ub_id (\<lambda>v b. b\<lparr>ub_id := v\<rparr>),
      field ''title'' dec_str ub_title (\<lambda>v b. b\<lparr>ub_title := v\<rparr>),
      field ''author'' dec_str ub_author (\<lambda>v b. b\<lparr>ub_author := v\<rparr>),
      field ''authors'' (dec_list dec_named []) ub_authors (\<lambda>v b. b\<lparr>ub_authors := v\<rparr>),
      field ''isbn13'' dec_str ub_isbn13 (\<lambda>v b. b\<lparr>ub_isbn13 := v\<rparr>),
      field ''publisher'' dec_str ub_publisher (\<lambda>v b. b\<lparr>ub_publisher := v\<rparr>),
      field ''published_date'' dec_str ub_published_at (\<lambda>v b. b\<lparr>ub_published_at := v\<rparr>),
      field ''language'' dec_str ub_language (\<lambda>v b. b\<lparr>ub_language := v\<rparr>),
      field ''has_cover'' dec_bool ub_has_cover (\<lambda>v b. b\<lparr>ub_has_cover := v\<rparr>),
      field ''file_format'' dec_str ub_file_format (\<lambda>v b. b\<lparr>ub_file_format := v\<rparr>),
      field ''series'' dec_str ub_series_name (\<lambda>v b. b\<lparr>ub_series_name := v\<rparr>),
      field ''series_index'' dec_float ub_series_index (\<lambda>v b. b\<lparr>ub_series_index := v\<rparr>)]"

definition list_book_fields :: "upstream_book fields" where
  "list_book_fields = common_book_fields @
     [field ''cover_url'' dec_str ub_cover_url (\<lambda>v b. b\<lparr>ub_cover_url := v\<rparr>)]"

definition detail_book_fields :: "upstream_book fields" where
  "detail_book_fields = common_book_fields @
     [field ''file_size'' dec_int ub_file_size (\<lambda>v b. b\<lparr>ub_file_size := v\<rparr>),
      field ''description'' dec_str ub_description (\<lambda>v b. b\<lparr>ub_description := v\<rparr>),
      field ''genres'' (dec_list dec_named []) ub_genres (\<lambda>v b. b\<lparr>ub_genres := v\<rparr>),
      field ''tags'' (dec_list dec_named []) ub_tags (\<lambda>v b. b\<lparr>ub_tags := v\<rparr>)]"

record pagination =
  pn_page :: int
  pn_limit :: int
  pn_total_items :: int
  pn_total_pages :: int

definition zero_pagination :: pagination where
  "zero_pagination = \<lparr>pn_page = 0, pn_limit = 0, pn_total_items = 0, pn_total_pages = 0\<rparr>"

definition pagination_fields :: "pagination fields" where
  "pagination_fields =
     [field ''page'' dec_int pn_page (\<lambda>v p. p\<lparr>pn_page := v\<rparr>),
      field ''limit'' dec_int pn_limit (\<lambda>v p. p\<lparr>pn_limit := v\<rparr>),
      field ''total_items'' dec_int pn_total_items (\<lambda>v p. p\<lparr>pn_total_items := v\<rparr>),
      field ''total_pages'' dec_int pn_total_pages (\<lambda>v p. p\<lparr>pn_total_pages := v\<rparr>)]"

record upstream_list =
  ul_books :: "upstream_book list"
  ul_pagination :: pagination

definition decode_books :: "gostring \<Rightarrow> upstream_list res" where
  "decode_books = unmarshal (dec_struct
     [field ''books'' (dec_list (dec_struct list_book_fields) zero_upstream_book) ul_books
        (\<lambda>v u. u\<lparr>ul_books := v\<rparr>),
      field ''pagination'' (dec_struct pagination_fields) ul_pagination (\<lambda>v u. u\<lparr>ul_pagination := v\<rparr>)])
     \<lparr>ul_books = [], ul_pagination = zero_pagination\<rparr>"

definition decode_book :: "gostring \<Rightarrow> upstream_book res" where
  "decode_book = unmarshal (dec_struct detail_book_fields) zero_upstream_book"

section \<open>From upstream's book to ours\<close>

definition cover_path :: "client \<Rightarrow> gostring \<Rightarrow> gostring" where
  "cover_path c bid = ''/cover/'' @ path_escape bid @ ''/'' @ c_cover c"

definition published_year :: "gostring \<Rightarrow> int" where
  "published_year s =
     (if 4 \<le> length s then (case atoi (take 4 s) of Some y \<Rightarrow> y | None \<Rightarrow> 0) else 0)"

definition to_book :: "client \<Rightarrow> upstream_book \<Rightarrow> book" where
  "to_book c ub = zero_book\<lparr>
     b_id := ub_id ub, b_title := ub_title ub, b_isbn := ub_isbn13 ub, b_publisher := ub_publisher ub,
     b_series := ub_series_name ub, b_series_index := ub_series_index ub, b_language := ub_language ub,
     b_has_cover := ub_has_cover ub,
     b_cover_url := (if ub_has_cover ub then cover_path c (ub_id ub) else []),
     b_authors := (if ub_authors ub \<noteq> [] then ub_authors ub
                   else if ub_author ub \<noteq> [] then [ub_author ub] else []),
     b_formats := (if ub_file_format ub \<noteq> [] then [ub_file_format ub] else []),
     b_year := published_year (ub_published_at ub)\<rparr>"

definition to_book_detail :: "client \<Rightarrow> upstream_book \<Rightarrow> book_detail" where
  "to_book_detail c ub = \<lparr>
     bd_book = to_book c ub, bd_description = ub_description ub,
     bd_genres = ub_genres ub, bd_tags = ub_tags ub,
     bd_files = (if ub_file_format ub \<noteq> []
                 then [\<lparr>bf_format = ub_file_format ub, bf_size = ub_file_size ub, bf_url = []\<rparr>] else [])\<rparr>"

section \<open>One page\<close>

definition list_query :: "list_params \<Rightarrow> url_values" where
  "list_query p =
     set_nonempty ''q'' (lp_query p)
     (set_nonempty ''tag'' (lp_tag p)
     (set_nonempty ''genre'' (lp_genre p)
     (set_nonempty ''series'' (lp_series p)
     (set_nonempty ''author'' (lp_author p)
     (set_nonempty ''order'' (lp_order p)
     (set_nonempty ''sort'' (lp_sort p)
     ((if 0 < lp_limit p then values_set ''limit'' (itoa (lp_limit p)) else (\<lambda>q. q))
     (set_nonempty ''page'' (lp_cursor p) []))))))))"

definition list_path :: "list_params \<Rightarrow> gostring" where
  "list_path p =
     (if lp_query p \<noteq> [] then ''/api/v1/books/search'' else ''/api/v1/books'')
     @ ''?'' @ values_encode (list_query p)"

text \<open>The page a cursor asks for, and the cursor of the page after it.\<close>

definition requested_page :: "gostring \<Rightarrow> int" where
  "requested_page cursor =
     (if cursor \<noteq> [] then (case atoi cursor of Some n \<Rightarrow> if 0 < n then n else 1 | None \<Rightarrow> 1) else 1)"

definition next_cursor :: "list_params \<Rightarrow> int \<Rightarrow> nat \<Rightarrow> gostring" where
  "next_cursor p total_pages n =
     (let requested = requested_page (lp_cursor p)
      in if 0 < total_pages
         then (if requested < total_pages then itoa (wrap64 (requested + 1)) else [])
         else if 0 < lp_limit p \<and> lp_limit p \<le> int n then itoa (wrap64 (requested + 1))
         else [])"

definition to_page :: "client \<Rightarrow> list_params \<Rightarrow> upstream_list \<Rightarrow> book paged" where
  "to_page c p u = \<lparr>
     pg_items = map (to_book c) (ul_books u),
     pg_next = next_cursor p (pn_total_pages (ul_pagination u)) (length (ul_books u)),
     pg_total = pn_total_items (ul_pagination u)\<rparr>"

definition list_books :: "client \<Rightarrow> env \<Rightarrow> world \<Rightarrow> list_params \<Rightarrow> book paged res \<times> world" where
  "list_books c env w p =
     (case client_get c env w (list_path p) of
        (Inl e, w1) \<Rightarrow> (Inl e, w1)
      | (Inr body, w1) \<Rightarrow>
          (case decode_books body of
             Inl e \<Rightarrow> (Inl (''decode books: '' @ e), w1)
           | Inr u \<Rightarrow> (Inr (to_page c p u), w1)))"

definition get_book :: "client \<Rightarrow> env \<Rightarrow> world \<Rightarrow> gostring \<Rightarrow> book_detail res \<times> world" where
  "get_book c env w bid =
     (case client_get c env w (''/api/v1/books/'' @ path_escape bid) of
        (Inl e, w1) \<Rightarrow> (Inl e, w1)
      | (Inr body, w1) \<Rightarrow>
          (case decode_book body of
             Inl e \<Rightarrow> (Inl (''decode book: '' @ e), w1)
           | Inr ub \<Rightarrow> (Inr (to_book_detail c ub), w1)))"

definition file_url :: "client \<Rightarrow> gostring \<Rightarrow> gostring \<Rightarrow> gostring" where
  "file_url c bid fmt = c_base c @ ''/api/v1/books/'' @ path_escape bid @ ''/files/'' @ path_escape fmt"

definition cover_url :: "client \<Rightarrow> gostring \<Rightarrow> gostring \<Rightarrow> gostring" where
  "cover_url c bid sz = c_base c @ ''/api/v1/books/'' @ path_escape bid @ ''/cover/'' @ path_escape sz"

section \<open>Keys\<close>

fun normalize_runes :: "bool \<Rightarrow> (nat \<times> gostring) list \<Rightarrow> gostring" where
  "normalize_runes prev_space [] = []"
| "normalize_runes prev_space ((r, bs) # rs) =
     (if 65 \<le> r \<and> r \<le> 90 then char_of (r + 32) # normalize_runes False rs
      else if 97 \<le> r \<and> r \<le> 122 \<or> 48 \<le> r \<and> r \<le> 57 then char_of r # normalize_runes False rs
      else if \<not> prev_space then CHR '' '' # normalize_runes True rs
      else normalize_runes prev_space rs)"

definition normalize_key :: "gostring \<Rightarrow> gostring" where
  "normalize_key s =
     (let out = normalize_runes True (runes s)
      in if out \<noteq> [] \<and> last out = CHR '' '' then butlast out else out)"

definition dedup_key :: "book \<Rightarrow> gostring" where
  "dedup_key b =
     (let t = normalize_key (b_title b)
      in if t = [] then ''id:'' @ b_id b
         else let a = (case b_authors b of [] \<Rightarrow> [] | x # _ \<Rightarrow> normalize_key x)
              in ''ta:'' @ t @ ''|'' @ a @ ''|'' @ normalize_key (b_series b) @ ''|''
                 @ format_float (b_series_index b))"

section \<open>The fan-out\<close>

fun dedup_items :: "gostring list \<Rightarrow> book list \<Rightarrow> book list \<Rightarrow> gostring list \<times> book list" where
  "dedup_items seen items [] = (seen, items)"
| "dedup_items seen items (b # bs) =
     (if dedup_key b \<in> set seen then dedup_items seen items bs
      else dedup_items (dedup_key b # seen) (items @ [b]) bs)"

text \<open>
  The loop of \<open>ListBooksDeduped\<close> over a source of pages: \<open>n\<close> iterations are left. The Go function
  returns what it has collected also when a page fails.
\<close>

fun dedup_loop ::
  "(world \<Rightarrow> gostring \<Rightarrow> book paged res \<times> world) \<Rightarrow> nat \<Rightarrow> int \<Rightarrow> gostring \<Rightarrow> gostring list
   \<Rightarrow> book paged \<Rightarrow> world \<Rightarrow> gostring option \<times> book paged \<times> world" where
  "dedup_loop fetch 0 target cursor seen out w = (None, out, w)"
| "dedup_loop fetch (Suc n) target cursor seen out w =
     (case fetch w cursor of
        (Inl e, w1) \<Rightarrow> (Some e, out, w1)
      | (Inr page, w1) \<Rightarrow>
          (let (seen2, items) = dedup_items seen (pg_items out) (pg_items page);
               out2 = \<lparr>pg_items = items, pg_next = pg_next page, pg_total = pg_total page\<rparr>
           in if target \<le> int (length items) \<or> pg_next page = [] then (None, out2, w1)
              else dedup_loop fetch n target (pg_next page) seen2 out2 w1))"

definition list_books_deduped ::
  "client \<Rightarrow> env \<Rightarrow> world \<Rightarrow> list_params \<Rightarrow> int \<Rightarrow> gostring option \<times> book paged \<times> world" where
  "list_books_deduped c env w p max_fanout =
     (let fanout = (if max_fanout \<le> 0 then 10 else max_fanout);
          target = (if lp_limit p \<le> 0 then 50 else lp_limit p)
      in dedup_loop (\<lambda>v cursor. list_books c env v (p\<lparr>lp_cursor := cursor\<rparr>))
           (nat fanout) target (lp_cursor p) [] empty_page w)"

section \<open>Laws of the keys\<close>

text \<open>The same normalisation byte by byte: a byte above ASCII separates like any other symbol.\<close>

definition key_char :: "char \<Rightarrow> bool" where
  "key_char c \<longleftrightarrow> 97 \<le> byte_of c \<and> byte_of c \<le> 122 \<or> 48 \<le> byte_of c \<and> byte_of c \<le> 57"

definition upper_char :: "char \<Rightarrow> bool" where
  "upper_char c \<longleftrightarrow> 65 \<le> byte_of c \<and> byte_of c \<le> 90"

fun normalize_bytes :: "bool \<Rightarrow> gostring \<Rightarrow> gostring" where
  "normalize_bytes prev_space [] = []"
| "normalize_bytes prev_space (c # cs) =
     (if upper_char c then char_of (byte_of c + 32) # normalize_bytes False cs
      else if key_char c then c # normalize_bytes False cs
      else if prev_space then normalize_bytes True cs
      else CHR '' '' # normalize_bytes True cs)"

lemma key_char_lower: "upper_char c \<Longrightarrow> key_char (char_of (byte_of c + 32))"
  by (simp add: upper_char_def key_char_def)

lemma key_char_upper: "key_char c \<Longrightarrow> \<not> upper_char c"
  by (auto simp: key_char_def upper_char_def)

lemma normalize_bytes_separators:
  "\<forall>x \<in> set u. 0x80 \<le> byte_of x \<Longrightarrow> normalize_bytes True (u @ s) = normalize_bytes True s"
  by (induction u) (auto simp: upper_char_def key_char_def)

lemma normalize_runes_bytes: "normalize_runes ps (runes s) = normalize_bytes ps s"
proof (induction s arbitrary: ps rule: length_induct)
  case (1 s)
  show ?case
  proof (cases s)
    case (Cons c cs)
    have IH: "normalize_runes q (runes t) = normalize_bytes q t" if "length t < length s" for t q
      using 1 that by blast
    show ?thesis
    proof (cases "byte_of c < 0x80")
      case True
      then show ?thesis using IH Cons by (simp add: upper_char_def key_char_def)
    next
      case False
      then have ge: "0x80 \<le> byte_of c" by simp
      obtain r w where w: "runes (c # cs) = (r, c # take w cs) # runes (drop w cs)" "0x80 \<le> r"
        "\<forall>x \<in> set (take w cs). 0x80 \<le> byte_of x"
        using ge by (rule runes_nonascii)
      have "normalize_bytes True cs = normalize_bytes True (take w cs @ drop w cs)" by simp
      also have "\<dots> = normalize_bytes True (drop w cs)"
        using w(3) by (rule normalize_bytes_separators)
      finally have skip: "normalize_bytes True cs = normalize_bytes True (drop w cs)" .
      have "normalize_runes True (runes (drop w cs)) = normalize_bytes True (drop w cs)"
        by (rule IH) (simp add: Cons)
      then show ?thesis
        using w ge skip by (simp add: Cons upper_char_def key_char_def)
    qed
  qed simp
qed

lemma normalize_key_bytes:
  "normalize_key s = (let out = normalize_bytes True s
     in if out \<noteq> [] \<and> last out = CHR '' '' then butlast out else out)"
  by (simp add: normalize_key_def normalize_runes_bytes)

lemma normalize_bytes_chars: "c \<in> set (normalize_bytes ps s) \<Longrightarrow> key_char c \<or> c = CHR '' ''"
  by (induction s arbitrary: ps) (auto simp: key_char_lower split: if_splits)

lemma normalize_key_chars: "c \<in> set (normalize_key s) \<Longrightarrow> key_char c \<or> c = CHR '' ''"
  by (auto simp: normalize_key_bytes Let_def dest: normalize_bytes_chars in_set_butlastD split: if_splits)

lemma space_not_key [simp]: "\<not> key_char (CHR '' '')" "\<not> upper_char (CHR '' '')" "\<not> key_char (CHR ''|'')"
  by (simp_all add: key_char_def upper_char_def)

lemma normalize_bytes_again: "normalize_bytes ps (normalize_bytes ps s) = normalize_bytes ps s"
  by (induction s arbitrary: ps) (auto simp: key_char_lower key_char_upper)

lemma normalize_bytes_length: "length (normalize_bytes ps s) \<le> length s"
  by (induction s arbitrary: ps) (auto intro: le_SucI)

lemma normalize_bytes_snoc:
  assumes "xs \<noteq> []"
  shows "normalize_bytes ps (xs @ [CHR '' '']) =
     normalize_bytes ps xs @ (if key_char (last xs) \<or> upper_char (last xs) then [CHR '' ''] else [])"
  using assms by (induction xs arbitrary: ps) (auto simp: neq_Nil_conv)

lemma normalize_key_fixed:
  "normalize_bytes True (normalize_key s) = normalize_key s
   \<and> (normalize_key s = [] \<or> last (normalize_key s) \<noteq> CHR '' '')"
proof (cases "normalize_bytes True s \<noteq> [] \<and> last (normalize_bytes True s) = CHR '' ''")
  case True
  let ?xs = "butlast (normalize_bytes True s)"
  have out: "normalize_bytes True s = ?xs @ [CHR '' '']"
    using True by (metis append_butlast_last_id)
  have key: "normalize_key s = ?xs" using True by (simp add: normalize_key_bytes Let_def)
  have fix1: "normalize_bytes True (?xs @ [CHR '' '']) = ?xs @ [CHR '' '']"
    using normalize_bytes_again [of True s] out by simp
  show ?thesis
  proof (cases "?xs = []")
    case False
    have "normalize_bytes True ?xs = ?xs \<and> (key_char (last ?xs) \<or> upper_char (last ?xs))"
      using fix1 normalize_bytes_snoc [OF False, of True] normalize_bytes_length [of True ?xs]
      by (auto split: if_splits)
    then show ?thesis using key by (metis space_not_key(1) space_not_key(2))
  qed (simp add: key)
qed (auto simp: normalize_key_bytes Let_def normalize_bytes_again)

lemma normalize_key_no_bar: "CHR ''|'' \<notin> set (normalize_key s)"
  using normalize_key_chars by fastforce

lemma split_at_bar:
  "c \<notin> set a \<Longrightarrow> c \<notin> set b \<Longrightarrow> a @ c # x = b @ c # y \<longleftrightarrow> a = b \<and> x = y"
proof (induction a arbitrary: b)
  case Nil
  then show ?case by (cases b) auto
next
  case (Cons d a)
  then show ?case by (cases b) auto
qed

section \<open>Laws of the fan-out\<close>

text \<open>The reference: the first book of every key.\<close>

fun uniq_by :: "('a \<Rightarrow> 'k) \<Rightarrow> 'a list \<Rightarrow> 'a list" where
  "uniq_by f [] = []"
| "uniq_by f (x # xs) = x # filter (\<lambda>y. f y \<noteq> f x) (uniq_by f xs)"

lemma uniq_by_filter: "filter (\<lambda>y. f y \<notin> K) (uniq_by f xs) = uniq_by f (filter (\<lambda>y. f y \<notin> K) xs)"
proof (induction xs)
  case (Cons x xs)
  have "filter (\<lambda>y. f y \<noteq> f x \<and> f y \<notin> K) (uniq_by f xs) = filter (\<lambda>y. f y \<notin> K) (uniq_by f xs)" if "f x \<in> K"
    using that by (intro filter_cong) auto
  then show ?case
    by (cases "f x \<in> K") (simp_all add: Cons.IH [symmetric] conj_commute)
qed simp

lemma uniq_by_keys: "f ` set (uniq_by f xs) = f ` set xs"
proof (induction xs)
  case (Cons x xs)
  have "f ` set (filter (\<lambda>y. f y \<noteq> f x) (uniq_by f xs)) = f ` set (uniq_by f xs) - {f x}" by auto
  with Cons show ?case by auto
qed simp

lemma uniq_by_distinct: "distinct (map f (uniq_by f xs))"
  by (induction xs) (auto simp: distinct_map_filter)

lemma dedup_items_spec:
  "snd (dedup_items seen items bs) = items @ uniq_by dedup_key (filter (\<lambda>b. dedup_key b \<notin> set seen) bs)
   \<and> set (fst (dedup_items seen items bs)) = set seen \<union> dedup_key ` set bs"
proof (induction bs arbitrary: seen items)
  case (Cons b bs)
  show ?case
  proof (cases "dedup_key b \<in> set seen")
    case False
    have "filter (\<lambda>y. dedup_key y \<noteq> dedup_key b) (uniq_by dedup_key (filter (\<lambda>y. dedup_key y \<notin> set seen) bs))
        = uniq_by dedup_key (filter (\<lambda>y. dedup_key y \<notin> set (dedup_key b # seen)) bs)"
      using uniq_by_filter [of dedup_key "{dedup_key b}" "filter (\<lambda>y. dedup_key y \<notin> set seen) bs"]
      by (simp add: conj_commute)
    then show ?thesis using False Cons.IH [of "dedup_key b # seen" "items @ [b]"] by auto
  qed (use Cons.IH [of seen items] in auto)
qed simp

lemma dedup_items_append:
  "dedup_items seen items (xs @ ys) =
     (case dedup_items seen items xs of (s, i) \<Rightarrow> dedup_items s i ys)"
  by (induction xs arbitrary: seen items) auto

section \<open>Interface: a source of pages\<close>

text \<open>The pages a source delivers from a cursor on, each at the cursor its predecessor names.\<close>

inductive page_chain ::
  "(world \<Rightarrow> gostring \<Rightarrow> book paged res \<times> world) \<Rightarrow> gostring \<Rightarrow> book paged list \<Rightarrow> bool"
  for fetch where
  chain_nil: "page_chain fetch c []"
| chain_cons: "fst (fetch w c) = Inr pg \<Longrightarrow> page_chain fetch (pg_next pg) pgs \<Longrightarrow> page_chain fetch c (pg # pgs)"

inductive_cases page_chain_consE: "page_chain fetch c (pg # pgs)"

text \<open>What the loop relies on: fetching a page costs a bounded number of requests and nothing else.\<close>

locale page_source =
  fixes fetch :: "world \<Rightarrow> gostring \<Rightarrow> book paged res \<times> world"
    and cost :: nat
  assumes fetch_cost: "sends (\<lambda>_. True) cost w (snd (fetch w cursor))"
begin

lemma loop_cost: "sends (\<lambda>_. True) (cost * n) w (snd (snd (dedup_loop fetch n target cursor seen out w)))"
proof (induction n arbitrary: cursor seen out w)
  case (Suc n)
  obtain r w1 where f: "fetch w cursor = (r, w1)" by (metis surj_pair)
  have one: "sends (\<lambda>_. True) cost w w1" using fetch_cost [of w cursor] f by simp
  then have few: "sends (\<lambda>_. True) (cost * Suc n) w w1" by (rule sends_mono) auto
  have more: "sends (\<lambda>_. True) (cost * Suc n) w (snd (snd (dedup_loop fetch n target c s o2 w1)))" for c s o2
    using sends_trans [OF one Suc.IH [where w = w1 and cursor = c and seen = s and out = o2]] by simp
  show ?case
    using few more by (cases r) (auto simp: f Let_def case_prod_beta)
qed simp

text \<open>The loop delivers the first book of every key of the pages it has read.\<close>

lemma loop_pages:
  assumes "dedup_loop fetch n target cursor seen out w = (err, out', w')"
    and "dedup_items [] [] done = (seen, pg_items out)"
  shows "\<exists>pages. page_chain fetch cursor pages \<and> length pages \<le> n
    \<and> pg_items out' = snd (dedup_items [] [] (done @ concat (map pg_items pages)))
    \<and> pg_next out' = pg_next (last (out # pages)) \<and> pg_total out' = pg_total (last (out # pages))
    \<and> (err = None \<longrightarrow> length pages = n \<or> target \<le> int (length (pg_items out')) \<or> pg_next out' = [])"
  using assms
proof (induction n arbitrary: cursor seen out w "done")
  case 0
  then show ?case by (intro exI [of _ "[]"]) (auto intro: chain_nil)
next
  case (Suc n)
  obtain r w1 where f: "fetch w cursor = (r, w1)" by (metis surj_pair)
  show ?case
  proof (cases r)
    case (Inl e)
    with Suc.prems f show ?thesis by (intro exI [of _ "[]"]) (auto intro: chain_nil)
  next
    case (Inr page)
    obtain seen2 items where d: "dedup_items seen (pg_items out) (pg_items page) = (seen2, items)"
      by (metis surj_pair)
    let ?out2 = "\<lparr>pg_items = items, pg_next = pg_next page, pg_total = pg_total page\<rparr>"
    have done2: "dedup_items [] [] (done @ pg_items page) = (seen2, pg_items ?out2)"
      using Suc.prems(2) d by (simp add: dedup_items_append)
    have hd: "fst (fetch w cursor) = Inr page" using f Inr by simp
    show ?thesis
    proof (cases "target \<le> int (length items) \<or> pg_next page = []")
      case True
      then have "out' = ?out2" "err = None" using Suc.prems(1) f Inr d by auto
      then show ?thesis
        using hd True done2 by (intro exI [of _ "[page]"]) (auto intro: page_chain.intros)
    next
      case False
      then have rec: "dedup_loop fetch n target (pg_next page) seen2 ?out2 w1 = (err, out', w')"
        using Suc.prems(1) f Inr d by simp
      obtain pages where pages: "page_chain fetch (pg_next page) pages" "length pages \<le> n"
        "pg_items out' = snd (dedup_items [] [] ((done @ pg_items page) @ concat (map pg_items pages)))"
        "pg_next out' = pg_next (last (?out2 # pages))" "pg_total out' = pg_total (last (?out2 # pages))"
        "err = None \<longrightarrow> length pages = n \<or> target \<le> int (length (pg_items out')) \<or> pg_next out' = []"
        using Suc.IH [OF rec done2] by blast
      show ?thesis
        using pages hd by (intro exI [of _ "page # pages"]) (auto intro: page_chain.intros)
    qed
  qed
qed

end

lemma list_books_snd: "snd (list_books c env w p) = snd (client_get c env w (list_path p))"
  by (simp add: list_books_def case_prod_beta split: sum.split)

lemma list_books_sends: "sends (key_safe (upstream_host c (list_path p))) 10 w (snd (list_books c env w p))"
  by (simp add: list_books_snd client_get_sends)

lemma get_book_sends:
  "sends (key_safe (upstream_host c (''/api/v1/books/'' @ path_escape bid))) 10 w (snd (get_book c env w bid))"
  by (simp add: get_book_def case_prod_beta client_get_sends split: sum.split)

interpretation book_pages: page_source "\<lambda>v cursor. list_books c env v (p\<lparr>lp_cursor := cursor\<rparr>)" 10
  for c env p
  by unfold_locales (rule sends_mono [OF list_books_sends], auto)

lemma in_int64_requested: "in_int64 (requested_page cursor)"
  by (auto simp: requested_page_def int64_defs split: option.split dest: atoi_in_range [unfolded int64_defs])

lemma requested_page_itoa: "0 < n \<Longrightarrow> in_int64 n \<Longrightarrow> requested_page (itoa n) = n"
  by (simp add: requested_page_def atoi_itoa)

lemma requested_page_pos: "0 < requested_page cursor"
  by (auto simp: requested_page_def split: option.split)

lemma next_cursor_advances:
  assumes "next_cursor p tp n \<noteq> []" and "requested_page (lp_cursor p) < int64_max"
  shows "requested_page (next_cursor p tp n) = requested_page (lp_cursor p) + 1"
proof -
  let ?r = "requested_page (lp_cursor p)"
  have r: "in_int64 (?r + 1)" "0 < ?r + 1"
    using in_int64_requested [of "lp_cursor p"] requested_page_pos [of "lp_cursor p"] assms(2)
    by (simp_all add: int64_defs)
  have "next_cursor p tp n = itoa (?r + 1)"
    using assms(1) wrap64_id [OF r(1)] by (auto simp: next_cursor_def Let_def split: if_splits)
  then show ?thesis using requested_page_itoa [OF r(2,1)] by simp
qed

section \<open>Properties\<close>

text \<open>
  C34. Two books fall together exactly when their normalised titles agree and, if that title is not
  empty, also the normalised first author, the normalised series and the printed series index, and
  otherwise the upstream id. In particular the ISBN plays no part, and no field can be mistaken
  for a part of another.
\<close>

definition first_author :: "book \<Rightarrow> gostring" where
  "first_author b = (case b_authors b of [] \<Rightarrow> [] | x # _ \<Rightarrow> normalize_key x)"

theorem dedup_key_iff:
  "dedup_key a = dedup_key b \<longleftrightarrow>
     normalize_key (b_title a) = normalize_key (b_title b)
     \<and> (if normalize_key (b_title a) = [] then b_id a = b_id b
        else first_author a = first_author b \<and> normalize_key (b_series a) = normalize_key (b_series b)
          \<and> format_float (b_series_index a) = format_float (b_series_index b))"
proof -
  have bars: "CHR ''|'' \<notin> set (first_author x)" for x
    using normalize_key_no_bar by (simp add: first_author_def split: list.split)
  have key: "dedup_key x = (if normalize_key (b_title x) = [] then ''id:'' @ b_id x
      else ''ta:'' @ normalize_key (b_title x) @ CHR ''|'' # first_author x @ CHR ''|'' #
        normalize_key (b_series x) @ CHR ''|'' # format_float (b_series_index x))" for x
    by (simp add: dedup_key_def first_author_def Let_def)
  show ?thesis
    by (auto simp: key split_at_bar normalize_key_no_bar bars)
qed

theorem dedup_key_iff_witness:
  "dedup_key (zero_book\<lparr>b_title := ''Dune'', b_isbn := ''1''\<rparr>) = dedup_key (zero_book\<lparr>b_title := ''DUNE!'', b_isbn := ''2''\<rparr>)"
  using dedup_key_iff [of "zero_book\<lparr>b_title := ''Dune'', b_isbn := ''1''\<rparr>" "zero_book\<lparr>b_title := ''DUNE!'', b_isbn := ''2''\<rparr>"]
  by (simp add: zero_book_def first_author_def normalize_key_def Let_def char_of_def bit_Suc_0_iff)

text \<open>
  A normalised key is canonical: normalising it again changes nothing, it holds only lower-case
  letters, digits and single spaces, and neither begins nor ends with a space.
\<close>

lemma normalize_key_canonical:
  "normalize_key (normalize_key s) = normalize_key s
   \<and> list_all (\<lambda>c. key_char c \<or> c = CHR '' '') (normalize_key s)
   \<and> (normalize_key s = [] \<or> (hd (normalize_key s) \<noteq> CHR '' '' \<and> last (normalize_key s) \<noteq> CHR '' ''))
   \<and> normalize_key s \<noteq> u @ '' '' @ '' '' @ v"
proof -
  let ?k = "normalize_key s"
  have fixd: "normalize_bytes True ?k = ?k" and last: "?k = [] \<or> last ?k \<noteq> CHR '' ''"
    using normalize_key_fixed by blast+
  have "hd ?k \<noteq> CHR '' ''" if ne: "?k \<noteq> []"
  proof
    assume "hd ?k = CHR '' ''"
    then obtain t where t: "?k = CHR '' '' # t" using ne by (cases ?k) auto
    then have "length (normalize_bytes True t) = length ?k" using fixd by simp
    with t show False using normalize_bytes_length [of True t] by simp
  qed
  moreover have "?k \<noteq> u @ '' '' @ '' '' @ v"
  proof
    assume k: "?k = u @ '' '' @ '' '' @ v"
    have "length (normalize_bytes ps (u @ CHR '' '' # CHR '' '' # v)) < length u + 2 + length v" for ps
      by (induction u arbitrary: ps) (auto intro: less_SucI le_imp_less_Suc le_SucI normalize_bytes_length)
    from this [of True] fixd k show False by simp
  qed
  moreover have "normalize_key ?k = ?k" using fixd last by (auto simp: normalize_key_bytes Let_def)
  ultimately show ?thesis using last normalize_key_chars by (auto simp: list_all_iff)
qed

theorem normalize_key_canonical_witness:
  "normalize_key ''--Dune:  Part 2!'' = ''dune part 2'' \<and> normalize_key ''dune part 2'' = ''dune part 2''"
  using normalize_key_canonical [of "''--Dune:  Part 2!''" "[]" "[]"]
  by (simp add: normalize_key_def Let_def char_of_def bit_Suc_0_iff)

text \<open>
  Bytes above ASCII are invisible to a key: a prefix of them changes nothing, so books whose
  titles differ only in a script other than Latin have the same normalised title.
\<close>

lemma non_ascii_titles_collapse:
  assumes "\<forall>x \<in> set u. 0x80 \<le> byte_of x" and "\<forall>x \<in> set v. 0x80 \<le> byte_of x"
  shows "normalize_key (u @ s) = normalize_key (v @ s)"
  using normalize_bytes_separators assms by (simp add: normalize_key_bytes)

lemma non_ascii_titles_collapse_example:
  "normalize_key ([CHR 0xD0, CHR 0x9C] @ '' 2033'') = normalize_key ([CHR 0xD0, CHR 0x94] @ '' 2033'')"
  using non_ascii_titles_collapse [of "[CHR 0xD0, CHR 0x9C]" "[CHR 0xD0, CHR 0x94]" "'' 2033''"] by simp


text \<open>A page of two editions of one book, the first of two pages.\<close>

definition two_books_body :: gostring where
  "two_books_body = json_print (JObj
     [(''books'', JArr [JObj [(''id'', JStr ''1''), (''title'', JStr ''Dune'')],
                        JObj [(''id'', JStr ''2''), (''title'', JStr ''DUNE'')]]),
      (''pagination'', JObj [(''total_pages'', JNum ''2'')])])"

definition two_books :: upstream_list where
  "two_books = \<lparr>ul_books = [zero_upstream_book\<lparr>ub_id := ''1'', ub_title := ''Dune''\<rparr>,
                            zero_upstream_book\<lparr>ub_id := ''2'', ub_title := ''DUNE''\<rparr>],
     ul_pagination = zero_pagination\<lparr>pn_total_pages := 2\<rparr>\<rparr>"

lemma decode_two_books: "decode_books two_books_body = Inr two_books"
  by (simp add: go_eval two_books_body_def decode_books_def two_books_def list_book_fields_def
      common_book_fields_def pagination_fields_def zero_upstream_book_def zero_pagination_def
      atoi_def parse_uint_def digit_val_def int64_defs)

lemma length_two_books: "length two_books_body < 200"
  by (simp add: two_books_body_def json_print_eval)

lemma list_books_two:
  assumes "url_parse (''http://bw.local'' @ list_path p) = Inr u"
  shows "fst (list_books sample_client (answering 200 two_books_body) w p) = Inr (to_page sample_client p two_books)"
  using length_two_books assms
  by (simp add: list_books_def go_eval(1) client_eval decode_two_books del: url_parse_eval)

lemma list_path_start: "url_parse ''http://bw.local/api/v1/books?'' = Inr \<lparr>u_scheme = ''http'', u_host = ''bw.local''\<rparr>"
  by (simp add: go_eval)

lemma two_books_first:
  "fst (list_books sample_client (answering 200 two_books_body) w zero_params)
     = Inr (to_page sample_client zero_params two_books)"
  by (rule list_books_two [of _ "\<lparr>u_scheme = ''http'', u_host = ''bw.local''\<rparr>"])
    (use list_path_start in \<open>simp add: list_path_def list_query_def zero_params_def set_nonempty_def values_encode_def\<close>)


text \<open>
  C25. The fan-out computes what it is meant to: its items are the first book of every key of the pages
  it has read, which follow each other by their cursors; it reads at most \<open>maxFanout\<close> pages (10 when
  that is not positive) of at most ten requests each, carries the last page's cursor and total on,
  and without an error it stops only when the target is filled, upstream is exhausted or the
  pages are used up.
\<close>

theorem fanout_correct:
  fixes m
  defines "fanout \<equiv> nat (if m \<le> 0 then 10 else m)"
  shows "case list_books_deduped c env w p m of (err, out, w') \<Rightarrow>
    (\<exists>pages. page_chain (\<lambda>v cursor. list_books c env v (p\<lparr>lp_cursor := cursor\<rparr>)) (lp_cursor p) pages
      \<and> length pages \<le> fanout
      \<and> pg_items out = uniq_by dedup_key (concat (map pg_items pages))
      \<and> (pages \<noteq> [] \<longrightarrow> pg_next out = pg_next (last pages) \<and> pg_total out = pg_total (last pages))
      \<and> (err = None \<longrightarrow> length pages = fanout \<or> pg_next out = []
           \<or> (if lp_limit p \<le> 0 then 50 else lp_limit p) \<le> int (length (pg_items out))))
    \<and> distinct (map dedup_key (pg_items out))
    \<and> length (w_http w') \<le> length (w_http w) + 10 * fanout"
proof -
  let ?fetch = "\<lambda>v cursor. list_books c env v (p\<lparr>lp_cursor := cursor\<rparr>)"
  let ?target = "if lp_limit p \<le> 0 then 50 else lp_limit p"
  obtain err out w' where run: "dedup_loop ?fetch fanout ?target (lp_cursor p) [] empty_page w = (err, out, w')"
    by (metis surj_pair)
  then have res: "list_books_deduped c env w p m = (err, out, w')"
    by (simp add: list_books_deduped_def fanout_def Let_def)
  have "dedup_items [] [] [] = ([], pg_items empty_page)" by (simp add: empty_page_def)
  from book_pages.loop_pages [OF run this] obtain pages where
    pages: "page_chain ?fetch (lp_cursor p) pages" "length pages \<le> fanout"
      "pg_items out = snd (dedup_items [] [] (concat (map pg_items pages)))"
      "pg_next out = pg_next (last (empty_page # pages))" "pg_total out = pg_total (last (empty_page # pages))"
      "err = None \<longrightarrow> length pages = fanout \<or> ?target \<le> int (length (pg_items out)) \<or> pg_next out = []"
    by auto
  have items: "pg_items out = uniq_by dedup_key (concat (map pg_items pages))"
    using pages(3) dedup_items_spec [of "[]" "[]" "concat (map pg_items pages)"] by simp
  have "sends (\<lambda>_. True) (10 * fanout) w w'"
    using book_pages.loop_cost [where n = fanout and target = ?target and cursor = "lp_cursor p"
        and seen = "[]" and out = empty_page and w = w and c = c and env = env and p = p] run by simp
  then have "length (w_http w') \<le> length (w_http w) + 10 * fanout"
    by (rule grows_length [OF sends_grows])
  moreover have "distinct (map dedup_key (pg_items out))"
    unfolding items by (rule uniq_by_distinct)
  moreover have "pages \<noteq> [] \<longrightarrow> pg_next out = pg_next (last pages) \<and> pg_total out = pg_total (last pages)"
    using pages(4,5) by simp
  ultimately show ?thesis
    unfolding res prod.case using pages(1,2,6) items
    by (intro conjI exI [of _ pages]) blast+
qed

text \<open>Two editions on the one page that may be read leave one card.\<close>

lemma dune_key: "dedup_key (to_book sample_client (zero_upstream_book\<lparr>ub_id := x, ub_title := ''Dune''\<rparr>)) = ''ta:dune|||0''"
  "dedup_key (to_book sample_client (zero_upstream_book\<lparr>ub_id := x, ub_title := ''DUNE''\<rparr>)) = ''ta:dune|||0''"
  by (simp_all add: dedup_key_def to_book_def zero_book_def zero_upstream_book_def normalize_key_def
      Let_def char_of_def bit_Suc_0_iff format_float_def f64_zero_def minus_sign_def)

theorem fanout_correct_witness:
  "map dedup_key (pg_items (fst (snd (list_books_deduped sample_client (answering 200 two_books_body)
       empty_world zero_params 1)))) = [''ta:dune|||0'']
   \<and> distinct (map dedup_key (pg_items (fst (snd (list_books_deduped sample_client
       (answering 200 two_books_body) empty_world zero_params 1)))))"
proof -
  let ?env = "answering 200 two_books_body"
  let ?run = "list_books_deduped sample_client ?env empty_world zero_params 1"
  have same: "zero_params\<lparr>lp_cursor := lp_cursor zero_params\<rparr> = zero_params" by simp
  have lim: "lp_limit zero_params = 0" by (simp add: zero_params_def)
  obtain w1 where page: "list_books sample_client ?env empty_world zero_params
      = (Inr (to_page sample_client zero_params two_books), w1)"
    using two_books_first [of empty_world] by (metis prod.collapse)
  have items: "snd (dedup_items [] [] (pg_items (to_page sample_client zero_params two_books)))
      = [to_book sample_client (zero_upstream_book\<lparr>ub_id := ''1'', ub_title := ''Dune''\<rparr>)]"
    by (simp add: to_page_def two_books_def dune_key)
  have "pg_items (fst (snd ?run)) = snd (dedup_items [] [] (pg_items (to_page sample_client zero_params two_books)))"
    by (simp add: list_books_deduped_def lim same page case_prod_beta empty_page_def Let_def)
  then have "map dedup_key (pg_items (fst (snd ?run))) = [''ta:dune|||0'']"
    by (simp add: items dune_key)
  moreover have "distinct (map dedup_key (pg_items (fst (snd ?run))))"
  proof -
    obtain err out w' where run: "?run = (err, out, w')" by (metis surj_pair)
    have "distinct (map dedup_key (pg_items out))"
      using fanout_correct [where c = sample_client and env = ?env and w = empty_world
          and p = zero_params and m = 1]
      unfolding run prod.case by (elim conjE)
    then show ?thesis unfolding run fst_conv snd_conv .
  qed
  ultimately show ?thesis by (rule conjI)
qed

end
