(* ===== verification/Facets.thy ===== *)
theory Facets
  imports Books
begin

text \<open>
  internal/bookwarehouse/browse.go and external_search.go: the facets of the catalogue (only genres
  exist upstream) and the search in external sources.
\<close>

section \<open>Facets\<close>

record facet =
  fc_id :: gostring
  fc_name :: gostring
  fc_slug :: gostring
  fc_count :: int

text \<open>\<open>ListAuthors\<close>, \<open>ListSeries\<close> and \<open>ListTags\<close>: upstream has no such endpoint.\<close>

definition list_authors :: "gostring \<Rightarrow> int \<Rightarrow> facet paged res" where
  "list_authors cursor limit = Inr empty_page"

definition list_series :: "gostring \<Rightarrow> int \<Rightarrow> facet paged res" where
  "list_series cursor limit = Inr empty_page"

definition list_tags :: "gostring \<Rightarrow> int \<Rightarrow> facet paged res" where
  "list_tags cursor limit = Inr empty_page"

record upstream_genre =
  ug_id :: int
  ug_name :: gostring
  ug_slug :: gostring
  ug_book_count :: int

definition zero_upstream_genre :: upstream_genre where
  "zero_upstream_genre = \<lparr>ug_id = 0, ug_name = [], ug_slug = [], ug_book_count = 0\<rparr>"

definition genre_fields :: "upstream_genre fields" where
  "genre_fields =
     [field ''id'' dec_int ug_id (\<lambda>v g. g\<lparr>ug_id := v\<rparr>),
      field ''name'' dec_str ug_name (\<lambda>v g. g\<lparr>ug_name := v\<rparr>),
      field ''slug'' dec_str ug_slug (\<lambda>v g. g\<lparr>ug_slug := v\<rparr>),
      field ''book_count'' dec_int ug_book_count (\<lambda>v g. g\<lparr>ug_book_count := v\<rparr>)]"

record upstream_genres =
  ugs_genres :: "upstream_genre list"
  ugs_pagination :: pagination

text \<open>The inline pagination of \<open>ListGenres\<close> has no limit.\<close>

definition genre_pagination_fields :: "pagination fields" where
  "genre_pagination_fields =
     [field ''page'' dec_int pn_page (\<lambda>v p. p\<lparr>pn_page := v\<rparr>),
      field ''total_pages'' dec_int pn_total_pages (\<lambda>v p. p\<lparr>pn_total_pages := v\<rparr>),
      field ''total_items'' dec_int pn_total_items (\<lambda>v p. p\<lparr>pn_total_items := v\<rparr>)]"

definition decode_genres :: "gostring \<Rightarrow> upstream_genres res" where
  "decode_genres = unmarshal (dec_struct
     [field ''genres'' (dec_list (dec_struct genre_fields) zero_upstream_genre) ugs_genres
        (\<lambda>v u. u\<lparr>ugs_genres := v\<rparr>),
      field ''pagination'' (dec_struct genre_pagination_fields) ugs_pagination
        (\<lambda>v u. u\<lparr>ugs_pagination := v\<rparr>)])
     \<lparr>ugs_genres = [], ugs_pagination = zero_pagination\<rparr>"

definition to_genre :: "upstream_genre \<Rightarrow> facet" where
  "to_genre g = \<lparr>fc_id = itoa (ug_id g), fc_name = ug_name g, fc_slug = ug_slug g,
     fc_count = ug_book_count g\<rparr>"

definition genre_page :: "upstream_genres \<Rightarrow> facet paged" where
  "genre_page u = \<lparr>
     pg_items = map to_genre (ugs_genres u),
     pg_next = (if pn_page (ugs_pagination u) < pn_total_pages (ugs_pagination u)
                then itoa (wrap64 (pn_page (ugs_pagination u) + 1)) else []),
     pg_total = pn_total_items (ugs_pagination u)\<rparr>"

definition limit_query :: "int \<Rightarrow> url_values \<Rightarrow> url_values" where
  "limit_query limit q = (if 0 < limit then values_set ''limit'' (itoa limit) q else q)"

definition list_genres :: "client \<Rightarrow> env \<Rightarrow> world \<Rightarrow> gostring \<Rightarrow> int \<Rightarrow> facet paged res \<times> world" where
  "list_genres c env w cursor limit =
     (case client_get c env w
             (''/api/v1/genres?'' @ values_encode (limit_query limit (set_nonempty ''cursor'' cursor []))) of
        (Inl e, w1) \<Rightarrow> (Inl e, w1)
      | (Inr body, w1) \<Rightarrow>
          (case decode_genres body of
             Inl e \<Rightarrow> (Inl (''decode genres: '' @ e), w1)
           | Inr u \<Rightarrow> (Inr (genre_page u), w1)))"

section \<open>External search\<close>

record search_hit =
  sh_source_id :: gostring
  sh_source :: gostring
  sh_title :: gostring
  sh_authors :: "gostring list"
  sh_year :: int
  sh_language :: gostring
  sh_formats :: "gostring list"
  sh_size_bytes :: int
  sh_cover_url :: gostring

record search_item =
  si_title :: gostring
  si_authors :: "gostring list"
  si_published_date :: "gostring option"
  si_language :: "gostring option"
  si_cover_url :: "gostring option"
  si_source :: gostring

definition zero_search_item :: search_item where
  "zero_search_item = \<lparr>si_title = [], si_authors = [], si_published_date = None, si_language = None,
     si_cover_url = None, si_source = []\<rparr>"

definition search_item_fields :: "search_item fields" where
  "search_item_fields =
     [field ''title'' dec_str si_title (\<lambda>v i. i\<lparr>si_title := v\<rparr>),
      field ''authors'' (dec_list dec_str []) si_authors (\<lambda>v i. i\<lparr>si_authors := v\<rparr>),
      field ''published_date'' (dec_ptr dec_str []) si_published_date (\<lambda>v i. i\<lparr>si_published_date := v\<rparr>),
      field ''language'' (dec_ptr dec_str []) si_language (\<lambda>v i. i\<lparr>si_language := v\<rparr>),
      field ''cover_url'' (dec_ptr dec_str []) si_cover_url (\<lambda>v i. i\<lparr>si_cover_url := v\<rparr>),
      field ''source'' dec_str si_source (\<lambda>v i. i\<lparr>si_source := v\<rparr>)]"

definition decode_search :: "gostring \<Rightarrow> search_item list res" where
  "decode_search = unmarshal (dec_struct
     [field ''results'' (dec_list (dec_struct search_item_fields) zero_search_item) id (\<lambda>v _. v)]) []"

text \<open>
  The first match of the regular expression \<open>\b(\d{4})\b\<close>: \<open>prev\<close> tells whether the byte before is a
  word character. Bytes above ASCII are not.
\<close>

definition word_char :: "char \<Rightarrow> bool" where
  "word_char c \<longleftrightarrow> is_digit c \<or> is_letter c \<or> c = CHR ''_''"

fun year_match :: "bool \<Rightarrow> gostring \<Rightarrow> gostring option" where
  "year_match prev [] = None"
| "year_match prev (c # cs) =
     (let s = c # cs
      in if \<not> prev \<and> 4 \<le> length s \<and> list_all is_digit (take 4 s)
            \<and> (drop 4 s = [] \<or> \<not> word_char (hd (drop 4 s)))
         then Some (take 4 s) else year_match (word_char c) cs)"

definition extract_year :: "gostring \<Rightarrow> int" where
  "extract_year s =
     (case year_match False s of
        None \<Rightarrow> 0
      | Some m \<Rightarrow> (case atoi m of None \<Rightarrow> 0 | Some y \<Rightarrow> y))"

definition to_hit :: "search_item \<Rightarrow> search_hit" where
  "to_hit i = \<lparr>sh_source_id = [], sh_source = si_source i, sh_title = si_title i, sh_authors = si_authors i,
     sh_year = (case si_published_date i of None \<Rightarrow> 0 | Some d \<Rightarrow> extract_year d),
     sh_language = (case si_language i of None \<Rightarrow> [] | Some l \<Rightarrow> l),
     sh_formats = [], sh_size_bytes = 0,
     sh_cover_url = (case si_cover_url i of None \<Rightarrow> [] | Some u \<Rightarrow> u)\<rparr>"

definition external_search :: "client \<Rightarrow> env \<Rightarrow> world \<Rightarrow> gostring \<Rightarrow> int \<Rightarrow> search_hit list res \<times> world" where
  "external_search c env w query limit =
     (case client_get c env w
             (''/api/v1/search/external?'' @ values_encode (limit_query limit (values_set ''q'' query []))) of
        (Inl e, w1) \<Rightarrow> (Inl e, w1)
      | (Inr body, w1) \<Rightarrow>
          (case decode_search body of
             Inl e \<Rightarrow> (Inl (''decode external_search: '' @ e), w1)
           | Inr items \<Rightarrow> (Inr (map to_hit items), w1)))"

section \<open>Laws\<close>

lemma year_match_digits: "year_match prev s = Some m \<Longrightarrow> length m = 4 \<and> list_all is_digit m"
  by (induction prev s rule: year_match.induct) (auto simp: Let_def split: if_splits)

lemma year_match_step:
  "s \<noteq> [] \<Longrightarrow> year_match prev s =
     (if \<not> prev \<and> 4 \<le> length s \<and> list_all is_digit (take 4 s)
         \<and> (drop 4 s = [] \<or> \<not> word_char (hd (drop 4 s)))
      then Some (take 4 s) else year_match (word_char (hd s)) (tl s))"
  by (cases s) (simp_all only: year_match.simps Let_def list.sel simp_thms)

lemma dec_acc_digits:
  "list_all is_digit s \<Longrightarrow> \<exists>n. dec_acc acc s = Some n \<and> n < (acc + 1) * 10 ^ length s"
proof (induction s arbitrary: acc)
  case (Cons c s)
  have d: "is_digit c" "list_all is_digit s" using Cons.prems by simp_all
  have v: "digit_val c \<le> 9" using d(1) by (auto simp: is_digit_def digit_val_def)
  obtain n where n: "dec_acc (acc * 10 + digit_val c) s = Some n"
    "n < (acc * 10 + digit_val c + 1) * 10 ^ length s"
    using Cons.IH [OF d(2)] by blast
  have "(acc * 10 + digit_val c + 1) * 10 ^ length s \<le> (acc + 1) * 10 * 10 ^ length s"
    using v by (intro mult_right_mono) auto
  also have "\<dots> = (acc + 1) * 10 ^ length (c # s)"
    by (simp only: list.size power_Suc mult.assoc add_0_right One_nat_def power_add power_one_right
        mult.commute mult.left_commute add_Suc_right)
  finally have "n < (acc + 1) * 10 ^ length (c # s)" using n(2) by (rule order.strict_trans2 [rotated])
  moreover have "dec_acc acc (c # s) = Some n" using n(1) d(1) by (simp add: mult.commute)
  ultimately show ?case by blast
qed simp

definition genres_path :: "gostring \<Rightarrow> int \<Rightarrow> gostring" where
  "genres_path cursor limit =
     ''/api/v1/genres?'' @ values_encode (limit_query limit (set_nonempty ''cursor'' cursor []))"

definition search_path :: "gostring \<Rightarrow> int \<Rightarrow> gostring" where
  "search_path query limit =
     ''/api/v1/search/external?'' @ values_encode (limit_query limit (values_set ''q'' query []))"

lemma list_genres_sends:
  "sends (key_safe (upstream_host c (genres_path cursor limit))) 10 w (snd (list_genres c env w cursor limit))"
  unfolding list_genres_def genres_path_def [symmetric]
  by (simp add: case_prod_beta client_get_sends split: sum.split)

lemma external_search_sends:
  "sends (key_safe (upstream_host c (search_path query limit))) 10 w (snd (external_search c env w query limit))"
  unfolding external_search_def search_path_def [symmetric]
  by (simp add: case_prod_beta client_get_sends split: sum.split)

section \<open>Properties\<close>

text \<open>
  The year of a hit: it is read from four digits that stand alone, so it is between 0 and 9999, and
  a date that begins with such a year gives that year.
\<close>

lemma extract_year_range:
  "0 \<le> extract_year s \<and> extract_year s \<le> 9999
   \<and> (length ds = 4 \<and> list_all is_digit ds \<and> (rest = [] \<or> \<not> word_char (hd rest)) \<longrightarrow>
        Some (extract_year (ds @ rest)) = atoi ds)"
proof -
  have four: "\<exists>n. atoi m = Some n \<and> 0 \<le> n \<and> n \<le> 9999" if m: "length m = 4" "list_all is_digit m" for m
  proof -
    obtain k where k: "dec_acc 0 m = Some k" "k < 10 ^ 4"
      using dec_acc_digits [OF m(2), of 0] m(1) by auto
    have "m \<noteq> []" "hd m \<noteq> CHR ''-''" "hd m \<noteq> CHR ''+''"
      using m by (cases m; auto simp: is_digit_def)+
    then show ?thesis
      using k by (simp add: atoi_def parse_uint_def int64_defs)
  qed
  have "0 \<le> extract_year s \<and> extract_year s \<le> 9999"
    using year_match_digits [of False s] four
    by (fastforce simp: extract_year_def split: option.split)
  moreover have "Some (extract_year (ds @ rest)) = atoi ds"
    if h: "length ds = 4" "list_all is_digit ds" "rest = [] \<or> \<not> word_char (hd rest)"
  proof -
    have "ds @ rest \<noteq> []" using h(1) by auto
    then have "year_match False (ds @ rest) = Some ds"
      using h by (simp add: year_match_step)
    then show ?thesis using four [OF h(1,2)] by (auto simp: extract_year_def)
  qed
  ultimately show ?thesis by blast
qed

theorem extract_year_range_witness:
  "Some (extract_year ''1965-08-01'') = atoi ''1965''"
  using extract_year_range [of "[]" "''1965''" "''-08-01''"]
  by (simp add: is_digit_def word_char_def is_letter_def)

end
