(* ===== verification/Monitoring.thy ===== *)
theory Monitoring
  imports Client
begin

text \<open>
  internal/bookwarehouse/monitoring.go: the request that queues a book upstream and the snapshot of
  a queued one.
\<close>

record monitoring_request =
  mq_title :: gostring
  mq_authors :: "gostring list"
  mq_isbn :: gostring
  mq_format_pref :: gostring
  mq_quality_profile :: gostring
  mq_auto_monitor :: bool

record monitoring_response =
  mr_id :: gostring
  mr_status :: gostring

definition zero_monitoring_response :: monitoring_response where
  "zero_monitoring_response = \<lparr>mr_id = [], mr_status = []\<rparr>"

definition monitoring_request_json :: "monitoring_request \<Rightarrow> json" where
  "monitoring_request_json r = JObj (
     [(''title'', JStr (mq_title r))]
     @ omit (mq_authors r = []) ''authors'' (jstrs (mq_authors r))
     @ omit (mq_isbn r = []) ''isbn'' (JStr (mq_isbn r))
     @ omit (mq_format_pref r = []) ''format_pref'' (JStr (mq_format_pref r))
     @ omit (mq_quality_profile r = []) ''quality_profile'' (JStr (mq_quality_profile r))
     @ omit (\<not> mq_auto_monitor r) ''auto_monitor'' (JBool (mq_auto_monitor r)))"

definition monitoring_response_fields :: "monitoring_response fields" where
  "monitoring_response_fields =
     [field ''id'' dec_str mr_id (\<lambda>v r. r\<lparr>mr_id := v\<rparr>),
      field ''status'' dec_str mr_status (\<lambda>v r. r\<lparr>mr_status := v\<rparr>)]"

definition decode_monitoring :: "gostring \<Rightarrow> monitoring_response res" where
  "decode_monitoring = unmarshal (dec_struct monitoring_response_fields) zero_monitoring_response"

definition add_monitoring ::
  "client \<Rightarrow> env \<Rightarrow> world \<Rightarrow> monitoring_request \<Rightarrow> monitoring_response res \<times> world" where
  "add_monitoring c env w r =
     (case post_json c env w ''/api/v1/monitoring/add'' (json_print (monitoring_request_json r)) of
        (Inl e, w1) \<Rightarrow> (Inl e, w1)
      | (Inr body, w1) \<Rightarrow>
          (case decode_monitoring body of
             Inl e \<Rightarrow> (Inl (''decode monitoring response: '' @ e), w1)
           | Inr out \<Rightarrow>
               if mr_id out = []
               then (Inl (''monitoring/add: upstream returned no id: '' @ trunc_for_error body), w1)
               else (Inr out, w1)))"

definition monitoring_path :: "gostring \<Rightarrow> gostring" where
  "monitoring_path ext = ''/api/v1/monitoring/'' @ path_escape ext"

definition get_monitoring ::
  "client \<Rightarrow> env \<Rightarrow> world \<Rightarrow> gostring \<Rightarrow> monitoring_response res \<times> world" where
  "get_monitoring c env w ext =
     (case client_get c env w (monitoring_path ext) of
        (Inl e, w1) \<Rightarrow> (Inl e, w1)
      | (Inr body, w1) \<Rightarrow>
          (case decode_monitoring body of
             Inl e \<Rightarrow> (Inl (''decode monitoring snapshot: '' @ e), w1)
           | Inr out \<Rightarrow>
               if mr_id out = [] \<and> mr_status out = []
               then (Inl (''monitoring snapshot: invalid response: '' @ trunc_for_error body), w1)
               else (Inr out, w1)))"

section \<open>Laws\<close>

lemma add_monitoring_snd:
  "snd (add_monitoring c env w r) =
     snd (post_json c env w ''/api/v1/monitoring/add'' (json_print (monitoring_request_json r)))"
  by (simp add: add_monitoring_def case_prod_beta split: sum.split)

lemma get_monitoring_snd: "snd (get_monitoring c env w ext) = snd (client_get c env w (monitoring_path ext))"
  by (simp add: get_monitoring_def case_prod_beta split: sum.split)

lemma add_monitoring_sends:
  "sends (key_safe (upstream_host c ''/api/v1/monitoring/add'')) 10 w (snd (add_monitoring c env w r))"
  by (simp add: add_monitoring_snd post_json_sends)

lemma get_monitoring_sends:
  "sends (key_safe (upstream_host c (monitoring_path ext))) 10 w (snd (get_monitoring c env w ext))"
  by (simp add: get_monitoring_snd client_get_sends)

lemma add_monitoring_id: "fst (add_monitoring c env w r) = Inr out \<Longrightarrow> mr_id out \<noteq> []"
  by (auto simp: add_monitoring_def case_prod_beta split: sum.splits if_splits)

lemma get_monitoring_nonempty:
  "fst (get_monitoring c env w ext) = Inr out \<Longrightarrow> mr_id out \<noteq> [] \<or> mr_status out \<noteq> []"
  by (auto simp: get_monitoring_def case_prod_beta split: sum.splits if_splits)

lemma add_monitoring_frame [simp]:
  "w_rows (snd (add_monitoring c env w r)) = w_rows w"
  "w_events (snd (add_monitoring c env w r)) = w_events w"
  "w_config (snd (add_monitoring c env w r)) = w_config w"
  using sends_frame [OF add_monitoring_sends [of c w env r]] by simp_all

lemma get_monitoring_frame [simp]:
  "w_rows (snd (get_monitoring c env w ext)) = w_rows w"
  "w_events (snd (get_monitoring c env w ext)) = w_events w"
  "w_config (snd (get_monitoring c env w ext)) = w_config w"
  using sends_frame [OF get_monitoring_sends [of c ext w env]] by simp_all

section \<open>Concrete runs\<close>

definition queued_body :: gostring where
  "queued_body = json_print (JObj [(''id'', JStr ''x9''), (''status'', JStr ''queued'')])"

lemma decode_queued: "decode_monitoring queued_body = Inr \<lparr>mr_id = ''x9'', mr_status = ''queued''\<rparr>"
  by (simp add: go_eval queued_body_def decode_monitoring_def monitoring_response_fields_def
      zero_monitoring_response_def)

lemma length_queued: "length queued_body < 100"
  by (simp add: queued_body_def json_print_eval)

lemma add_monitoring_queued:
  "fst (add_monitoring sample_client (answering 200 queued_body) w r) = Inr \<lparr>mr_id = ''x9'', mr_status = ''queued''\<rparr>"
  using length_queued by (simp add: add_monitoring_def go_eval decode_queued)

end
