(* ===== verification/Tokens.thy ===== *)
theory Tokens
  imports GoFloat
begin

text \<open>
  internal/tokens/verify.go: the check of a media token, the only gate in front of the cover and file
  routes.

  The library golang-jwt is not part of the repository. \<open>jwt.Parse\<close> with the options the code gives
  is the parameter \<open>parse\<close>: it takes the required audience, the time, the key function and the token,
  and answers with the parsed token or an error. What its documentation promises is \<open>jwt_contract\<close>,
  over a relation \<open>signed alg key tok\<close> for a valid signature.
\<close>

section \<open>Base64\<close>

definition b64_val :: "char \<Rightarrow> nat option" where
  "b64_val c =
     (let b = byte_of c
      in if 65 \<le> b \<and> b \<le> 90 then Some (b - 65)
         else if 97 \<le> b \<and> b \<le> 122 then Some (b - 71)
         else if 48 \<le> b \<and> b \<le> 57 then Some (b + 4)
         else if b = 43 then Some 62 else if b = 47 then Some 63 else None)"

text \<open>Groups of four characters for three bytes; a last group of two or three has no padding left.\<close>

fun b64_groups :: "gostring \<Rightarrow> gostring option" where
  "b64_groups [] = Some []"
| "b64_groups [a] = None"
| "b64_groups [a, b] =
     (case (b64_val a, b64_val b) of
        (Some x, Some y) \<Rightarrow> Some [char_of (x * 4 + y div 16)]
      | _ \<Rightarrow> None)"
| "b64_groups [a, b, c] =
     (case (b64_val a, b64_val b, b64_val c) of
        (Some x, Some y, Some z) \<Rightarrow> Some [char_of (x * 4 + y div 16), char_of (y mod 16 * 16 + z div 4)]
      | _ \<Rightarrow> None)"
| "b64_groups (a # b # c # d # rest) =
     (case (b64_val a, b64_val b, b64_val c, b64_val d, b64_groups rest) of
        (Some x, Some y, Some z, Some u, Some bs) \<Rightarrow>
          Some (char_of (x * 4 + y div 16) # char_of (y mod 16 * 16 + z div 4)
                # char_of (z mod 4 * 64 + u) # bs)
      | _ \<Rightarrow> None)"

text \<open>Both encodings skip line breaks; the padded one wants whole groups.\<close>

definition b64_text :: "gostring \<Rightarrow> gostring" where
  "b64_text s = filter (\<lambda>c. byte_of c \<noteq> 10 \<and> byte_of c \<noteq> 13) s"

definition b64_raw :: "gostring \<Rightarrow> gostring option" where
  "b64_raw s = b64_groups (b64_text s)"

definition b64_std :: "gostring \<Rightarrow> gostring option" where
  "b64_std s =
     (let t = b64_text s; n = length t;
          pad = (if 2 \<le> n \<and> drop (n - 2) t = ''=='' then 2
                 else if 1 \<le> n \<and> drop (n - 1) t = ''='' then 1 else 0)
      in if n mod 4 \<noteq> 0 then None else b64_groups (take (n - pad) t))"

definition decode_secret :: "gostring \<Rightarrow> gostring" where
  "decode_secret secret =
     (case b64_std secret of
        Some (b # bs) \<Rightarrow> b # bs
      | _ \<Rightarrow> (case b64_raw secret of Some (b # bs) \<Rightarrow> b # bs | _ \<Rightarrow> secret))"

section \<open>Verification\<close>

definition audience :: gostring where
  "audience = ''ebook_backend''"

definition cover_file_idx :: int where
  "cover_file_idx = -1"

definition file_file_idx :: int where
  "file_file_idx = 0"

record token_claims =
  tc_user_id :: gostring
  tc_book_id :: gostring
  tc_file_idx :: int

text \<open>A parsed token; \<open>jt_claims\<close> is \<open>None\<close> when the claims are not a \<open>MapClaims\<close>.\<close>

record jwt_token =
  jt_valid :: bool
  jt_claims :: "anymap option"

type_synonym jwt_parse = "gostring \<Rightarrow> int \<Rightarrow> (gostring \<Rightarrow> gostring res) \<Rightarrow> gostring \<Rightarrow> jwt_token res"

datatype token_error =
    Token_Missing
  | Secret_Unconfigured
  | Parse_Failed gostring
  | Token_Invalid
  | Not_Map_Claims
  | Book_Mismatch
  | File_Mismatch
  | Sub_Required

fun token_error_text :: "token_error \<Rightarrow> gostring" where
  "token_error_text Token_Missing = ''media token missing''"
| "token_error_text Secret_Unconfigured = ''media signing secret not configured''"
| "token_error_text (Parse_Failed e) = ''verify: '' @ e"
| "token_error_text Token_Invalid = ''token invalid''"
| "token_error_text Not_Map_Claims = ''claims not MapClaims''"
| "token_error_text Book_Mismatch = ''book_id mismatch''"
| "token_error_text File_Mismatch = ''file_idx mismatch''"
| "token_error_text Sub_Required = ''sub required''"

text \<open>The key function: the key for HS256, an error for every other algorithm.\<close>

definition key_func :: "gostring \<Rightarrow> gostring \<Rightarrow> gostring res" where
  "key_func key alg =
     (if alg \<noteq> ''HS256'' then Inl (''unexpected signing method: '' @ alg) else Inr key)"

definition check_claims :: "anymap \<Rightarrow> gostring \<Rightarrow> int \<Rightarrow> token_error + token_claims" where
  "check_claims claims book idx =
     (let bid = any_string (map_of claims ''book_id'')
      in if bid = [] \<or> bid \<noteq> book then Inl Book_Mismatch
         else case map_of claims ''file_idx'' of
           Some (ANum f) \<Rightarrow>
             if f64_to_int f \<noteq> idx then Inl File_Mismatch
             else let sub = any_string (map_of claims ''sub'')
                  in if sub = [] then Inl Sub_Required
                     else Inr \<lparr>tc_user_id = sub, tc_book_id = bid, tc_file_idx = idx\<rparr>
         | _ \<Rightarrow> Inl File_Mismatch)"

definition verify ::
  "jwt_parse \<Rightarrow> int \<Rightarrow> gostring \<Rightarrow> gostring \<Rightarrow> gostring \<Rightarrow> int \<Rightarrow> token_error + token_claims" where
  "verify parse t secret tok book idx =
     (if trim_space secret = [] then Inl Secret_Unconfigured
      else if tok = [] then Inl Token_Missing
      else case parse audience t (key_func (decode_secret secret)) tok of
        Inl e \<Rightarrow> Inl (Parse_Failed e)
      | Inr p \<Rightarrow>
          if \<not> jt_valid p then Inl Token_Invalid
          else (case jt_claims p of
            None \<Rightarrow> Inl Not_Map_Claims
          | Some claims \<Rightarrow> check_claims claims book idx))"

section \<open>What the library promises\<close>

text \<open>
  \<open>jwt.Parse\<close> with \<open>WithAudience\<close> and \<open>WithExpirationRequired\<close> returns a valid token only if the key
  function gave a key for the token's algorithm, the signature is valid under that key, the
  \<open>aud\<close> claim has the audience and the \<open>exp\<close> claim is there and lies ahead.
\<close>

definition aud_has :: "gostring \<Rightarrow> anymap \<Rightarrow> bool" where
  "aud_has aud claims \<longleftrightarrow>
     (case map_of claims ''aud'' of
        Some (AStr a) \<Rightarrow> a = aud
      | Some (AList xs) \<Rightarrow> AStr aud \<in> set xs
      | _ \<Rightarrow> False)"

definition exp_ahead :: "int \<Rightarrow> anymap \<Rightarrow> bool" where
  "exp_ahead t claims \<longleftrightarrow> (case map_of claims ''exp'' of Some (ANum f) \<Rightarrow> t < f64_trunc f | _ \<Rightarrow> False)"

definition jwt_contract :: "(gostring \<Rightarrow> gostring \<Rightarrow> gostring \<Rightarrow> bool) \<Rightarrow> jwt_parse \<Rightarrow> bool" where
  "jwt_contract signed parse \<longleftrightarrow>
     (\<forall>aud t keyf tok p. parse aud t keyf tok = Inr p \<longrightarrow> jt_valid p \<longrightarrow>
        (\<exists>alg key. keyf alg = Inr key \<and> signed alg key tok)
        \<and> (\<forall>claims. jt_claims p = Some claims \<longrightarrow> aud_has aud claims \<and> exp_ahead t claims))"

lemma check_claims_ok:
  "check_claims claims book idx = Inr c \<Longrightarrow>
     any_string (map_of claims ''book_id'') = book \<and> book \<noteq> []
     \<and> (\<exists>f. map_of claims ''file_idx'' = Some (ANum f) \<and> f64_to_int f = idx)
     \<and> any_string (map_of claims ''sub'') = tc_user_id c \<and> tc_user_id c \<noteq> []
     \<and> tc_book_id c = book \<and> tc_file_idx c = idx"
  by (auto simp: check_claims_def Let_def split: if_splits option.splits any.splits)

lemma verify_ok:
  assumes "verify parse t secret tok book idx = Inr c"
  obtains p claims where "trim_space secret \<noteq> []" "tok \<noteq> []"
    "parse audience t (key_func (decode_secret secret)) tok = Inr p" "jt_valid p"
    "jt_claims p = Some claims" "check_claims claims book idx = Inr c"
  using assms by (auto simp: verify_def split: if_splits sum.splits option.splits)

section \<open>Properties\<close>

text \<open>
  C15. Soundness of \<open>Verify\<close>: under the contract of the JWT library, a token is accepted only if it is
  signed with HS256 under the configured secret's key, is for this media type, has not expired, and
  names the very book and file index that were asked for, and a subject.
\<close>

theorem verify_sound:
  assumes "jwt_contract signed parse"
    and "verify parse t secret tok book idx = Inr c"
  shows "signed ''HS256'' (decode_secret secret) tok
    \<and> tc_book_id c = book \<and> tc_file_idx c = idx \<and> tc_user_id c \<noteq> [] \<and> book \<noteq> []
    \<and> (\<exists>p claims f. parse audience t (key_func (decode_secret secret)) tok = Inr p
         \<and> jt_claims p = Some claims \<and> aud_has audience claims \<and> exp_ahead t claims
         \<and> any_string (map_of claims ''book_id'') = book
         \<and> map_of claims ''file_idx'' = Some (ANum f) \<and> f64_to_int f = idx)"
proof -
  obtain p claims where v: "parse audience t (key_func (decode_secret secret)) tok = Inr p" "jt_valid p"
    "jt_claims p = Some claims" "check_claims claims book idx = Inr c"
    using assms(2) by (rule verify_ok)
  obtain alg key where k: "key_func (decode_secret secret) alg = Inr key" "signed alg key tok"
    and cl: "aud_has audience claims" "exp_ahead t claims"
    using assms(1) v unfolding jwt_contract_def by blast
  have "alg = ''HS256''" "key = decode_secret secret"
    using k(1) by (auto simp: key_func_def split: if_splits)
  then show ?thesis
    using k(2) cl v(1,3) check_claims_ok [OF v(4)] by blast
qed

text \<open>A library that accepts one token, for a concrete run.\<close>

definition sample_claims :: "f64 \<Rightarrow> anymap" where
  "sample_claims f = [(''book_id'', AStr ''b1''), (''file_idx'', ANum f), (''sub'', AStr ''u7''),
     (''aud'', AStr ''ebook_backend''), (''exp'', ANum (F64 False 1 40))]"

definition sample_signed :: "gostring \<Rightarrow> gostring \<Rightarrow> gostring \<Rightarrow> bool" where
  "sample_signed alg key tok \<longleftrightarrow> alg = ''HS256'' \<and> tok = ''tok-'' @ key"

definition sample_parse :: "f64 \<Rightarrow> jwt_parse" where
  "sample_parse f aud t keyf tok =
     (case keyf ''HS256'' of
        Inl e \<Rightarrow> Inl e
      | Inr key \<Rightarrow>
          if sample_signed ''HS256'' key tok \<and> aud_has aud (sample_claims f) \<and> exp_ahead t (sample_claims f)
          then Inr \<lparr>jt_valid = True, jt_claims = Some (sample_claims f)\<rparr> else Inl ''token signature is invalid'')"

lemma sample_contract: "jwt_contract sample_signed (sample_parse f)"
  by (auto simp: jwt_contract_def sample_parse_def split: sum.splits if_splits)

lemma sample_secret: "decode_secret ''s!'' = ''s!''" "trim_space ''s!'' \<noteq> []"
  by (simp_all add: decode_secret_def b64_std_def b64_raw_def b64_text_def b64_val_def Let_def
      trim_space_def is_space_def)

lemma sample_verify:
  "f64_to_int f = idx \<Longrightarrow> verify (sample_parse f) 0 ''s!'' ''tok-s!'' ''b1'' idx
     = Inr \<lparr>tc_user_id = ''u7'', tc_book_id = ''b1'', tc_file_idx = idx\<rparr>"
  by (simp add: verify_def sample_parse_def sample_secret key_func_def sample_signed_def audience_def
      aud_has_def exp_ahead_def sample_claims_def f64_trunc_def check_claims_def f64_ratio_def)

theorem verify_sound_witness:
  "sample_signed ''HS256'' (decode_secret ''s!'') ''tok-s!''"
  using verify_sound [OF sample_contract sample_verify [OF f64_to_int_zero]] by (rule conjunct1)

text \<open>
  One token opens one resource: if a token is accepted for two requests at the same time and under the
  same secret, they ask for the same book and the same file index. So a cover token never opens a
  file, and no token opens a second book.
\<close>

lemma token_single_resource:
  assumes "verify parse t secret tok b1 i1 = Inr c1" and "verify parse t secret tok b2 i2 = Inr c2"
  shows "b1 = b2 \<and> i1 = i2 \<and> c1 = c2 \<and> \<not> (i1 = cover_file_idx \<and> i2 = file_file_idx)"
proof -
  obtain p claims where 1: "parse audience t (key_func (decode_secret secret)) tok = Inr p"
    "jt_claims p = Some claims" "check_claims claims b1 i1 = Inr c1"
    using assms(1) by (rule verify_ok)
  obtain q claims' where 2: "parse audience t (key_func (decode_secret secret)) tok = Inr q"
    "jt_claims q = Some claims'" "check_claims claims' b2 i2 = Inr c2"
    using assms(2) by (rule verify_ok)
  have "claims' = claims" using 1 2 by simp
  then have "b1 = b2" "i1 = i2" using check_claims_ok [OF 1(3)] check_claims_ok [OF 2(3)] by auto
  with 1 2 show ?thesis by (auto simp: cover_file_idx_def file_file_idx_def)
qed

lemma token_single_resource_example:
  "\<forall>c. verify (sample_parse f64_zero) 0 ''s!'' ''tok-s!'' ''b2'' 0 \<noteq> Inr c"
  using token_single_resource [OF sample_verify [OF f64_to_int_zero], of "''b2''" 0]
  by auto

text \<open>
  The order of the refusals: without a secret every token is refused as unconfigured, and a missing
  token as missing, before the library is asked; a token whose library check fails is never looked
  into; and a fraction counts as its integral part, so a file index of 0.5 is accepted as file 0.
\<close>

lemma verify_refusals:
  "(trim_space secret = [] \<longrightarrow> verify parse t secret tok book idx = Inl Secret_Unconfigured)
   \<and> (trim_space secret \<noteq> [] \<longrightarrow> verify parse t secret [] book idx = Inl Token_Missing)
   \<and> (trim_space secret \<noteq> [] \<and> tok \<noteq> [] \<and> parse audience t (key_func (decode_secret secret)) tok = Inl e
        \<longrightarrow> verify parse t secret tok book idx = Inl (Parse_Failed e))
   \<and> verify (sample_parse (F64 False (2 ^ 52) (-53))) 0 ''s!'' ''tok-s!'' ''b1'' file_file_idx
        = Inr \<lparr>tc_user_id = ''u7'', tc_book_id = ''b1'', tc_file_idx = 0\<rparr>"
proof -
  have "f64_to_int (F64 False (2 ^ 52) (-53)) = file_file_idx"
    by (simp add: f64_to_int_def f64_trunc_def f64_ratio_def int64_defs file_file_idx_def)
  from sample_verify [OF this] show ?thesis
    by (auto simp: verify_def file_file_idx_def)
qed

lemma verify_refusals_example:
  "verify (sample_parse f64_zero) 0 '' '' ''tok'' ''b1'' 0 = Inl Secret_Unconfigured
   \<and> verify (sample_parse f64_zero) 0 ''s!'' [] ''b1'' 0 = Inl Token_Missing"
  using verify_refusals [of "'' ''" "sample_parse f64_zero" 0 "''tok''" "''b1''" 0]
    verify_refusals [of "''s!''" "sample_parse f64_zero" 0 "''tok''" "''b1''" 0] sample_secret
  by (simp add: trim_space_def is_space_def)

end
