(* ===== verification/CatalogApi.thy ===== *)
theory CatalogApi
  imports Facets Monitoring Tokens
begin

text \<open>
  internal/catalog (types.go, transform.go, handler.go) and internal/request/handler.go: the HTTP
  handlers of the portal's API. A handler takes the environment, the world and the request, and
  gives the response it writes and the new world.

  A request carries its decoded query (\<open>r.URL.Query()\<close>), its headers with canonical names and the
  URL parameters that the router has matched. The copy of a streamed body stops at an error of
  the upstream's body, whose bytes up to there are in \<open>hs_body\<close>.
\<close>

section \<open>Requests and responses\<close>

record api_request =
  aq_query :: "(gostring \<times> gostring) list"
  aq_headers :: headers
  aq_params :: "(gostring \<times> gostring) list"
  aq_body :: gostring

record api_response =
  ap_status :: int
  ap_headers :: headers
  ap_body :: gostring

definition query_get :: "api_request \<Rightarrow> gostring \<Rightarrow> gostring" where
  "query_get r k = (case map_of (aq_query r) k of None \<Rightarrow> [] | Some v \<Rightarrow> v)"

text \<open>\<open>chi.URLParam\<close> looks from the end: of two parameters of one name the last one counts.\<close>

definition url_param :: "api_request \<Rightarrow> gostring \<Rightarrow> gostring" where
  "url_param r k = (case map_of (rev (aq_params r)) k of None \<Rightarrow> [] | Some v \<Rightarrow> v)"

text \<open>\<open>http.Error\<close> and a JSON answer (\<open>Encode\<close> ends it with a newline).\<close>

definition newline :: gostring where
  "newline = [CHR 0x0A]"

definition http_error :: "gostring \<Rightarrow> int \<Rightarrow> api_response" where
  "http_error msg code = \<lparr>ap_status = code,
     ap_headers = [(''Content-Type'', ''text/plain; charset=utf-8''), (''X-Content-Type-Options'', ''nosniff'')],
     ap_body = msg @ newline\<rparr>"

definition json_answer :: "int \<Rightarrow> json \<Rightarrow> api_response" where
  "json_answer code j = \<lparr>ap_status = code, ap_headers = [(''Content-Type'', ''application/json'')],
     ap_body = json_print j @ newline\<rparr>"

section \<open>Contract types\<close>

record ebook_summary =
  es_id :: gostring
  es_title :: gostring
  es_authors :: "gostring list"
  es_series :: gostring
  es_series_index :: f64
  es_year :: int
  es_language :: gostring
  es_cover_url :: gostring
  es_has_cover :: bool
  es_rating :: f64
  es_formats :: "gostring list"

record ebook_file =
  ef_format :: gostring
  ef_size_bytes :: int
  ef_mime_type :: gostring
  ef_url :: gostring

record ebook_detail =
  ed_summary :: ebook_summary
  ed_description :: gostring
  ed_isbn :: gostring
  ed_publisher :: gostring
  ed_genres :: "gostring list"
  ed_tags :: "gostring list"
  ed_files :: "ebook_file list"
  ed_upstream_id :: gostring

text \<open>A nil slice prints as \<open>null\<close>; \<open>Formats\<close> is nil exactly when the book has no format.\<close>

definition jstrs_nil :: "gostring list \<Rightarrow> json" where
  "jstrs_nil xs = (if xs = [] then JNull else jstrs xs)"

definition summary_fields :: "ebook_summary \<Rightarrow> (gostring \<times> json) list" where
  "summary_fields s =
     [(''id'', JStr (es_id s)), (''title'', JStr (es_title s))]
     @ omit (es_authors s = []) ''authors'' (jstrs (es_authors s))
     @ omit (es_series s = []) ''series'' (JStr (es_series s))
     @ omit (f64_is_zero (es_series_index s)) ''series_index'' (jfloat (es_series_index s))
     @ omit (es_year s = 0) ''year'' (jint (es_year s))
     @ omit (es_language s = []) ''language'' (JStr (es_language s))
     @ omit (es_cover_url s = []) ''cover_url'' (JStr (es_cover_url s))
     @ [(''has_cover'', JBool (es_has_cover s))]
     @ omit (f64_is_zero (es_rating s)) ''rating'' (jfloat (es_rating s))
     @ [(''formats'', jstrs_nil (es_formats s))]"

definition file_json :: "ebook_file \<Rightarrow> json" where
  "file_json f = JObj (
     [(''format'', JStr (ef_format f)), (''size_bytes'', jint (ef_size_bytes f)),
      (''mime_type'', JStr (ef_mime_type f))]
     @ omit (ef_url f = []) ''url'' (JStr (ef_url f)))"

definition detail_json :: "ebook_detail \<Rightarrow> json" where
  "detail_json d = JObj (summary_fields (ed_summary d)
     @ omit (ed_description d = []) ''description'' (JStr (ed_description d))
     @ omit (ed_isbn d = []) ''isbn'' (JStr (ed_isbn d))
     @ omit (ed_publisher d = []) ''publisher'' (JStr (ed_publisher d))
     @ omit (ed_genres d = []) ''genres'' (jstrs (ed_genres d))
     @ omit (ed_tags d = []) ''tags'' (jstrs (ed_tags d))
     @ [(''files'', JArr (map file_json (ed_files d)))]
     @ omit (ed_upstream_id d = []) ''upstream_id'' (JStr (ed_upstream_id d)))"

definition page_json :: "('a \<Rightarrow> json) \<Rightarrow> 'a paged \<Rightarrow> json" where
  "page_json j p = JObj (
     [(''items'', JArr (map j (pg_items p)))]
     @ omit (pg_next p = []) ''next_cursor'' (JStr (pg_next p))
     @ omit (pg_total p = 0) ''total'' (jint (pg_total p)))"

section \<open>Translation\<close>

definition to_summary :: "book \<Rightarrow> ebook_summary" where
  "to_summary b = \<lparr>es_id = b_id b, es_title = b_title b, es_authors = b_authors b, es_series = b_series b,
     es_series_index = b_series_index b, es_year = b_year b, es_language = b_language b,
     es_cover_url = b_cover_url b, es_has_cover = b_has_cover b, es_rating = b_rating b,
     es_formats = b_formats b\<rparr>"

definition format_to_mime :: "gostring \<Rightarrow> gostring" where
  "format_to_mime format =
     (let f = to_lower format
      in if f = ''epub'' then ''application/epub+zip''
         else if f = ''pdf'' then ''application/pdf''
         else if f = ''mobi'' then ''application/x-mobipocket-ebook''
         else if f = ''azw'' \<or> f = ''azw3'' then ''application/vnd.amazon.ebook''
         else if f = ''djvu'' then ''image/vnd.djvu''
         else if f = ''fb2'' then ''application/x-fictionbook+xml''
         else if f = ''cbz'' then ''application/vnd.comicbook+zip''
         else if f = ''cbr'' then ''application/vnd.comicbook-rar''
         else if f = ''txt'' then ''text/plain''
         else ''application/octet-stream'')"

definition to_detail :: "book_detail \<Rightarrow> ebook_detail" where
  "to_detail d = \<lparr>
     ed_summary = to_summary (bd_book d), ed_description = bd_description d,
     ed_isbn = b_isbn (bd_book d), ed_publisher = b_publisher (bd_book d),
     ed_genres = bd_genres d, ed_tags = bd_tags d,
     ed_files = map (\<lambda>f. \<lparr>ef_format = bf_format f, ef_size_bytes = bf_size f,
                          ef_mime_type = format_to_mime (bf_format f), ef_url = bf_url f\<rparr>) (bd_files d),
     ed_upstream_id = b_id (bd_book d)\<rparr>"

section \<open>Parameters\<close>

definition max_catalog_limit :: int where
  "max_catalog_limit = 100"

definition clamp_limit :: "api_request \<Rightarrow> int \<Rightarrow> int" where
  "clamp_limit r def =
     (let l = query_get r ''limit''
      in if l = [] then def
         else case atoi l of
           None \<Rightarrow> def
         | Some n \<Rightarrow> if n \<le> 0 then def else if max_catalog_limit < n then max_catalog_limit else n)"

definition sort_keys :: "gostring list" where
  "sort_keys = [''title'', ''author'', ''year'', ''series'', ''added'', ''rating'']"

definition parse_list_params :: "api_request \<Rightarrow> list_params" where
  "parse_list_params r =
     (let s = to_lower (query_get r ''sort''); o' = to_lower (query_get r ''order'')
      in zero_params\<lparr>lp_cursor := query_get r ''cursor'', lp_limit := clamp_limit r 0,
           lp_sort := (if s \<in> set sort_keys then s else []),
           lp_order := (if o' = ''asc'' \<or> o' = ''desc'' then o' else [])\<rparr>)"

definition upstream_error :: api_response where
  "upstream_error = http_error ''upstream unavailable'' 502"

definition write_envelope :: "book paged \<Rightarrow> api_response" where
  "write_envelope p = json_answer 200 (page_json (\<lambda>b. JObj (summary_fields (to_summary b))) p)"

section \<open>Handlers\<close>

record catalog_handler =
  ch_client :: client
  ch_secret :: gostring

definition new_handler :: "client \<Rightarrow> gostring \<Rightarrow> catalog_handler" where
  [simp]: "new_handler c secret = \<lparr>ch_client = c, ch_secret = secret\<rparr>"

definition synthetic_library_id :: int where
  "synthetic_library_id = 1"

definition foreign_library :: "api_request \<Rightarrow> bool" where
  "foreign_library r \<longleftrightarrow>
     (let v = query_get r ''library_id''
      in v \<noteq> [] \<and> (case atoi v of None \<Rightarrow> False | Some n \<Rightarrow> n \<noteq> synthetic_library_id))"

definition deduped_answer :: "gostring option \<times> book paged \<times> world \<Rightarrow> api_response \<times> world" where
  "deduped_answer x =
     (case x of (Some e, out, w) \<Rightarrow> (upstream_error, w) | (None, out, w) \<Rightarrow> (write_envelope out, w))"

definition h_list :: "catalog_handler \<Rightarrow> env \<Rightarrow> world \<Rightarrow> api_request \<Rightarrow> api_response \<times> world" where
  "h_list h env w r =
     (if foreign_library r then (write_envelope empty_page, w)
      else let p = (parse_list_params r)\<lparr>lp_author := query_get r ''author'', lp_series := query_get r ''series'',
                      lp_genre := query_get r ''genre'', lp_tag := query_get r ''tag''\<rparr>
           in deduped_answer (list_books_deduped (ch_client h) env w p 5))"

definition h_libraries :: "world \<Rightarrow> api_response \<times> world" where
  "h_libraries w =
     (json_answer 200 (JObj [(''items'', JArr [JObj
        [(''enabled'', JBool True), (''id'', jint synthetic_library_id),
         (''media_type'', JStr ''book''), (''name'', JStr ''Book Warehouse'')]])]), w)"

definition h_search :: "catalog_handler \<Rightarrow> env \<Rightarrow> world \<Rightarrow> api_request \<Rightarrow> api_response \<times> world" where
  "h_search h env w r =
     deduped_answer (list_books_deduped (ch_client h) env w
       ((parse_list_params r)\<lparr>lp_query := query_get r ''q''\<rparr>) 5)"

definition h_detail :: "catalog_handler \<Rightarrow> env \<Rightarrow> world \<Rightarrow> api_request \<Rightarrow> api_response \<times> world" where
  "h_detail h env w r =
     (let bid = url_param r ''id''
      in if bid = [] then (http_error ''id required'' 400, w)
         else case get_book (ch_client h) env w bid of
           (Inl e, w1) \<Rightarrow> (upstream_error, w1)
         | (Inr d, w1) \<Rightarrow> (json_answer 200 (detail_json (to_detail d)), w1))"

text \<open>The facets: the Go types print \<open>slug\<close> for genres only.\<close>

definition facet_json :: "bool \<Rightarrow> facet \<Rightarrow> json" where
  "facet_json slug f = JObj (
     [(''id'', JStr (fc_id f)), (''name'', JStr (fc_name f))]
     @ omit (\<not> slug \<or> fc_slug f = []) ''slug'' (JStr (fc_slug f))
     @ omit (fc_count f = 0) ''count'' (jint (fc_count f)))"

definition browse_handler :: "(gostring \<Rightarrow> int \<Rightarrow> facet paged res) \<Rightarrow> world \<Rightarrow> api_request \<Rightarrow> api_response \<times> world" where
  "browse_handler fetch w r =
     (case fetch (query_get r ''cursor'') (clamp_limit r 50) of
        Inl e \<Rightarrow> (upstream_error, w)
      | Inr out \<Rightarrow> (json_answer 200 (page_json (facet_json False) out), w))"

definition h_browse_authors :: "world \<Rightarrow> api_request \<Rightarrow> api_response \<times> world" where
  [simp]: "h_browse_authors w r = browse_handler list_authors w r"

definition h_browse_series :: "world \<Rightarrow> api_request \<Rightarrow> api_response \<times> world" where
  [simp]: "h_browse_series w r = browse_handler list_series w r"

definition h_browse_tags :: "world \<Rightarrow> api_request \<Rightarrow> api_response \<times> world" where
  [simp]: "h_browse_tags w r = browse_handler list_tags w r"

definition slug_as_id :: "facet \<Rightarrow> facet" where
  "slug_as_id f = (if fc_slug f \<noteq> [] then f\<lparr>fc_id := fc_slug f\<rparr> else f)"

definition h_browse_genres :: "catalog_handler \<Rightarrow> env \<Rightarrow> world \<Rightarrow> api_request \<Rightarrow> api_response \<times> world" where
  "h_browse_genres h env w r =
     (case list_genres (ch_client h) env w (query_get r ''cursor'') (clamp_limit r 50) of
        (Inl e, w1) \<Rightarrow> (upstream_error, w1)
      | (Inr out, w1) \<Rightarrow>
          (json_answer 200 (page_json (facet_json True) (out\<lparr>pg_items := map slug_as_id (pg_items out)\<rparr>)), w1))"

section \<open>Streams\<close>

definition relayed :: "gostring list \<Rightarrow> http_response \<Rightarrow> api_response" where
  "relayed ks resp = \<lparr>ap_status = hs_status resp,
     ap_headers = concat (map (\<lambda>k. let v = header_get (hs_headers resp) k in if v \<noteq> [] then [(k, v)] else []) ks),
     ap_body = hs_body resp\<rparr>"

definition cover_headers :: "gostring list" where
  "cover_headers = [''Content-Type'', ''Content-Length'', ''Etag'', ''Cache-Control'', ''Last-Modified'']"

definition file_headers :: "gostring list" where
  "file_headers = [''Content-Type'', ''Content-Length'', ''Content-Disposition'', ''Content-Range'', ''Etag'',
     ''Cache-Control'', ''Last-Modified'', ''Accept-Ranges'']"

definition token_error_answer :: "token_error \<Rightarrow> api_response" where
  "token_error_answer e =
     (if e = Secret_Unconfigured
      then json_answer 503 (JObj [(''error'', JStr ''media signing secret not configured'')])
      else json_answer 401 (JObj [(''error'', JStr (token_error_text e))]))"

definition stream_answer :: "gostring list \<Rightarrow> http_response res \<times> world \<Rightarrow> api_response \<times> world" where
  "stream_answer ks x = (case x of (Inl e, w) \<Rightarrow> (upstream_error, w) | (Inr resp, w) \<Rightarrow> (relayed ks resp, w))"

definition cover_upstream_path :: "gostring \<Rightarrow> gostring \<Rightarrow> gostring" where
  "cover_upstream_path bid sz =
     ''/api/v1/books/'' @ path_escape bid @ ''/cover/'' @ path_escape (if sz = ''large'' then ''original'' else sz)"

definition file_upstream_path :: "gostring \<Rightarrow> gostring" where
  "file_upstream_path bid = ''/api/v1/books/'' @ path_escape bid @ ''/download''"

definition h_cover ::
  "jwt_parse \<Rightarrow> catalog_handler \<Rightarrow> env \<Rightarrow> world \<Rightarrow> api_request \<Rightarrow> api_response \<times> world" where
  "h_cover parse h env w r =
     (let bid = url_param r ''book_id''; (t, w1) = now env w
      in case verify parse t (ch_secret h) (query_get r ''token'') bid cover_file_idx of
           Inl e \<Rightarrow> (token_error_answer e, w1)
         | Inr _ \<Rightarrow>
             stream_answer cover_headers
               (get_stream (ch_client h) env w1 (cover_upstream_path bid (url_param r ''size''))))"

definition h_file ::
  "jwt_parse \<Rightarrow> catalog_handler \<Rightarrow> env \<Rightarrow> world \<Rightarrow> api_request \<Rightarrow> api_response \<times> world" where
  "h_file parse h env w r =
     (let bid = url_param r ''book_id''; (t, w1) = now env w
      in case verify parse t (ch_secret h) (query_get r ''token'') bid file_file_idx of
           Inl e \<Rightarrow> (token_error_answer e, w1)
         | Inr _ \<Rightarrow>
             stream_answer file_headers
               (get_stream_with_range (ch_client h) env w1 (file_upstream_path bid)
                  (header_get (aq_headers r) ''Range'')))"

section \<open>Search in external sources, request snapshot\<close>

definition hit_json :: "search_hit \<Rightarrow> json" where
  "hit_json s = JObj (
     [(''source_id'', JStr (sh_source_id s)), (''source'', JStr (sh_source s)), (''title'', JStr (sh_title s))]
     @ omit (sh_authors s = []) ''authors'' (jstrs (sh_authors s))
     @ omit (sh_year s = 0) ''year'' (jint (sh_year s))
     @ omit (sh_language s = []) ''language'' (JStr (sh_language s))
     @ omit (sh_formats s = []) ''formats'' (jstrs (sh_formats s))
     @ omit (sh_size_bytes s = 0) ''size_bytes'' (jint (sh_size_bytes s))
     @ omit (sh_cover_url s = []) ''cover_url'' (JStr (sh_cover_url s)))"

definition h_external_search :: "catalog_handler \<Rightarrow> env \<Rightarrow> world \<Rightarrow> api_request \<Rightarrow> api_response \<times> world" where
  "h_external_search h env w r =
     (let q = query_get r ''q''
      in if q = [] then (http_error ''q required'' 400, w)
         else case external_search (ch_client h) env w q (clamp_limit r 0) of
           (Inl e, w1) \<Rightarrow> (upstream_error, w1)
         | (Inr hits, w1) \<Rightarrow> (json_answer 200 (JObj [(''items'', JArr (map hit_json hits))]), w1))"

definition snapshot_json :: "monitoring_response \<Rightarrow> json" where
  "snapshot_json m = JObj [(''external_id'', JStr (mr_id m)), (''status'', JStr (mr_status m))]"

definition h_request_snapshot :: "catalog_handler \<Rightarrow> env \<Rightarrow> world \<Rightarrow> api_request \<Rightarrow> api_response \<times> world" where
  "h_request_snapshot h env w r =
     (let eid = url_param r ''external_id''
      in if eid = [] then (http_error ''external_id required'' 400, w)
         else case get_monitoring (ch_client h) env w eid of
           (Inl e, w1) \<Rightarrow> (upstream_error, w1)
         | (Inr snap, w1) \<Rightarrow> (json_answer 200 (snapshot_json snap), w1))"

text \<open>The handler of the package \<open>request\<close>, which differs in the text of the error only.\<close>

definition request_snapshot :: "client \<Rightarrow> env \<Rightarrow> world \<Rightarrow> api_request \<Rightarrow> api_response \<times> world" where
  "request_snapshot c env w r =
     (let eid = url_param r ''external_id''
      in if eid = [] then (http_error ''external_id required'' 400, w)
         else case get_monitoring c env w eid of
           (Inl e, w1) \<Rightarrow> (http_error ''upstream request failed'' 502, w1)
         | (Inr snap, w1) \<Rightarrow> (json_answer 200 (snapshot_json snap), w1))"

section \<open>Laws\<close>

text \<open>All that a catalogue handler does to the world is to send requests, and to read the clock.\<close>

definition reads_only :: "world \<Rightarrow> world \<Rightarrow> bool" where
  "reads_only w w' \<longleftrightarrow> w_rows w' = w_rows w \<and> w_config w' = w_config w \<and> w_events w' = w_events w
     \<and> w_db w' = w_db w"

lemma sends_reads_only: "sends P n w w' \<Longrightarrow> reads_only w w'"
  by (auto simp: reads_only_def dest: sends_frame)

lemma reads_only_refl [simp]: "reads_only w w"
  by (simp add: reads_only_def)

lemma reads_only_now: "reads_only (snd (now env w)) w' \<Longrightarrow> reads_only w w'"
  by (simp add: reads_only_def)

lemma deduped_reads_only: "reads_only w (snd (snd (list_books_deduped c env w p m)))"
  unfolding list_books_deduped_def Let_def
  by (rule sends_reads_only [OF book_pages.loop_cost])

lemma deduped_answer_snd [simp]: "snd (deduped_answer x) = snd (snd x)"
  by (simp add: deduped_answer_def case_prod_beta split: option.split)

lemma stream_answer_snd [simp]: "snd (stream_answer ks x) = snd x"
  by (simp add: stream_answer_def case_prod_beta split: sum.split)

lemma deduped_answer_502:
  "ap_status (fst (deduped_answer x)) = 502 \<Longrightarrow> fst (deduped_answer x) = upstream_error"
  by (auto simp: deduped_answer_def write_envelope_def json_answer_def case_prod_beta split: option.splits)

lemma get_stream_status:
  "fst (get_stream_with_range c env w path rng) = Inr resp \<Longrightarrow> hs_status resp < 400 \<or> hs_status resp = 416"
  by (auto simp: get_stream_with_range_def split: sum.splits prod.splits if_splits)

lemma stream_502:
  "ap_status (fst (stream_answer ks (get_stream_with_range c env w path rng))) = 502 \<Longrightarrow>
   fst (stream_answer ks (get_stream_with_range c env w path rng)) = upstream_error"
  using get_stream_status [of c env w path rng]
  by (auto simp: stream_answer_def relayed_def case_prod_beta split: sum.splits)

lemma stream_answer_cases:
  obtains (err) "fst (stream_answer ks x) = upstream_error"
  | (relay) resp where "fst x = Inr resp" "fst (stream_answer ks x) = relayed ks resp"
  by (cases "fst x") (simp_all add: stream_answer_def case_prod_beta)

lemma relayed_keys: "fst ` set (ap_headers (relayed ks resp)) \<subseteq> set ks"
  by (auto simp: relayed_def Let_def split: if_splits)

lemma clamp_limit_cases: "clamp_limit r def = def \<or> (1 \<le> clamp_limit r def \<and> clamp_limit r def \<le> max_catalog_limit)"
  by (auto simp: clamp_limit_def Let_def max_catalog_limit_def split: option.split)

text \<open>The two outcomes of the token check.\<close>

definition cover_check :: "jwt_parse \<Rightarrow> catalog_handler \<Rightarrow> env \<Rightarrow> world \<Rightarrow> api_request \<Rightarrow> token_error + token_claims" where
  "cover_check parse h env w r =
     verify parse (fst (now env w)) (ch_secret h) (query_get r ''token'') (url_param r ''book_id'') cover_file_idx"

definition file_check :: "jwt_parse \<Rightarrow> catalog_handler \<Rightarrow> env \<Rightarrow> world \<Rightarrow> api_request \<Rightarrow> token_error + token_claims" where
  "file_check parse h env w r =
     verify parse (fst (now env w)) (ch_secret h) (query_get r ''token'') (url_param r ''book_id'') file_file_idx"

lemma h_cover_alt:
  "h_cover parse h env w r =
     (case cover_check parse h env w r of
        Inl e \<Rightarrow> (token_error_answer e, snd (now env w))
      | Inr _ \<Rightarrow> stream_answer cover_headers (get_stream_with_range (ch_client h) env (snd (now env w))
                   (cover_upstream_path (url_param r ''book_id'') (url_param r ''size'')) []))"
  by (simp add: h_cover_def cover_check_def case_prod_beta Let_def split: sum.split)

lemma h_file_alt:
  "h_file parse h env w r =
     (case file_check parse h env w r of
        Inl e \<Rightarrow> (token_error_answer e, snd (now env w))
      | Inr _ \<Rightarrow> stream_answer file_headers (get_stream_with_range (ch_client h) env (snd (now env w))
                   (file_upstream_path (url_param r ''book_id'')) (header_get (aq_headers r) ''Range'')))"
  by (simp add: h_file_def file_check_def case_prod_beta Let_def)

lemma token_error_status: "ap_status (token_error_answer e) \<in> {401, 503}"
  by (simp add: token_error_answer_def json_answer_def)

lemma cover_gate:
  "(\<exists>c. cover_check parse h env w r = Inr c)
   \<or> (w_http (snd (h_cover parse h env w r)) = w_http w \<and> ap_status (fst (h_cover parse h env w r)) \<in> {401, 503})"
proof (cases "cover_check parse h env w r")
  case (Inl e)
  then have "h_cover parse h env w r = (token_error_answer e, snd (now env w))"
    by (simp only: h_cover_alt sum.case)
  then show ?thesis using token_error_status [of e] by simp
qed blast

lemma file_gate:
  "(\<exists>c. file_check parse h env w r = Inr c)
   \<or> (w_http (snd (h_file parse h env w r)) = w_http w \<and> ap_status (fst (h_file parse h env w r)) \<in> {401, 503})"
proof (cases "file_check parse h env w r")
  case (Inl e)
  then have "h_file parse h env w r = (token_error_answer e, snd (now env w))"
    by (simp only: h_file_alt sum.case)
  then show ?thesis using token_error_status [of e] by simp
qed blast

text \<open>Every 502 is the generic one.\<close>

definition generic_502 :: "api_response \<Rightarrow> bool" where
  "generic_502 a \<longleftrightarrow> (ap_status a = 502 \<longrightarrow> a = http_error ''upstream unavailable'' 502)"

lemma generic_simps [simp]:
  "generic_502 upstream_error" "c \<noteq> 502 \<Longrightarrow> generic_502 (json_answer c j)"
  "c \<noteq> 502 \<Longrightarrow> generic_502 (http_error m c)" "generic_502 (write_envelope p)"
  "generic_502 (token_error_answer e)"
  by (simp_all add: generic_502_def upstream_error_def json_answer_def http_error_def write_envelope_def
      token_error_answer_def)

lemma generic_deduped: "generic_502 (fst (deduped_answer x))"
  by (simp add: deduped_answer_def case_prod_beta split: option.split)

lemma generic_stream: "generic_502 (fst (stream_answer ks (get_stream_with_range c env w path rng)))"
  using stream_502 [of ks c env w path rng] by (simp add: generic_502_def upstream_error_def)

lemma generic_list: "generic_502 (fst (h_list h env w r))" "generic_502 (fst (h_search h env w r))"
  by (simp_all add: h_list_def h_search_def Let_def generic_deduped)

lemma generic_calls:
  "generic_502 (fst (h_detail h env w r))" "generic_502 (fst (h_browse_genres h env w r))"
  "generic_502 (fst (h_external_search h env w r))" "generic_502 (fst (h_request_snapshot h env w r))"
  by (simp_all add: h_detail_def h_browse_genres_def h_external_search_def h_request_snapshot_def
      Let_def case_prod_beta split: sum.split)

lemma generic_media: "generic_502 (fst (h_cover parse h env w r))" "generic_502 (fst (h_file parse h env w r))"
  by (simp_all add: h_cover_alt h_file_alt generic_stream split: sum.split)

lemma reads_only_handlers:
  "reads_only w (snd (h_list h env w r))" "reads_only w (snd (h_search h env w r))"
  "reads_only w (snd (h_detail h env w r))" "reads_only w (snd (h_browse_genres h env w r))"
  "reads_only w (snd (h_cover parse h env w r))" "reads_only w (snd (h_file parse h env w r))"
  "reads_only w (snd (h_external_search h env w r))" "reads_only w (snd (h_request_snapshot h env w r))"
  using deduped_reads_only sends_reads_only [OF get_book_sends] sends_reads_only [OF list_genres_sends]
    reads_only_now [OF sends_reads_only [OF get_stream_sends]] reads_only_now [OF reads_only_refl]
    sends_reads_only [OF external_search_sends] sends_reads_only [OF get_monitoring_sends]
  by (simp_all add: h_list_def h_search_def h_detail_def h_browse_genres_def h_cover_alt h_file_alt
      h_external_search_def h_request_snapshot_def Let_def case_prod_beta split: sum.split)

text \<open>What an answer of a media route can be.\<close>

definition media_answer :: "gostring list \<Rightarrow> api_response \<Rightarrow> bool" where
  "media_answer ks a \<longleftrightarrow> (\<exists>e. a = token_error_answer e) \<or> a = upstream_error
     \<or> (\<exists>resp. (hs_status resp < 400 \<or> hs_status resp = 416) \<and> a = relayed ks resp)"

lemma media_stream: "media_answer ks (fst (stream_answer ks (get_stream_with_range c env v path rng)))"
proof (cases ks "get_stream_with_range c env v path rng" rule: stream_answer_cases)
  case (relay resp)
  then show ?thesis
    using get_stream_status [OF relay(1)] unfolding media_answer_def relay(2)
    by - (rule disjI2, rule disjI2, rule exI [of _ resp], rule conjI, assumption, rule refl)
qed (simp add: media_answer_def)

lemma cover_answer_cases: "media_answer cover_headers (fst (h_cover parse h env w r))"
proof (cases "cover_check parse h env w r")
  case (Inl e)
  then show ?thesis by (simp only: h_cover_alt sum.case fst_conv media_answer_def) blast
qed (simp only: h_cover_alt sum.case media_stream)

lemma file_answer_cases: "media_answer file_headers (fst (h_file parse h env w r))"
proof (cases "file_check parse h env w r")
  case (Inl e)
  then show ?thesis by (simp only: h_file_alt sum.case fst_conv media_answer_def) blast
qed (simp only: h_file_alt sum.case media_stream)

lemma relayed_listed:
  assumes "''Content-Type'' \<in> set ks" and "media_answer ks a"
  shows "fst ` set (ap_headers a) \<subseteq> set ks \<union> {''X-Content-Type-Options''}
    \<and> (ap_status a < 400 \<or> ap_status a \<in> {401, 416, 502, 503})"
  using assms(2) unfolding media_answer_def
proof (elim disjE exE conjE)
  fix e assume "a = token_error_answer e"
  then show ?thesis
    using assms(1) token_error_status [of e] by (auto simp: token_error_answer_def json_answer_def)
next
  assume "a = upstream_error"
  then show ?thesis using assms(1) by (simp add: upstream_error_def http_error_def)
next
  fix resp assume "a = relayed ks resp" "hs_status resp < 400"
  then show ?thesis using relayed_keys [of ks resp] by (auto simp: relayed_def)
next
  fix resp assume "a = relayed ks resp" "hs_status resp = 416"
  then show ?thesis using relayed_keys [of ks resp] by (auto simp: relayed_def)
qed

section \<open>Properties\<close>

text \<open>
  C16. The media gate. A cover or file request either carries a token that \<open>Verify\<close> accepts for this
  book and for the index of the route, or it is answered 401 or 503 and upstream gets no request.
\<close>

theorem media_gate:
  "((\<exists>c. verify parse (fst (now env w)) (ch_secret h) (query_get r ''token'') (url_param r ''book_id'') cover_file_idx = Inr c)
    \<or> (w_http (snd (h_cover parse h env w r)) = w_http w \<and> ap_status (fst (h_cover parse h env w r)) \<in> {401, 503}))
   \<and> ((\<exists>c. verify parse (fst (now env w)) (ch_secret h) (query_get r ''token'') (url_param r ''book_id'') file_file_idx = Inr c)
    \<or> (w_http (snd (h_file parse h env w r)) = w_http w \<and> ap_status (fst (h_file parse h env w r)) \<in> {401, 503}))"
  using cover_gate [of parse h env w r] file_gate [of parse h env w r]
  unfolding cover_check_def file_check_def by (rule conjI)

text \<open>
  What a stream passes on: the status is below 400 or 416 (or the handler's own 401, 502 or 503), and
  of upstream's headers only those on the list of the route, so neither cookies nor any other
  header of upstream reaches the browser.
\<close>

lemma stream_relays_listed:
  "fst ` set (ap_headers (fst (h_cover parse h env w r))) \<subseteq> set cover_headers \<union> {''X-Content-Type-Options''}
   \<and> fst ` set (ap_headers (fst (h_file parse h env w r))) \<subseteq> set file_headers \<union> {''X-Content-Type-Options''}
   \<and> (ap_status (fst (h_file parse h env w r)) < 400 \<or> ap_status (fst (h_file parse h env w r)) \<in> {401, 416, 502, 503})"
proof -
  have ct: "''Content-Type'' \<in> set cover_headers" "''Content-Type'' \<in> set file_headers"
    by (simp_all add: cover_headers_def file_headers_def)
  show ?thesis
    using cover_answer_cases [of parse h env w r] file_answer_cases [of parse h env w r]
      relayed_listed [OF ct(1)] relayed_listed [OF ct(2)] by blast
qed

text \<open>
  The parameters that reach upstream are tame: the limit is 0 (none) or between 1 and 100 whatever
  the caller sends, and sort and order are empty or a word of the allow-list.
\<close>

lemma list_params_tame:
  "0 \<le> lp_limit (parse_list_params r) \<and> lp_limit (parse_list_params r) \<le> 100
   \<and> lp_sort (parse_list_params r) \<in> set ([] # sort_keys)
   \<and> lp_order (parse_list_params r) \<in> {[], ''asc'', ''desc''}
   \<and> 1 \<le> clamp_limit r 50 \<and> clamp_limit r 50 \<le> 100"
  using clamp_limit_cases [of r 0] clamp_limit_cases [of r 50]
  by (auto simp: parse_list_params_def Let_def max_catalog_limit_def)

text \<open>
  A request scoped to another library than the one this backend has gets an empty page, and
  upstream is not called at all.
\<close>

lemma foreign_library_empty:
  assumes "atoi (query_get r ''library_id'') = Some n" and "n \<noteq> synthetic_library_id"
  shows "h_list h env w r = (write_envelope empty_page, w)"
proof -
  have "query_get r ''library_id'' \<noteq> []" using assms(1) by (auto simp: atoi_def parse_uint_def)
  then show ?thesis using assms by (simp add: h_list_def foreign_library_def Let_def)
qed

definition sample_query :: "(gostring \<times> gostring) list \<Rightarrow> api_request" where
  "sample_query q = \<lparr>aq_query = q, aq_headers = [], aq_params = [], aq_body = []\<rparr>"

definition sample_handler :: catalog_handler where
  "sample_handler = \<lparr>ch_client = sample_client, ch_secret = ''s!''\<rparr>"

theorem foreign_library_empty_witness:
  "h_list sample_handler calm_env empty_world (sample_query [(''library_id'', ''7'')])
     = (write_envelope empty_page, empty_world)"
proof (rule foreign_library_empty)
  show "atoi (query_get (sample_query [(''library_id'', ''7'')]) ''library_id'') = Some 7"
    by (simp add: query_get_def sample_query_def atoi_def parse_uint_def digit_val_def is_digit_def int64_defs)
qed (simp add: synthetic_library_id_def)

text \<open>
  The API reads only and keeps its secrets: no handler touches the tables or publishes an event, and
  a 502 has the same fixed text whatever upstream's error was, so neither the internal URL nor
  upstream's body leaks to the caller.
\<close>

lemma api_reads_only:
  "reads_only w (snd (h_list h env w r)) \<and> reads_only w (snd (h_search h env w r))
   \<and> reads_only w (snd (h_detail h env w r)) \<and> reads_only w (snd (h_browse_genres h env w r))
   \<and> reads_only w (snd (h_cover parse h env w r)) \<and> reads_only w (snd (h_file parse h env w r))
   \<and> reads_only w (snd (h_external_search h env w r)) \<and> reads_only w (snd (h_request_snapshot h env w r))
   \<and> (\<forall>a \<in> {fst (h_list h env w r), fst (h_search h env w r), fst (h_detail h env w r),
          fst (h_browse_genres h env w r), fst (h_cover parse h env w r), fst (h_file parse h env w r),
          fst (h_external_search h env w r), fst (h_request_snapshot h env w r)}.
        ap_status a = 502 \<longrightarrow> a = http_error ''upstream unavailable'' 502)"
proof -
  have "generic_502 a"
    if mem: "a \<in> {fst (h_list h env w r), fst (h_search h env w r), fst (h_detail h env w r),
          fst (h_browse_genres h env w r), fst (h_cover parse h env w r), fst (h_file parse h env w r),
          fst (h_external_search h env w r), fst (h_request_snapshot h env w r)}" for a
    using mem by (elim insertE emptyE) (simp_all only: generic_list generic_calls generic_media)
  then show ?thesis
    unfolding generic_502_def using reads_only_handlers by (intro conjI ballI) simp_all
qed

lemma api_reads_only_example:
  "reads_only empty_world (snd (h_list sample_handler calm_env empty_world (sample_query [])))"
  using api_reads_only [where h = sample_handler and env = calm_env and w = empty_world
      and r = "sample_query []" and parse = "sample_parse f64_zero"] by (rule conjunct1)

end
