(* ===== verification/HttpRoutes.thy ===== *)
theory HttpRoutes
  imports CatalogApi
begin

text \<open>
  internal/httproutes/server.go: the adapter between the host's HTTP call and the plugin's router.
  The router is a parameter: a function of its own state and the request it is given, whose answer
  \<open>None\<close> is a panic. A nil router is the handler that was not set.

  Of net/http and net/url it models what decides which request the router sees: the textual URL
  that is built from the path and parsed again, the canonical header names and the decoded query.
  A number of a query parameter is finite.
\<close>

section \<open>Requests\<close>

record host_request =
  hr_method :: gostring
  hr_path :: gostring
  hr_query :: "(gostring \<times> any) list option"
  hr_headers :: "(gostring \<times> gostring) list"
  hr_body :: gostring

record routed_request =
  rr_method :: gostring
  rr_path :: gostring
  rr_request :: api_request

type_synonym 's router = "'s \<Rightarrow> routed_request \<Rightarrow> api_response option \<times> 's"

section \<open>The method\<close>

definition token_delims :: gostring where
  "token_delims = ''()<>@,;:'' @ [CHR 0x5C, CHR 0x22] @ ''/[]?={} '' @ [CHR 0x09]"

definition is_http_token :: "gostring \<Rightarrow> bool" where
  "is_http_token s \<longleftrightarrow> s \<noteq> [] \<and>
     list_all (\<lambda>(r, bs). \<not> (r < 0x21 \<or> 0x7E < r \<or> r \<in> byte_of ` set token_delims)) (runes s)"

section \<open>Answers of the adapter\<close>

definition max_body_bytes :: nat where
  "max_body_bytes = 8388608"

definition json_headers :: headers where
  "json_headers = [(''Content-Type'', ''application/json'')]"

definition quoted :: "gostring \<Rightarrow> gostring" where
  "quoted s = [CHR 0x22] @ s @ [CHR 0x22]"

definition err_response :: "int \<Rightarrow> gostring \<Rightarrow> api_response" where
  "err_response code msg = \<lparr>ap_status = code, ap_headers = json_headers,
     ap_body = ''{'' @ quoted ''error'' @ '':{'' @ quoted ''message'' @ '':'' @ quoted msg @ ''}}''\<rparr>"

definition not_ready :: api_response where
  "not_ready = \<lparr>ap_status = 503, ap_headers = json_headers,
     ap_body = ''{'' @ quoted ''error'' @ '':{'' @ quoted ''code'' @ '':'' @ quoted ''not_ready'' @ '',''
       @ quoted ''message'' @ '':'' @ quoted ''plugin not configured'' @ ''}}''\<rparr>"

section \<open>Building the request\<close>

text \<open>A string, number or boolean becomes a parameter, anything else is dropped.\<close>

definition query_value :: "any \<Rightarrow> gostring option" where
  "query_value v =
     (case v of AStr s \<Rightarrow> Some s | ANum f \<Rightarrow> Some (format_float f)
      | ABool b \<Rightarrow> Some (if b then ''true'' else ''false'') | _ \<Rightarrow> None)"

definition query_params :: "(gostring \<times> any) list option \<Rightarrow> (gostring \<times> gostring) list" where
  "query_params q =
     (case q of
        None \<Rightarrow> []
      | Some fs \<Rightarrow> concat (map (\<lambda>(k, v). case query_value v of None \<Rightarrow> [] | Some s \<Rightarrow> [(k, s)]) fs))"

text \<open>
  \<open>u.String()\<close> for a URL of a path and a query: the path escaped, and \<open>./\<close> in front when its first
  segment holds a colon.
\<close>

definition escape_path :: "gostring \<Rightarrow> gostring" where
  "escape_path p =
     (if p = ''*'' then p
      else concat (map (\<lambda>c. if unreserved c \<or> c \<in> set ''$&+,/:;=@'' then [c] else percent c) p))"

definition dot_prefix :: "gostring \<Rightarrow> gostring" where
  "dot_prefix p = (if CHR '':'' \<in> set (takeWhile (\<lambda>c. c \<noteq> CHR ''/'') p) then ''./'' else [])"

definition url_text :: "gostring \<Rightarrow> (gostring \<times> gostring) list \<Rightarrow> gostring" where
  "url_text p q = dot_prefix p @ escape_path p @ (if q = [] then [] else ''?'' @ values_encode q)"

text \<open>
  The path that parsing the text gives back. Two leading slashes begin an authority (three do not),
  so the path begins behind it.
\<close>

definition parsed_path :: "gostring \<Rightarrow> gostring" where
  "parsed_path p =
     (if has_prefix ''//'' p \<and> \<not> has_prefix ''///'' p then dropWhile (\<lambda>c. c \<noteq> CHR ''/'') (drop 2 p)
      else dot_prefix p @ p)"

text \<open>\<open>http.CanonicalHeaderKey\<close>: a name with a byte that is no token byte is kept.\<close>

definition upper_byte :: "char \<Rightarrow> char" where
  "upper_byte c = (if 97 \<le> byte_of c \<and> byte_of c \<le> 122 then char_of (byte_of c - 32) else c)"

definition lower_byte :: "char \<Rightarrow> char" where
  "lower_byte c = (if 65 \<le> byte_of c \<and> byte_of c \<le> 90 then char_of (byte_of c + 32) else c)"

fun canonical_scan :: "bool \<Rightarrow> gostring \<Rightarrow> gostring" where
  "canonical_scan up [] = []"
| "canonical_scan up (c # cs) =
     (if up then upper_byte c else lower_byte c) # canonical_scan (c = CHR ''-'') cs"

definition tchar :: "char \<Rightarrow> bool" where
  "tchar c \<longleftrightarrow> is_letter c \<or> is_digit c \<or> c \<in> set ''!#$%&*+-.^_|~'' \<or> byte_of c \<in> {39, 96}"

definition canonical_key :: "gostring \<Rightarrow> gostring" where
  "canonical_key k = (if list_all tchar k then canonical_scan True k else k)"

definition set_headers :: "(gostring \<times> gostring) list \<Rightarrow> headers" where
  "set_headers hs = fold (\<lambda>(k, v) acc. header_set (canonical_key k) v acc) hs []"

definition effective_method :: "host_request \<Rightarrow> gostring" where
  "effective_method req = (if hr_method req = [] then ''GET'' else hr_method req)"

definition routed :: "host_request \<Rightarrow> routed_request" where
  "routed req = \<lparr>rr_method = effective_method req, rr_path = parsed_path (hr_path req),
     rr_request = \<lparr>aq_query = query_params (hr_query req), aq_headers = set_headers (hr_headers req),
       aq_params = [], aq_body = hr_body req\<rparr>\<rparr>"

definition url_accepted :: "host_request \<Rightarrow> bool" where
  "url_accepted req \<longleftrightarrow> is_ok (url_parse (url_text (hr_path req) (query_params (hr_query req))))"

section \<open>Handle\<close>

definition handle_http :: "'s router option \<Rightarrow> host_request \<Rightarrow> 's \<Rightarrow> api_response \<times> 's" where
  "handle_http handler req s =
     (case handler of
        None \<Rightarrow> (not_ready, s)
      | Some h \<Rightarrow>
          if max_body_bytes < length (hr_body req) then (err_response 413 ''request body too large'', s)
          else if \<not> is_http_token (effective_method req) then (err_response 400 ''invalid method'', s)
          else if \<not> url_accepted req then (err_response 400 ''invalid request'', s)
          else (case h s (routed req) of
                  (None, s1) \<Rightarrow> (err_response 500 ''internal error'', s1)
                | (Some a, s1) \<Rightarrow> (a, s1)))"

section \<open>Laws\<close>

lemma delim_bytes: "byte_of ` set token_delims =
  {40, 41, 60, 62, 64, 44, 59, 58, 92, 34, 47, 91, 93, 63, 61, 123, 125, 32, 9}"
  by (simp add: token_delims_def insert_commute)

lemma tchar_bytes: "tchar c \<longleftrightarrow> 65 \<le> byte_of c \<and> byte_of c \<le> 90 \<or> 97 \<le> byte_of c \<and> byte_of c \<le> 122
    \<or> 48 \<le> byte_of c \<and> byte_of c \<le> 57
    \<or> byte_of c \<in> {33, 35, 36, 37, 38, 42, 43, 45, 46, 94, 95, 124, 126, 39, 96}"
proof -
  have mem: "c \<in> set s \<longleftrightarrow> byte_of c \<in> byte_of ` set s" for s
    by (auto simp: inj_image_mem_iff)
  have "c \<in> set ''!#$%&*+-.^_|~'' \<longleftrightarrow> byte_of c \<in> {33, 35, 36, 37, 38, 42, 43, 45, 46, 94, 95, 124, 126}"
    unfolding mem by simp
  then show ?thesis by (auto simp: tchar_def is_letter_def is_digit_def Let_def)
qed

lemma tchar_byte:
  "tchar c \<longleftrightarrow> 33 \<le> byte_of c \<and> byte_of c \<le> 126 \<and> byte_of c \<notin> byte_of ` set token_delims"
  unfolding tchar_bytes delim_bytes insert_iff empty_iff by presburger

section \<open>Properties\<close>

text \<open>
  C31. \<open>isHTTPToken\<close> accepts exactly the method tokens of RFC 7230, so no method reaches the router that
  net/http would not accept: a byte above ASCII, valid or not, is never part of one.
\<close>

theorem http_token_rfc7230: "is_http_token s \<longleftrightarrow> s \<noteq> [] \<and> list_all tchar s"
proof -
  have "list_all (\<lambda>(r, bs). \<not> (r < 0x21 \<or> 0x7E < r \<or> r \<in> byte_of ` set token_delims)) (runes s)
      \<longleftrightarrow> list_all tchar s"
  proof (induction s)
    case (Cons c cs)
    show ?case
    proof (cases "byte_of c < 0x80")
      case True
      then show ?thesis using Cons tchar_byte [of c] by (auto simp: not_less)
    next
      case False
      then obtain r w where r: "runes (c # cs) = (r, c # take w cs) # runes (drop w cs)" "0x80 \<le> r"
        using runes_nonascii [of c cs] by (metis not_less)
      then show ?thesis using False by (simp add: r(1) tchar_byte)
    qed
  qed simp
  then show ?thesis unfolding is_http_token_def by simp
qed

text \<open>
  C30. The adapter answers every call. Without a router it is not ready; a body above 8 MiB, a method that
  is no token and a URL that does not parse are refused before the router runs; otherwise the
  answer is the router's own, and a panic of the router becomes the fixed 500.
\<close>

theorem adapter_contract:
  "case handle_http handler req s of (a, s') \<Rightarrow>
     (case handler of
        None \<Rightarrow> a = not_ready \<and> s' = s
      | Some h \<Rightarrow>
          if length (hr_body req) \<le> 8388608 \<and> (hr_method req = [] \<or> list_all tchar (hr_method req)) \<and> url_accepted req
          then s' = snd (h s (routed req))
            \<and> a = (case fst (h s (routed req)) of None \<Rightarrow> err_response 500 ''internal error'' | Some x \<Rightarrow> x)
          else s' = s \<and> ap_status a \<in> {400, 413})"
proof (cases handler)
  case (Some h)
  have get: "is_http_token ''GET''" by (simp add: http_token_rfc7230 tchar_def is_letter_def)
  have m: "is_http_token (effective_method req) \<longleftrightarrow> hr_method req = [] \<or> list_all tchar (hr_method req)"
    using get by (simp add: effective_method_def http_token_rfc7230)
  show ?thesis
    using Some m by (auto simp: handle_http_def max_body_bytes_def err_response_def case_prod_beta
        split: option.split)
qed (simp add: handle_http_def)

text \<open>
  A path that begins with two slashes loses its first segment: the adapter writes it into a URL and
  parses that again, where the segment is read as a host. The router therefore cannot tell
  \<open>//x/api\<close> from \<open>/api\<close>, although the host of the plugin sees two different paths.
\<close>

lemma double_slash_path:
  assumes "hr_path req = ''//'' @ seg @ ''/'' @ p" and "CHR ''/'' \<notin> set seg" and "seg \<noteq> []"
    and "url_accepted req" and "url_accepted (req\<lparr>hr_path := ''/'' @ p\<rparr>)" and "\<not> has_prefix ''/'' p"
  shows "handle_http (Some h) req s = handle_http (Some h) (req\<lparr>hr_path := ''/'' @ p\<rparr>) s"
proof -
  have "\<not> has_prefix ''///'' (''//'' @ seg @ ''/'' @ p)"
    using assms(2,3) by (cases seg) (auto simp: has_prefix_def)
  moreover have "has_prefix ''//'' (''//'' @ seg @ ''/'' @ p)" by (rule has_prefixI)
  moreover have "\<not> has_prefix ''//'' (''/'' @ p)" using assms(6) by (cases p) (auto simp: has_prefix_def)
  moreover have "dropWhile (\<lambda>c. c \<noteq> CHR ''/'') (seg @ ''/'' @ p) = ''/'' @ p"
    using assms(2) by (simp add: dropWhile_append)
  ultimately have "parsed_path (''//'' @ seg @ ''/'' @ p) = parsed_path (''/'' @ p)"
    by (simp add: parsed_path_def dot_prefix_def)
  then have "routed req = routed (req\<lparr>hr_path := ''/'' @ p\<rparr>)"
    using assms(1) by (simp add: routed_def effective_method_def)
  then show ?thesis using assms(4,5) by (simp add: handle_http_def effective_method_def)
qed

definition slash_request :: host_request where
  "slash_request = \<lparr>hr_method = [], hr_path = ''//x/api'', hr_query = None, hr_headers = [], hr_body = []\<rparr>"

definition echo_router :: "unit router" where
  "echo_router = (\<lambda>s r. (Some (http_error (rr_path r) 200), s))"

lemma double_slash_path_example:
  "handle_http (Some echo_router) slash_request () = handle_http (Some echo_router) (slash_request\<lparr>hr_path := ''/api''\<rparr>) ()"
proof -
  have "url_accepted slash_request" "url_accepted (slash_request\<lparr>hr_path := ''/api''\<rparr>)"
    by (simp_all add: url_accepted_def slash_request_def url_text_def dot_prefix_def escape_path_def
        query_params_def url_parse_eval Let_def)
  then show ?thesis
    using double_slash_path [of slash_request "''x''" "''api''" echo_router "()"]
    by (simp add: slash_request_def has_prefix_def)
qed

end
