(* ===== verification/Store.thy ===== *)
theory Store
  imports World
begin

text \<open>
  internal/store/request.go: the operations on \<open>forwarded_request\<close> as the program calls them, with
  their guards, the conversion between Go values and nullable columns, and the database's faults.
\<close>

section \<open>The Go struct and the row\<close>

record forwarded_request =
  fr_request_id :: gostring
  fr_external_id :: gostring
  fr_status :: gostring
  fr_last_polled :: int
  fr_error_text :: gostring
  fr_auto_monitor :: bool
  fr_created_at :: int
  fr_updated_at :: int

definition zero_request :: forwarded_request where
  "zero_request = \<lparr>fr_request_id = [], fr_external_id = [], fr_status = [], fr_last_polled = 0,
     fr_error_text = [], fr_auto_monitor = False, fr_created_at = 0, fr_updated_at = 0\<rparr>"

text \<open>\<open>nil\<close> for the zero value, and \<open>COALESCE(column, zero)\<close> back.\<close>

definition str_ptr :: "gostring \<Rightarrow> gostring option" where
  "str_ptr s = (if s = [] then None else Some s)"

definition time_ptr :: "int \<Rightarrow> int option" where
  "time_ptr t = (if t = 0 then None else Some t)"

definition or_zero :: "'a \<Rightarrow> 'a option \<Rightarrow> 'a" where
  "or_zero z x = (case x of None \<Rightarrow> z | Some v \<Rightarrow> v)"

lemma ptr_simps [simp]:
  "str_ptr [] = None" "s \<noteq> [] \<Longrightarrow> str_ptr s = Some s" "time_ptr 0 = None" "t \<noteq> 0 \<Longrightarrow> time_ptr t = Some t"
  "or_zero z None = z" "or_zero z (Some v) = v" "str_ptr s \<noteq> Some []"
  by (simp_all add: str_ptr_def time_ptr_def or_zero_def)

lemma or_zero_ptr [simp]: "or_zero [] (str_ptr s) = s" "or_zero 0 (time_ptr t) = t"
  by (simp_all add: str_ptr_def time_ptr_def or_zero_def)

definition to_row :: "int \<Rightarrow> forwarded_request \<Rightarrow> forwarded_row" where
  \<comment> \<open>\<open>created_at\<close> is not among the inserted columns: it is the database's \<open>now()\<close>\<close>
  "to_row t r = \<lparr>request_id = fr_request_id r, external_id = str_ptr (fr_external_id r),
     status = fr_status r, last_polled = time_ptr (fr_last_polled r),
     error_text = str_ptr (fr_error_text r), auto_monitor = fr_auto_monitor r,
     created_at = t, updated_at = fr_updated_at r\<rparr>"

definition scan_row :: "forwarded_row \<Rightarrow> forwarded_request" where
  "scan_row r = \<lparr>fr_request_id = request_id r, fr_external_id = or_zero [] (external_id r),
     fr_status = status r, fr_last_polled = or_zero 0 (last_polled r),
     fr_error_text = or_zero [] (error_text r), fr_auto_monitor = auto_monitor r,
     fr_created_at = created_at r, fr_updated_at = updated_at r\<rparr>"

lemma to_row_simps [simp]:
  "request_id (to_row t r) = fr_request_id r" "external_id (to_row t r) = str_ptr (fr_external_id r)"
  "status (to_row t r) = fr_status r" "error_text (to_row t r) = str_ptr (fr_error_text r)"
  "last_polled (to_row t r) = time_ptr (fr_last_polled r)" "auto_monitor (to_row t r) = fr_auto_monitor r"
  "created_at (to_row t r) = t" "updated_at (to_row t r) = fr_updated_at r"
  by (simp_all add: to_row_def)

lemma scan_row_simps [simp]:
  "fr_request_id (scan_row r) = request_id r" "fr_external_id (scan_row r) = or_zero [] (external_id r)"
  "fr_status (scan_row r) = status r"
  by (simp_all add: scan_row_def)

section \<open>Operations\<close>

definition wrap_err :: "gostring \<Rightarrow> 'a res \<times> world \<Rightarrow> 'a res \<times> world" where
  "wrap_err p rw = (case rw of (Inl e, w) \<Rightarrow> (Inl (p @ e), w) | (Inr x, w) \<Rightarrow> (Inr x, w))"

lemma wrap_err_simps [simp]: "snd (wrap_err p rw) = snd rw" "is_ok (fst (wrap_err p rw)) = is_ok (fst rw)"
  "fst (wrap_err p rw) = Inr x \<longleftrightarrow> fst rw = Inr x"
  by (auto simp: wrap_err_def split: prod.split sum.split)

definition upsert_forwarded_request :: "env \<Rightarrow> world \<Rightarrow> forwarded_request \<Rightarrow> unit res \<times> world" where
  "upsert_forwarded_request env w r =
     (if fr_request_id r = [] then (Inl ''request_id required'', w)
      else
        let (upd, w1) = (if fr_updated_at r = 0 then now env w else (fr_updated_at r, w));
            (db_now, w2) = now env w1
        in wrap_err ''upsert forwarded_request: ''
             (db_exec env (Upsert (to_row db_now (r\<lparr>fr_updated_at := upd\<rparr>))) w2))"

definition mark_polled ::
  "env \<Rightarrow> world \<Rightarrow> gostring \<Rightarrow> gostring \<Rightarrow> gostring \<Rightarrow> int \<Rightarrow> unit res \<times> world" where
  "mark_polled env w rid ext st polled_at =
     (if rid = [] then (Inl ''request_id required'', w)
      else
        let (t, w1) = (if polled_at = 0 then now env w else (polled_at, w))
        in wrap_err ''mark polled: '' (db_exec env (Mark_Polled rid (str_ptr ext) st t) w1))"

definition err_not_found :: gostring where
  "err_not_found = ''not found''"

definition get_forwarded_request :: "env \<Rightarrow> world \<Rightarrow> gostring \<Rightarrow> forwarded_request res \<times> world" where
  "get_forwarded_request env w rid =
     (case db_query_row env w of
        (Inl e, w1) \<Rightarrow> (Inl (''get forwarded_request: '' @ e), w1)
      | (Inr _, w1) \<Rightarrow>
          (case row_at (w_rows w1) rid of
             None \<Rightarrow> (Inl err_not_found, w1)
           | Some r \<Rightarrow> (Inr (scan_row r), w1)))"

text \<open>
  The loop over \<open>rows.Next()\<close> ends when the answer is cut, and \<open>rows.Err()\<close> is not asked: the
  rows read so far are returned as if they were all.
\<close>

definition list_non_terminal :: "env \<Rightarrow> world \<Rightarrow> int \<Rightarrow> forwarded_request list res \<times> world" where
  "list_non_terminal env w lim =
     (let n = nat (if lim \<le> 0 then 100 else lim)
      in case db_query env w of
           (Inl e, w1) \<Rightarrow> (Inl (''list non-terminal: '' @ e), w1)
         | (Inr stop, w1) \<Rightarrow>
             (let rows = map scan_row (sql_list (e_collate env) n (w_rows w1))
              in (Inr (case stop of None \<Rightarrow> rows | Some k \<Rightarrow> take k rows), w1)))"

record request_stats =
  st_total :: int
  st_active :: int
  st_failed :: int
  st_imported :: int
  st_with_errors :: int
  st_unsubmitted :: int

definition stats_of :: "table \<Rightarrow> request_stats" where
  "stats_of rows = \<lparr>
     st_total = count_where (\<lambda>_. True) rows,
     st_active = count_where (\<lambda>r. \<not> terminal (status r)) rows,
     st_failed = count_where (\<lambda>r. status r = ''failed'') rows,
     st_imported = count_where (\<lambda>r. status r = ''imported'') rows,
     st_with_errors = count_where (\<lambda>r. \<not> text_empty (error_text r)) rows,
     st_unsubmitted = count_where (\<lambda>r. text_empty (external_id r) \<and> \<not> terminal (status r)) rows\<rparr>"

definition request_stats :: "env \<Rightarrow> world \<Rightarrow> request_stats res \<times> world" where
  "request_stats env w =
     (case db_query_row env w of
        (Inl e, w1) \<Rightarrow> (Inl (''request stats: '' @ e), w1)
      | (Inr _, w1) \<Rightarrow> (Inr (stats_of (w_rows w1)), w1))"

section \<open>Laws\<close>

lemma upsert_frame [simp]:
  "w_http (snd (upsert_forwarded_request env w r)) = w_http w"
  "w_events (snd (upsert_forwarded_request env w r)) = w_events w"
  "w_config (snd (upsert_forwarded_request env w r)) = w_config w"
  by (simp_all add: upsert_forwarded_request_def split: prod.split)
    (simp_all add: now_def)

lemma mark_polled_frame [simp]:
  "w_http (snd (mark_polled env w rid ext st t)) = w_http w"
  "w_events (snd (mark_polled env w rid ext st t)) = w_events w"
  "w_config (snd (mark_polled env w rid ext st t)) = w_config w"
  by (simp_all add: mark_polled_def now_def split: prod.split)

lemma list_non_terminal_frame [simp]:
  "w_http (snd (list_non_terminal env w n)) = w_http w"
  "w_events (snd (list_non_terminal env w n)) = w_events w"
  "w_config (snd (list_non_terminal env w n)) = w_config w"
  "w_rows (snd (list_non_terminal env w n)) = w_rows w"
  by (simp_all add: list_non_terminal_def Let_def case_prod_beta split: sum.split)

text \<open>The statement an operation executes, when it executes one.\<close>

lemma upsert_wrote:
  assumes "\<And>t u. P (Upsert (to_row t (r\<lparr>fr_updated_at := u\<rparr>)))"
  shows "wrote P w (snd (upsert_forwarded_request env w r))"
proof (cases "fr_request_id r = []")
  case False
  obtain upd w1 where u: "(if fr_updated_at r = 0 then now env w else (fr_updated_at r, w)) = (upd, w1)"
    by (metis surj_pair)
  obtain t w2 where n: "now env w1 = (t, w2)" by (metis surj_pair)
  have "w_rows w2 = w_rows w"
    using u now_rows [OF n] by (auto dest: now_rows split: if_splits)
  moreover have "wrote P w2 (snd (db_exec env (Upsert (to_row t (r\<lparr>fr_updated_at := upd\<rparr>))) w2))"
    using assms by (rule db_exec_wrote)
  ultimately have "wrote P w (snd (db_exec env (Upsert (to_row t (r\<lparr>fr_updated_at := upd\<rparr>))) w2))"
    by (rule wrote_cong [OF _ refl])
  then show ?thesis
    using False by (simp add: upsert_forwarded_request_def u n)
qed (simp add: upsert_forwarded_request_def wrote_same)

lemma mark_polled_wrote:
  assumes "\<And>t. P (Mark_Polled rid (str_ptr ext) st t)"
  shows "wrote P w (snd (mark_polled env w rid ext st t))"
proof (cases "rid = []")
  case False
  obtain u w1 where u: "(if t = 0 then now env w else (t, w)) = (u, w1)" by (metis surj_pair)
  have "w_rows w1 = w_rows w" using u by (auto dest: now_rows split: if_splits)
  then have "wrote P w (snd (db_exec env (Mark_Polled rid (str_ptr ext) st u) w1))"
    using db_exec_wrote [of P, OF assms] by (rule wrote_cong [OF _ refl])
  then show ?thesis using False by (simp add: mark_polled_def u)
qed (simp add: mark_polled_def wrote_same)

text \<open>A successful operation leaves exactly the merged row under its key.\<close>

lemma upsert_ok:
  assumes "fst (upsert_forwarded_request env w r) = Inr ()"
  obtains t u where
    "w_rows (snd (upsert_forwarded_request env w r)) = sql_upsert (to_row t (r\<lparr>fr_updated_at := u\<rparr>)) (w_rows w)"
    "fr_updated_at r \<noteq> 0 \<Longrightarrow> u = fr_updated_at r" "fr_request_id r \<noteq> []"
proof -
  have ne: "fr_request_id r \<noteq> []"
    using assms by (auto simp: upsert_forwarded_request_def)
  obtain upd w1 where u: "(if fr_updated_at r = 0 then now env w else (fr_updated_at r, w)) = (upd, w1)"
    by (metis surj_pair)
  obtain t w2 where n: "now env w1 = (t, w2)" by (metis surj_pair)
  have rows: "w_rows w2 = w_rows w"
    using u now_rows [OF n] by (auto dest: now_rows split: if_splits)
  have "fst (db_exec env (Upsert (to_row t (r\<lparr>fr_updated_at := upd\<rparr>))) w2) = Inr ()"
    using assms ne by (simp add: upsert_forwarded_request_def u n)
  from db_exec_ok [OF this] rows have
    "w_rows (snd (upsert_forwarded_request env w r)) = sql_upsert (to_row t (r\<lparr>fr_updated_at := upd\<rparr>)) (w_rows w)"
    using ne by (simp add: upsert_forwarded_request_def u n)
  moreover have "fr_updated_at r \<noteq> 0 \<Longrightarrow> upd = fr_updated_at r" using u by simp
  ultimately show thesis using ne by (rule that)
qed

lemma mark_polled_ok:
  assumes "fst (mark_polled env w rid ext st t) = Inr ()"
  obtains u where
    "w_rows (snd (mark_polled env w rid ext st t)) = sql_mark_polled rid (str_ptr ext) st u (w_rows w)"
    "t \<noteq> 0 \<Longrightarrow> u = t" "rid \<noteq> []"
proof -
  have ne: "rid \<noteq> []" using assms by (auto simp: mark_polled_def)
  obtain u w1 where u: "(if t = 0 then now env w else (t, w)) = (u, w1)" by (metis surj_pair)
  have rows: "w_rows w1 = w_rows w" using u by (auto dest: now_rows split: if_splits)
  have "fst (db_exec env (Mark_Polled rid (str_ptr ext) st u) w1) = Inr ()"
    using assms ne by (simp add: mark_polled_def u)
  from db_exec_ok [OF this] rows have
    "w_rows (snd (mark_polled env w rid ext st t)) = sql_mark_polled rid (str_ptr ext) st u (w_rows w)"
    using ne by (simp add: mark_polled_def u)
  moreover have "t \<noteq> 0 \<Longrightarrow> u = t" using u by simp
  ultimately show thesis using ne by (rule that)
qed

text \<open>What the list holds.\<close>

lemma list_non_terminal_result:
  assumes "fst (list_non_terminal env w n) = Inr rows"
  obtains k where "rows = map scan_row (sql_list (e_collate env) k (w_rows w))"
    "k \<le> nat (if n \<le> 0 then 100 else n)"
proof -
  let ?m = "nat (if n \<le> 0 then 100 else n)"
  obtain stop where q: "fst (db_query env w) = Inr stop"
    using assms by (cases "fst (db_query env w)")
      (auto simp: list_non_terminal_def Let_def case_prod_beta)
  have rows: "rows = (case stop of None \<Rightarrow> map scan_row (sql_list (e_collate env) ?m (w_rows w))
      | Some k \<Rightarrow> take k (map scan_row (sql_list (e_collate env) ?m (w_rows w))))"
    using assms q by (cases stop) (auto simp: list_non_terminal_def Let_def case_prod_beta)
  show thesis
  proof (cases stop)
    case None
    with rows show ?thesis by (intro that [of ?m]) auto
  next
    case (Some k)
    with rows show ?thesis by (intro that [of "min k ?m"]) (auto simp: sql_list_def take_map)
  qed
qed

lemma list_non_terminal_mem:
  assumes "fst (list_non_terminal env w n) = Inr rows" and "x \<in> set rows"
  obtains r where "r \<in> set (w_rows w)" "\<not> terminal (status r)" "x = scan_row r"
proof -
  obtain k where "rows = map scan_row (sql_list (e_collate env) k (w_rows w))"
    using assms(1) by (rule list_non_terminal_result)
  then show thesis
    using assms(2) by (auto simp: sql_list_def non_terminal_def dest!: in_set_takeD intro: that)
qed

lemma list_non_terminal_length:
  "fst (list_non_terminal env w n) = Inr rows \<Longrightarrow> length rows \<le> nat (if n \<le> 0 then 100 else n)"
  by (erule list_non_terminal_result) (simp add: sql_list_def)

section \<open>Properties\<close>

definition sample_request :: forwarded_request where
  "sample_request = zero_request\<lparr>fr_request_id := ''r1'', fr_status := ''submitted'', fr_updated_at := 7\<rparr>"

definition sample_row :: "gostring \<Rightarrow> gostring \<Rightarrow> forwarded_row" where
  "sample_row k st = \<lparr>request_id = k, external_id = Some ''x1'', status = st, last_polled = None,
     error_text = Some ''boom'', auto_monitor = False, created_at = 1, updated_at = 1\<rparr>"

lemmas store_eval = upsert_forwarded_request_def mark_polled_def get_forwarded_request_def
  list_non_terminal_def request_stats_def db_exec_def db_query_def db_query_row_def now_def
  wrap_err_def calm_env_def empty_world_def sample_request_def sample_row_def zero_request_def
  to_row_def scan_row_def merge_row_def polled_row_def pg_text_def pg_text_opt_def rune_error_def Let_def

text \<open>
  C20. \<open>UpsertForwardedRequest\<close> refines an update of a map: when it reports success, the row of its
  request id is the new row, or the merge of the new values into the row that was there, and the
  rows of all other ids are untouched.
\<close>

theorem upsert_refines_map:
  assumes "fst (upsert_forwarded_request env w r) = Inr ()"
  shows "\<exists>t u. row_at (w_rows (snd (upsert_forwarded_request env w r))) =
    (row_at (w_rows w))(fr_request_id r \<mapsto>
       (case row_at (w_rows w) (fr_request_id r) of
          None \<Rightarrow> to_row t (r\<lparr>fr_updated_at := u\<rparr>)
        | Some old \<Rightarrow> merge_row (to_row t (r\<lparr>fr_updated_at := u\<rparr>)) old))
    \<and> (fr_updated_at r \<noteq> 0 \<longrightarrow> u = fr_updated_at r)"
  using assms by (rule upsert_ok) (auto simp: row_at_upsert)

theorem upsert_refines_map_witness:
  "\<exists>t u. row_at (w_rows (snd (upsert_forwarded_request calm_env empty_world sample_request))) =
    [''r1'' \<mapsto> to_row t (sample_request\<lparr>fr_updated_at := u\<rparr>)] \<and> u = 7"
proof -
  have "fst (upsert_forwarded_request calm_env empty_world sample_request) = Inr ()"
    by (simp add: store_eval)
  from upsert_refines_map [OF this] show ?thesis
    by (simp add: empty_world_def sample_request_def)
qed

text \<open>
  Round trip: a request stored under a new id is read back by \<open>GetForwardedRequest\<close> with every
  field it was stored with; only the creation time is the database's.
\<close>

lemma upsert_get_roundtrip:
  assumes "row_at (w_rows w) (fr_request_id r) = None"
    and "fst (upsert_forwarded_request env w r) = Inr ()"
    and "fst (get_forwarded_request env (snd (upsert_forwarded_request env w r)) (fr_request_id r)) = Inr r'"
    and "fr_updated_at r \<noteq> 0"
  shows "r' = r\<lparr>fr_created_at := fr_created_at r'\<rparr>"
proof -
  let ?w = "snd (upsert_forwarded_request env w r)"
  obtain t where "row_at (w_rows ?w) (fr_request_id r) = Some (to_row t r)"
    by (rule upsert_ok [OF assms(2)]) (use assms(1,4) in \<open>auto simp: row_at_upsert\<close>)
  then have "r' = scan_row (to_row t r)"
    using assms(3) by (auto simp: get_forwarded_request_def case_prod_beta split: sum.splits option.splits)
  then show ?thesis by (simp add: scan_row_def to_row_def)
qed

lemma upsert_get_roundtrip_example:
  "\<exists>r'. fst (get_forwarded_request calm_env
            (snd (upsert_forwarded_request calm_env empty_world sample_request)) ''r1'') = Inr r'
    \<and> r' = sample_request\<lparr>fr_created_at := fr_created_at r'\<rparr>"
proof -
  let ?w = "snd (upsert_forwarded_request calm_env empty_world sample_request)"
  have up: "fst (upsert_forwarded_request calm_env empty_world sample_request) = Inr ()"
    and got: "fst (get_forwarded_request calm_env ?w ''r1'') = Inr (sample_request\<lparr>fr_created_at := 1\<rparr>)"
    and id: "fr_request_id sample_request = ''r1''" and none: "row_at (w_rows empty_world) ''r1'' = None"
    and upd: "fr_updated_at sample_request \<noteq> 0"
    by (simp_all add: store_eval)
  show ?thesis using upsert_get_roundtrip [of empty_world sample_request calm_env, OF _ up _ upd] none got
    by (simp only: id) blast
qed

text \<open>
  What a row's error text does: a successful \<open>MarkPolled\<close> clears it, stamps \<open>last_polled\<close> and
  keeps a terminal status; a successful \<open>UpsertForwardedRequest\<close> never clears an error text, an
  external id or a poll time that is there.
\<close>

lemma error_text_lifecycle:
  assumes "row_at (w_rows w) rid = Some old"
  shows "(fst (mark_polled env w rid ext st t) = Inr () \<longrightarrow>
      (\<exists>r. row_at (w_rows (snd (mark_polled env w rid ext st t))) rid = Some r \<and> error_text r = None
        \<and> last_polled r \<noteq> None \<and> status r = (if terminal (status old) then status old else st)))
    \<and> (fst (upsert_forwarded_request env w x) = Inr () \<longrightarrow>
      (\<exists>r. row_at (w_rows (snd (upsert_forwarded_request env w x))) rid = Some r
        \<and> (error_text old \<noteq> None \<longrightarrow> error_text r \<noteq> None) \<and> (external_id old \<noteq> None \<longrightarrow> external_id r \<noteq> None)
        \<and> (last_polled old \<noteq> None \<longrightarrow> last_polled r \<noteq> None)))"
proof (intro conjI impI)
  assume ok: "fst (mark_polled env w rid ext st t) = Inr ()"
  show "\<exists>r. row_at (w_rows (snd (mark_polled env w rid ext st t))) rid = Some r \<and> error_text r = None
      \<and> last_polled r \<noteq> None \<and> status r = (if terminal (status old) then status old else st)"
    by (rule mark_polled_ok [OF ok]) (simp add: assms row_at_mark_polled polled_row_def)
next
  assume ok: "fst (upsert_forwarded_request env w x) = Inr ()"
  show "\<exists>r. row_at (w_rows (snd (upsert_forwarded_request env w x))) rid = Some r
      \<and> (error_text old \<noteq> None \<longrightarrow> error_text r \<noteq> None) \<and> (external_id old \<noteq> None \<longrightarrow> external_id r \<noteq> None)
      \<and> (last_polled old \<noteq> None \<longrightarrow> last_polled r \<noteq> None)"
    by (rule upsert_ok [OF ok], cases "rid = fr_request_id x")
      (use assms merge_row_keeps in \<open>simp_all add: row_at_upsert\<close>)
qed

theorem error_text_lifecycle_witness:
  "\<exists>r. row_at (w_rows (snd (mark_polled calm_env (empty_world\<lparr>w_rows := [sample_row ''r1'' ''found'']\<rparr>)
          ''r1'' ''x1'' ''imported'' 5))) ''r1'' = Some r
     \<and> error_text r = None \<and> last_polled r \<noteq> None \<and> status r = ''imported''"
proof -
  have "fst (mark_polled calm_env (empty_world\<lparr>w_rows := [sample_row ''r1'' ''found'']\<rparr>)
      ''r1'' ''x1'' ''imported'' 5) = Inr ()"
    by (simp add: store_eval)
  then show ?thesis
    using error_text_lifecycle [of "empty_world\<lparr>w_rows := [sample_row ''r1'' ''found'']\<rparr>" "''r1''"
      "sample_row ''r1'' ''found''" calm_env "''x1''" "''imported''" 5]
    by (simp add: sample_row_def terminal_def)
qed

text \<open>
  C35. \<open>ListNonTerminal\<close> is exact and fair: on a database that answers completely it returns, oldest
  poll first, only rows that are not terminal, as many as there are up to the limit (100 when the
  limit is not positive), and a row it leaves out comes after all rows it returns.
\<close>

theorem list_non_terminal_exact:
  assumes "e_db env (w_db w) = Db_Ok"
  shows "\<exists>rs. fst (list_non_terminal env w lim) = Inr (map scan_row rs)
    \<and> sorted (map (poll_order (e_collate env)) rs)
    \<and> set rs \<subseteq> set (non_terminal (w_rows w))
    \<and> length rs = min (nat (if lim \<le> 0 then 100 else lim)) (length (non_terminal (w_rows w)))
    \<and> (\<forall>x \<in> set (non_terminal (w_rows w)) - set rs. \<forall>y \<in> set rs.
          poll_order (e_collate env) y \<le> poll_order (e_collate env) x)"
proof -
  let ?n = "nat (if lim \<le> 0 then 100 else lim)"
  let ?ck = "e_collate env"
  let ?s = "sort_key (poll_order ?ck) (non_terminal (w_rows w))"
  have "fst (list_non_terminal env w lim) = Inr (map scan_row (take ?n ?s))"
    using assms by (simp add: list_non_terminal_def db_query_def sql_list_def Let_def)
  moreover have "poll_order ?ck y \<le> poll_order ?ck x"
    if "x \<in> set (non_terminal (w_rows w)) - set (take ?n ?s)" "y \<in> set (take ?n ?s)" for x y
  proof -
    have "x \<in> set (take ?n ?s @ drop ?n ?s)" using that by simp
    then have "x \<in> set (drop ?n ?s)" using that(1) by (auto simp del: append_take_drop_id)
    then show ?thesis using sorted_key_take_drop_le that(2) by (metis sorted_sort_key)
  qed
  ultimately show ?thesis
    by (intro exI [of _ "take ?n ?s"]) (auto simp: take_map [symmetric] intro: sorted_wrt_take dest: in_set_takeD)
qed

theorem list_non_terminal_exact_witness:
  "\<exists>rs. fst (list_non_terminal calm_env
        (empty_world\<lparr>w_rows := [sample_row ''r2'' ''found'', sample_row ''r1'' ''imported'']\<rparr>) 0)
      = Inr (map scan_row rs) \<and> length rs = 1"
  using list_non_terminal_exact [of calm_env
      "empty_world\<lparr>w_rows := [sample_row ''r2'' ''found'', sample_row ''r1'' ''imported'']\<rparr>" 0]
  by (auto simp: calm_env_def empty_world_def non_terminal_def terminal_def sample_row_def)



text \<open>
  The counters of \<open>RequestStats\<close> add up: every row is active, failed or imported and none is two
  of them, the unsubmitted rows are among the active ones, and the rows with an error among all.
\<close>

lemma stats_add_up:
  "st_total (stats_of rows) = st_active (stats_of rows) + st_failed (stats_of rows) + st_imported (stats_of rows)
   \<and> 0 \<le> st_unsubmitted (stats_of rows) \<and> st_unsubmitted (stats_of rows) \<le> st_active (stats_of rows)
   \<and> st_with_errors (stats_of rows) \<le> st_total (stats_of rows)"
proof -
  have "count_where (\<lambda>_. True) rows = count_where (\<lambda>r. \<not> terminal (status r)) rows
      + count_where (\<lambda>r. status r = ''failed'') rows + count_where (\<lambda>r. status r = ''imported'') rows"
    unfolding count_where_def terminal_def by (induction rows) auto
  moreover have "count_where (\<lambda>r. \<not> text_empty (error_text r)) rows \<le> count_where (\<lambda>_. True) rows"
    and "count_where (\<lambda>r. text_empty (external_id r) \<and> \<not> terminal (status r)) rows
      \<le> count_where (\<lambda>r. \<not> terminal (status r)) rows"
    by (rule count_where_mono, simp)+
  ultimately show ?thesis unfolding stats_of_def by simp
qed

end
