(* ===== verification/Server.thy ===== *)
theory Server
  imports AppConfig HttpRoutes Store
begin

text \<open>
  internal/server: the route table, the admin handlers and the small ones (health, capabilities), and
  what the router does with a request.

  The router of go-chi is not part of the repository: it is the parameter \<open>chi\<close>, which takes the table
  of registered routes, a method and a path and gives the route with its URL parameters or the
  answer for no match; \<open>chi_contract\<close> is what its documentation promises. The static text of the admin
  page is the parameter \<open>page\<close>, a function of the theme; everything else of the page is modelled.
\<close>

section \<open>State\<close>

record server_deps =
  sd_auto :: bool
  sd_client :: "client option"
  sd_store :: bool
  sd_config :: app_config

text \<open>
  A server with its handler: \<open>Handler()\<close> hands the signing secret of that moment to the catalogue
  handler, which keeps it. The client is shared with the consumer and the reconciler.
\<close>

record server =
  sv_deps :: server_deps
  sv_secret :: gostring

definition empty_deps :: server_deps where
  "empty_deps = \<lparr>sd_auto = False, sd_client = None, sd_store = False, sd_config = zero_config\<rparr>"

definition new_server :: "server_deps \<Rightarrow> server" where
  "new_server d = \<lparr>sv_deps = d, sv_secret = ac_stream_signing_secret (sd_config d)\<rparr>"

section \<open>Small handlers\<close>

definition h_health :: api_response where
  "h_health = json_answer 200 (JObj [(''ok'', JBool True)])"

record capabilities =
  cp_formats :: "gostring list"
  cp_features :: "gostring list"
  cp_max_downloads :: int
  cp_range_requests :: bool

definition capabilities_json :: "capabilities \<Rightarrow> json" where
  "capabilities_json c = JObj
     [(''formats'', jstrs (cp_formats c)), (''features'', jstrs (cp_features c)),
      (''max_concurrent_downloads'', jint (cp_max_downloads c)), (''supports_range_requests'', JBool (cp_range_requests c))]"

definition h_capabilities :: "server \<Rightarrow> api_response" where
  "h_capabilities s = json_answer 200 (capabilities_json
     \<lparr>cp_formats = [''epub'', ''pdf'', ''mobi'', ''azw3''],
      cp_features = [''library_source'', ''download_provider'', ''external_search'', ''request_snapshot'',
         ''admin_diagnostics'', ''provider_test_search'']
         @ (if sd_auto (sv_deps s) then [''auto_monitoring''] else []),
      cp_max_downloads = 4, cp_range_requests = True\<rparr>)"

text \<open>\<open>html.EscapeString\<close> and the theme of the admin page.\<close>

definition html_char :: "char \<Rightarrow> gostring" where
  "html_char c =
     (if c = CHR ''&'' then ''&amp;'' else if byte_of c = 39 then ''&#39;''
      else if c = CHR ''<'' then ''&lt;'' else if c = CHR ''>'' then ''&gt;''
      else if byte_of c = 34 then ''&#34;'' else [c])"

definition html_escape :: "gostring \<Rightarrow> gostring" where
  "html_escape s = concat (map html_char s)"

definition admin_theme :: "api_request \<Rightarrow> gostring" where
  "admin_theme r =
     (let t = header_get (aq_headers r) ''X-Silo-Theme'';
          t2 = (if t = [] then query_get r ''theme'' else t)
      in html_escape (if t2 = [] then ''default'' else t2))"

definition h_admin_home :: "(gostring \<Rightarrow> gostring) \<Rightarrow> api_request \<Rightarrow> api_response" where
  "h_admin_home page r = \<lparr>ap_status = 200, ap_headers = [(''Content-Type'', ''text/html; charset=utf-8'')],
     ap_body = page (admin_theme r)\<rparr>"

section \<open>Configuration\<close>

definition error_json :: "gostring \<Rightarrow> json" where
  "error_json e = JObj [(''error'', JStr e)]"

definition store_missing :: api_response where
  "store_missing = json_answer 503 (error_json ''store not configured'')"

definition h_get_config :: "server \<Rightarrow> env \<Rightarrow> world \<Rightarrow> api_response \<times> world" where
  "h_get_config s env w =
     (if \<not> sd_store (sv_deps s) then (store_missing, w)
      else case get_app_config env w of
        (Inl e, w1) \<Rightarrow> (json_answer 500 (error_json e), w1)
      | (Inr cfg, w1) \<Rightarrow> (json_answer 200 (config_json (cfg\<lparr>ac_api_key := []\<rparr>)), w1))"

text \<open>\<open>json.NewDecoder(r.Body).Decode\<close> reads the first value of the body; what follows is not looked at.\<close>

definition decode_patch :: "gostring \<Rightarrow> app_config option" where
  "decode_patch body =
     (case json_prefix body of
        None \<Rightarrow> None
      | Some (j, rest) \<Rightarrow> dec_struct config_fields zero_config j)"

definition keep_key :: "app_config \<Rightarrow> app_config \<Rightarrow> app_config" where
  "keep_key cur next = (if ac_api_key next = [] then next\<lparr>ac_api_key := ac_api_key cur\<rparr> else next)"

text \<open>The server after a successful update with \<open>next\<close>.\<close>

definition apply_config :: "app_config \<Rightarrow> server \<Rightarrow> server" where
  "apply_config next s =
     (let d = sv_deps s
      in s\<lparr>sv_deps := d\<lparr>
           sd_config := next\<lparr>ac_database_url := ac_database_url (sd_config d)\<rparr>,
           sd_auto := ac_enable_auto_monitoring next,
           sd_client := map_option (\<lambda>c. set_default_cover_size (ac_default_cover_size next)
                          (reconfigure (ac_base_url next) (ac_api_key next) c)) (sd_client d)\<rparr>\<rparr>)"

definition h_update_config :: "server \<Rightarrow> env \<Rightarrow> world \<Rightarrow> api_request \<Rightarrow> api_response \<times> server \<times> world" where
  "h_update_config s env w r =
     (if \<not> sd_store (sv_deps s) then (store_missing, s, w)
      else case get_app_config env w of
        (Inl e, w1) \<Rightarrow> (json_answer 500 (error_json e), s, w1)
      | (Inr cur, w1) \<Rightarrow>
          (case decode_patch (aq_body r) of
             None \<Rightarrow> (json_answer 400 (error_json ''invalid JSON body''), s, w1)
           | Some next0 \<Rightarrow>
               (let next = keep_key cur next0
                in case update_app_config env w1 next of
                     (Inl e, w2) \<Rightarrow> (json_answer 400 (error_json e), s, w2)
                   | (Inr _, w2) \<Rightarrow>
                       (json_answer 200 (JObj [(''ok'', JBool True)]), apply_config next s, w2))))"

section \<open>Diagnostics\<close>

definition stats_json :: "request_stats \<Rightarrow> json" where
  "stats_json st = JObj
     [(''total'', jint (st_total st)), (''active'', jint (st_active st)), (''failed'', jint (st_failed st)),
      (''imported'', jint (st_imported st)), (''with_errors'', jint (st_with_errors st)),
      (''unsubmitted'', jint (st_unsubmitted st))]"

definition probe_upstream :: "client option \<Rightarrow> env \<Rightarrow> world \<Rightarrow> (bool \<times> gostring) \<times> world" where
  "probe_upstream co env w =
     (case co of
        None \<Rightarrow> ((False, ''not configured''), w)
      | Some c \<Rightarrow>
          (case ping c env w of
             (Inl e, w1) \<Rightarrow> ((False, e), w1)
           | (Inr _, w1) \<Rightarrow> ((True, ''upstream reachable''), w1)))"

definition probe_database :: "bool \<Rightarrow> env \<Rightarrow> world \<Rightarrow> (bool \<times> gostring \<times> json) \<times> world" where
  "probe_database has_store env w =
     (if \<not> has_store then ((False, ''not configured'', JObj []), w)
      else let (r, w1) = db_query_row env w; (q, w2) = request_stats env w1;
               st = (case q of Inl _ \<Rightarrow> JObj [] | Inr x \<Rightarrow> stats_json x)
           in (case r of Inl e \<Rightarrow> (False, e, st) | Inr _ \<Rightarrow> (True, ''database reachable'', st), w2))"

definition status_json :: "bool \<Rightarrow> gostring \<Rightarrow> json" where
  "status_json ok msg = JObj [(''message'', JStr msg), (''ok'', JBool ok)]"

definition h_diagnostics :: "server \<Rightarrow> env \<Rightarrow> world \<Rightarrow> api_response \<times> world" where
  "h_diagnostics s env w =
     (let d = sv_deps s; ((up_ok, up_msg), w1) = probe_upstream (sd_client d) env w;
          ((db_ok, db_msg, st), w2) = probe_database (sd_store d) env w1
      in (json_answer 200 (JObj
            [(''auto_monitoring_enabled'', JBool (sd_auto d)), (''base_url'', JStr (ac_base_url (sd_config d))),
             (''configured'', JBool (provider_configured (sd_config d))), (''database'', status_json db_ok db_msg),
             (''plugin_id'', JStr ''silo.bookwarehouse-ebook''),
             (''request_quality_profile'', JStr (ac_request_quality_profile (sd_config d))), (''requests'', st),
             (''role'', JStr ''library_source_and_download_provider''), (''upstream'', status_json up_ok up_msg)]), w2))"

definition search_json :: "bool \<Rightarrow> gostring \<Rightarrow> json list \<Rightarrow> json" where
  "search_json ok msg items = JObj [(''items'', JArr items), (''message'', JStr msg), (''ok'', JBool ok)]"

definition h_test_search :: "server \<Rightarrow> env \<Rightarrow> world \<Rightarrow> api_request \<Rightarrow> api_response \<times> world" where
  "h_test_search s env w r =
     (case sd_client (sv_deps s) of
        None \<Rightarrow> (json_answer 200 (search_json False ''not configured'' []), w)
      | Some c \<Rightarrow>
          (let q = query_get r ''q''
           in case external_search c env w (if q = [] then ''foundation'' else q) 5 of
                (Inl e, w1) \<Rightarrow> (json_answer 200 (search_json False e []), w1)
              | (Inr hits, w1) \<Rightarrow>
                  (json_answer 200 (search_json True ''search completed'' (map hit_json hits)), w1)))"

section \<open>Routes\<close>

datatype route =
    R_Admin_Home
  | R_Health
  | R_Capabilities
  | R_Diagnostics
  | R_Get_Config
  | R_Update_Config
  | R_Test_Search
  | R_List
  | R_Libraries
  | R_Search
  | R_Detail
  | R_Browse_Authors
  | R_Browse_Series
  | R_Browse_Genres
  | R_Browse_Tags
  | R_Cover
  | R_File
  | R_External_Search
  | R_Catalog_Snapshot
  | R_Request_Snapshot

type_synonym route_entry = "gostring \<times> gostring \<times> route"

text \<open>\<open>Mount\<close> of the catalogue handler, under the prefix \<open>/api/v1\<close>.\<close>

definition catalog_routes :: "route_entry list" where
  "catalog_routes = map (\<lambda>(p, r). (''GET'', ''/api/v1'' @ p, r))
     [(''/catalog'', R_List), (''/catalog/libraries'', R_Libraries), (''/catalog/search'', R_Search),
      (''/catalog/{id}'', R_Detail), (''/browse/authors'', R_Browse_Authors),
      (''/browse/series'', R_Browse_Series), (''/browse/genres'', R_Browse_Genres),
      (''/browse/tags'', R_Browse_Tags), (''/cover/{book_id}/{size}'', R_Cover),
      (''/file/{book_id}'', R_File), (''/external_search'', R_External_Search),
      (''/requests/{external_id}'', R_Catalog_Snapshot)]"

definition admin_routes :: "route_entry list" where
  "admin_routes =
     [(''GET'', ''/admin'', R_Admin_Home), (''GET'', ''/admin/'', R_Admin_Home),
      (''GET'', ''/api/v1/health'', R_Health), (''GET'', ''/api/v1/capabilities'', R_Capabilities),
      (''GET'', ''/api/v1/admin/diagnostics'', R_Diagnostics), (''GET'', ''/api/v1/admin/config'', R_Get_Config),
      (''PATCH'', ''/api/v1/admin/config'', R_Update_Config),
      (''GET'', ''/api/v1/admin/test-search'', R_Test_Search)]"

text \<open>The table in the order of registration; without a client there are no catalogue routes.\<close>

definition route_table :: "bool \<Rightarrow> route_entry list" where
  "route_table has_client = admin_routes @
     (if has_client
      then catalog_routes @ [(''GET'', ''/api/v1/requests/{external_id}'', R_Request_Snapshot)] else [])"

datatype chi_match = Chi_Found route "(gostring \<times> gostring) list" | Chi_Refused api_response

type_synonym chi = "route_entry list \<Rightarrow> gostring \<Rightarrow> gostring \<Rightarrow> chi_match"

text \<open>
  What chi promises: a route it finds is in the table under the method of the request, and is the last
  one registered for its pattern; the answer without a match is 404 or 405.
\<close>

definition registered :: "route_entry list \<Rightarrow> gostring \<Rightarrow> gostring \<Rightarrow> route option" where
  "registered tbl meth pat = map_of (rev (map (\<lambda>(m, p, r). ((m, p), r)) tbl)) (meth, pat)"

definition chi_contract :: "chi \<Rightarrow> bool" where
  "chi_contract chi \<longleftrightarrow> (\<forall>tbl meth path.
     case chi tbl meth path of
       Chi_Found r ps \<Rightarrow> \<exists>pat. registered tbl meth pat = Some r
     | Chi_Refused a \<Rightarrow> ap_status a \<in> {404, 405})"

text \<open>A router with that contract, for patterns compared segment by segment.\<close>

fun split_path :: "gostring \<Rightarrow> gostring \<Rightarrow> gostring list" where
  "split_path acc [] = [acc]"
| "split_path acc (c # cs) = (if c = CHR ''/'' then acc # split_path [] cs else split_path (acc @ [c]) cs)"

fun match_segments :: "gostring list \<Rightarrow> gostring list \<Rightarrow> (gostring \<times> gostring) list option" where
  "match_segments [] [] = Some []"
| "match_segments (p # ps) (x # xs) =
     (if has_prefix ''{'' p
      then (if x = [] then None
            else map_option (\<lambda>m. (butlast (tl p), x) # m) (match_segments ps xs))
      else if p = x then match_segments ps xs else None)"
| "match_segments _ _ = None"

definition plain_chi :: chi where
  "plain_chi tbl meth path =
     (case find (\<lambda>(m, p, r). m = meth \<and> match_segments (split_path [] p) (split_path [] path) \<noteq> None) tbl of
        None \<Rightarrow> Chi_Refused (http_error ''404 page not found'' 404)
      | Some (m, p, r) \<Rightarrow>
          (case registered tbl meth p of
             None \<Rightarrow> Chi_Refused (http_error ''404 page not found'' 404)
           | Some q \<Rightarrow>
               (case match_segments (split_path [] p) (split_path [] path) of
                  None \<Rightarrow> Chi_Refused (http_error ''404 page not found'' 404)
                | Some ps \<Rightarrow> Chi_Found q ps)))"

section \<open>Serving a request\<close>

text \<open>\<open>chiPathValueShim\<close> around the handler of the package request: every URL parameter becomes a path value of
  the request, a later one replaces an earlier one of the same name.\<close>

definition set_path_value :: "gostring \<times> gostring \<Rightarrow> api_request \<Rightarrow> api_request" where
  "set_path_value p r = r\<lparr>aq_params := filter (\<lambda>q. fst q \<noteq> fst p) (aq_params r) @ [p]\<rparr>"

definition chi_path_value_shim :: "api_request \<Rightarrow> api_request" where
  "chi_path_value_shim r = fold set_path_value (aq_params r) (r\<lparr>aq_params := []\<rparr>)"

text \<open>So \<open>r.PathValue\<close> gives what \<open>chi.URLParam\<close> gives.\<close>

lemma set_path_value_params:
  "aq_params (fold set_path_value ps r) = fold (\<lambda>p qs. filter (\<lambda>q. fst q \<noteq> fst p) qs @ [p]) ps (aq_params r)"
  by (induction ps arbitrary: r) (simp_all add: set_path_value_def)

lemma chi_path_value_shim_param: "url_param (chi_path_value_shim r) k = url_param r k"
proof -
  have "map_of (rev (fold (\<lambda>p qs. filter (\<lambda>q. fst q \<noteq> fst p) qs @ [p]) ps qs)) k = map_of (rev (qs @ ps)) k"
    for ps qs :: "(gostring \<times> gostring) list"
  proof (induction ps arbitrary: qs)
    case (Cons p ps)
    have "map_of (filter (\<lambda>q. fst q \<noteq> fst p) xs) k = (if k = fst p then None else map_of xs k)"
      for xs :: "(gostring \<times> gostring) list"
      by (induction xs) auto
    then have "map_of (rev (filter (\<lambda>q. fst q \<noteq> fst p) qs @ [p])) k = map_of (rev (qs @ [p])) k"
      by (auto simp: rev_filter)
    then show ?case using Cons.IH [of "filter (\<lambda>q. fst q \<noteq> fst p) qs @ [p]"] by (auto simp: map_add_def split: option.split)
  qed simp
  then show ?thesis by (simp add: chi_path_value_shim_def url_param_def set_path_value_params)
qed

text \<open>An answer that changes the world only.\<close>

definition keep_server :: "server \<Rightarrow> api_response \<times> world \<Rightarrow> api_response \<times> server \<times> world" where
  "keep_server s x = (fst x, s, snd x)"

text \<open>The routes of the catalogue, with the client they were registered with.\<close>

definition serve_catalog ::
  "jwt_parse \<Rightarrow> server \<Rightarrow> client \<Rightarrow> env \<Rightarrow> world \<Rightarrow> route \<Rightarrow> api_request \<Rightarrow> api_response \<times> world" where
  "serve_catalog parse s c env w rt r =
     (let h = new_handler c (sv_secret s)
      in case rt of
           R_List \<Rightarrow> h_list h env w r
         | R_Libraries \<Rightarrow> h_libraries w
         | R_Search \<Rightarrow> h_search h env w r
         | R_Detail \<Rightarrow> h_detail h env w r
         | R_Browse_Authors \<Rightarrow> h_browse_authors w r
         | R_Browse_Series \<Rightarrow> h_browse_series w r
         | R_Browse_Genres \<Rightarrow> h_browse_genres h env w r
         | R_Browse_Tags \<Rightarrow> h_browse_tags w r
         | R_Cover \<Rightarrow> h_cover parse h env w r
         | R_File \<Rightarrow> h_file parse h env w r
         | R_External_Search \<Rightarrow> h_external_search h env w r
         | R_Catalog_Snapshot \<Rightarrow> h_request_snapshot h env w r
         | _ \<Rightarrow> request_snapshot c env w (chi_path_value_shim r))"

definition serve_route ::
  "(gostring \<Rightarrow> gostring) \<Rightarrow> jwt_parse \<Rightarrow> env \<Rightarrow> server \<Rightarrow> world \<Rightarrow> route \<Rightarrow> api_request
   \<Rightarrow> api_response \<times> server \<times> world" where
  "serve_route page parse env s w rt r =
     (case rt of
        R_Admin_Home \<Rightarrow> (h_admin_home page r, s, w)
      | R_Health \<Rightarrow> (h_health, s, w)
      | R_Capabilities \<Rightarrow> (h_capabilities s, s, w)
      | R_Diagnostics \<Rightarrow> keep_server s (h_diagnostics s env w)
      | R_Get_Config \<Rightarrow> keep_server s (h_get_config s env w)
      | R_Update_Config \<Rightarrow> h_update_config s env w r
      | R_Test_Search \<Rightarrow> keep_server s (h_test_search s env w r)
      | _ \<Rightarrow>
          (case sd_client (sv_deps s) of
             \<comment> \<open>not reached: without a client these routes are not in the table\<close>
             None \<Rightarrow> (http_error ''404 page not found'' 404, s, w)
           | Some c \<Rightarrow> keep_server s (serve_catalog parse s c env w rt r)))"

definition serve ::
  "chi \<Rightarrow> (gostring \<Rightarrow> gostring) \<Rightarrow> jwt_parse \<Rightarrow> env \<Rightarrow> server \<times> world \<Rightarrow> routed_request
   \<Rightarrow> api_response option \<times> server \<times> world" where
  "serve chi page parse env sw q =
     (let s = fst sw; w = snd sw
      in case chi (route_table (sd_client (sv_deps s) \<noteq> None)) (rr_method q) (rr_path q) of
           Chi_Refused a \<Rightarrow> (Some a, s, w)
         | Chi_Found rt ps \<Rightarrow>
             (case serve_route page parse env s w rt ((rr_request q)\<lparr>aq_params := ps\<rparr>) of
                (a, s1, w1) \<Rightarrow> (Some a, s1, w1)))"

section \<open>Laws\<close>

lemma registered_mem: "registered tbl meth pat = Some r \<Longrightarrow> (meth, pat, r) \<in> set tbl"
  unfolding registered_def by (drule map_of_SomeD) auto

lemma plain_chi_contract: "chi_contract plain_chi"
  by (auto simp: chi_contract_def plain_chi_def http_error_def split: option.split)

lemma route_methods:
  "(meth, pat, r) \<in> set (route_table b) \<Longrightarrow> meth = (if r = R_Update_Config then ''PATCH'' else ''GET'')"
  by (auto simp: route_table_def admin_routes_def catalog_routes_def split: if_splits)

text \<open>The server keeps its secret and its database URL through every request.\<close>

lemma apply_config_secret [simp]: "sv_secret (apply_config next s) = sv_secret s"
  by (simp add: apply_config_def Let_def)

lemma h_update_config_same: "same_tables w (snd (snd (h_update_config s env w r)))"
proof -
  obtain g w1 where g: "get_app_config env w = (g, w1)" by (metis surj_pair)
  have st: "same_tables w w1" using get_app_config_same [of w env] g by simp
  have "same_tables w (snd (update_app_config env w1 c))" for c
    using st update_app_config_same by (rule same_tables_trans)
  then show ?thesis
    using st by (simp add: h_update_config_def g Let_def case_prod_beta split: sum.split option.split)
qed

lemma h_get_config_same: "same_tables w (snd (h_get_config s env w))"
proof -
  obtain g w1 where g: "get_app_config env w = (g, w1)" by (metis surj_pair)
  have "same_tables w w1" using get_app_config_same [of w env] g by simp
  then show ?thesis by (simp add: h_get_config_def g split: sum.split)
qed

text \<open>What every route but the two of the configuration leaves alone.\<close>

definition quiet :: "world \<Rightarrow> world \<Rightarrow> bool" where
  "quiet w w' \<longleftrightarrow> w_rows w' = w_rows w \<and> w_config w' = w_config w \<and> w_events w' = w_events w"

lemma quiet_refl [simp]: "quiet w w"
  by (simp add: quiet_def)

lemma quiet_trans: "quiet a b \<Longrightarrow> quiet b c \<Longrightarrow> quiet a c"
  by (simp add: quiet_def)

lemma quiet_sends: "sends P n w w' \<Longrightarrow> quiet w w'"
  by (auto simp: quiet_def dest: sends_frame)

lemma quiet_reads_only: "reads_only w w' \<Longrightarrow> quiet w w'"
  by (simp add: quiet_def reads_only_def)

lemma ping_quiet: "quiet w (snd (ping c env w))"
proof -
  obtain r w1 where g: "client_get c env w ''/api/v1/health'' = (r, w1)" by (metis surj_pair)
  have "quiet w w1" using quiet_sends [OF client_get_sends [of c "''/api/v1/health''" w env]] g by simp
  moreover have "quiet w1 (snd (client_get c env w1 ''/health''))"
    by (rule quiet_sends [OF client_get_sends])
  ultimately show ?thesis
    by (auto simp: ping_def g case_prod_beta intro: quiet_trans split: sum.split)
qed

lemma request_stats_quiet: "quiet w (snd (request_stats env w))"
  by (simp add: quiet_def request_stats_def case_prod_beta split: sum.split)

lemma h_diagnostics_quiet: "quiet w (snd (h_diagnostics s env w))"
proof -
  have up: "quiet w (snd (probe_upstream co env w))" for co
    using ping_quiet by (simp add: probe_upstream_def case_prod_beta split: option.split sum.split)
  have db: "quiet v (snd (probe_database b env v))" for b v
  proof -
    have "quiet v (snd (db_query_row env v))" by (simp add: quiet_def)
    then show ?thesis
      using request_stats_quiet quiet_trans by (auto simp: probe_database_def case_prod_beta Let_def)
  qed
  show ?thesis
    using quiet_trans [OF up db] by (simp add: h_diagnostics_def Let_def case_prod_beta)
qed

lemma h_test_search_quiet: "quiet w (snd (h_test_search s env w r))"
  using quiet_sends [OF external_search_sends]
  by (simp add: h_test_search_def Let_def case_prod_beta split: option.split sum.split)

lemma request_snapshot_quiet: "quiet w (snd (request_snapshot c env w r))"
  using quiet_sends [OF get_monitoring_sends]
  by (simp add: request_snapshot_def Let_def case_prod_beta split: sum.split)

lemma browse_handler_snd [simp]: "snd (browse_handler f w r) = w"
  by (simp add: browse_handler_def split: sum.split)

lemma serve_catalog_quiet: "quiet w (snd (serve_catalog parse s c env w rt r))"
  using reads_only_handlers [THEN quiet_reads_only] request_snapshot_quiet
  by (cases rt) (simp_all add: serve_catalog_def Let_def h_libraries_def)

lemma serve_route_quiet:
  assumes "rt \<noteq> R_Get_Config" and "rt \<noteq> R_Update_Config"
  shows "fst (snd (serve_route page parse env s w rt r)) = s
    \<and> quiet w (snd (snd (serve_route page parse env s w rt r)))"
  using assms h_diagnostics_quiet h_test_search_quiet serve_catalog_quiet
  by (cases rt) (simp_all add: serve_route_def keep_server_def split: option.split)

lemma serve_found:
  "chi (route_table (sd_client (sv_deps s) \<noteq> None)) (rr_method q) (rr_path q) = Chi_Found rt ps \<Longrightarrow>
   serve chi page parse env (s, w) q =
     (Some (fst (serve_route page parse env s w rt ((rr_request q)\<lparr>aq_params := ps\<rparr>))),
      snd (serve_route page parse env s w rt ((rr_request q)\<lparr>aq_params := ps\<rparr>)))"
  by (simp only: serve_def fst_conv snd_conv Let_def chi_match.case case_prod_beta prod.collapse)

text \<open>No request touches the rows or the events.\<close>

lemma serve_rows:
  "w_rows (snd (snd (serve chi page parse env (s, w) q))) = w_rows w
   \<and> w_events (snd (snd (serve chi page parse env (s, w) q))) = w_events w"
proof (cases "chi (route_table (sd_client (sv_deps s) \<noteq> None)) (rr_method q) (rr_path q)")
  case (Chi_Found rt ps)
  let ?r = "(rr_request q)\<lparr>aq_params := ps\<rparr>"
  obtain a s1 w1 where run: "serve_route page parse env s w rt ?r = (a, s1, w1)" by (metis surj_pair)
  have "w_rows w1 = w_rows w \<and> w_events w1 = w_events w"
  proof (cases "rt = R_Get_Config \<or> rt = R_Update_Config")
    case True
    then show ?thesis
      using run h_get_config_same [of w s env] h_update_config_same [of w s env ?r]
      by (auto simp: serve_route_def keep_server_def same_tables_def)
  next
    case False
    then show ?thesis using serve_route_quiet [of rt page parse env s w ?r] run by (simp add: quiet_def)
  qed
  then show ?thesis unfolding serve_found [where chi = chi, OF Chi_Found] run by simp
next
  case (Chi_Refused a)
  then show ?thesis by (simp add: serve_def)
qed

lemma serve_route_server:
  "rt \<noteq> R_Update_Config \<Longrightarrow> fst (snd (serve_route page parse env s w rt r)) = s"
  using serve_route_quiet [of rt page parse env s w r]
  by (cases "rt = R_Get_Config") (auto simp: serve_route_def keep_server_def)

text \<open>The ways an update goes.\<close>

lemma h_update_config_cases:
  obtains (refused) "ap_status (fst (h_update_config s env w r)) \<in> {400, 500, 503}"
      "fst (snd (h_update_config s env w r)) = s"
  | (updated) cur next0 w2 where "fst (get_app_config env w) = Inr cur" "decode_patch (aq_body r) = Some next0"
      "update_app_config env (snd (get_app_config env w)) (keep_key cur next0) = (Inr (), w2)"
      "h_update_config s env w r
         = (json_answer 200 (JObj [(''ok'', JBool True)]), apply_config (keep_key cur next0) s, w2)"
proof (cases "sd_store (sv_deps s)")
  case store: True
  obtain g w1 where g: "get_app_config env w = (g, w1)" by (metis surj_pair)
  show ?thesis
  proof (cases g)
    case (Inl e)
    then show ?thesis using store g refused by (simp add: h_update_config_def json_answer_def)
  next
    case cur: (Inr cur)
    show ?thesis
    proof (cases "decode_patch (aq_body r)")
      case None
      then show ?thesis using store g cur refused by (simp add: h_update_config_def json_answer_def)
    next
      case (Some next0)
      obtain u w2 where u: "update_app_config env w1 (keep_key cur next0) = (u, w2)" by (metis surj_pair)
      show ?thesis
      proof (cases u)
        case (Inl e)
        then show ?thesis using store g cur Some u refused by (simp add: h_update_config_def json_answer_def)
      next
        case (Inr x)
        then show ?thesis using store g cur Some u updated by (simp add: h_update_config_def)
      qed
    qed
  qed
qed (use refused in \<open>simp add: h_update_config_def store_missing_def json_answer_def\<close>)

lemma patch_row:
  assumes "h_update_config s env w r = (a, s', w')" and "ap_status a = 200"
    and "fst (get_app_config env w) = Inr cur" and "decode_patch (aq_body r) = Some next"
  shows "w_config w' = Some (jsonb (config_json (default_cover ((keep_key cur next)\<lparr>ac_database_url := []\<rparr>))))"
proof (cases rule: h_update_config_cases [of s env w r])
  case refused
  then show ?thesis using assms(1,2) by auto
next
  case (updated cur' next0 w2)
  then show ?thesis
    using assms update_app_config_ok [of env "snd (get_app_config env w)" "keep_key cur next" "()"] by simp
qed

section \<open>Properties\<close>

text \<open>
  C23. What \<open>PATCH /api/v1/admin/config\<close> does. Any answer but 200 leaves the server as it was. A 200 means
  that the row holds the new configuration without the database URL, with the API key of before
  when the new one is blank, and that the shared client now uses the new base URL and key and one
  of upstream's cover sizes; the secret that checks media tokens stays the one of before.
\<close>

theorem patch_takes_effect:
  "case h_update_config s env w r of (a, s', w') \<Rightarrow>
    if ap_status a = 200
    then \<exists>cur next. fst (get_app_config env w) = Inr cur \<and> decode_patch (aq_body r) = Some next
      \<and> w_config w' = Some (jsonb (config_json (default_cover ((keep_key cur next)\<lparr>ac_database_url := []\<rparr>))))
      \<and> sd_client (sv_deps s') = map_option (\<lambda>c.
          \<lparr>c_base = trim_right (CHR ''/'') (ac_base_url next),
           c_key = (if ac_api_key next = [] then ac_api_key cur else ac_api_key next),
           c_cover = normalize_cover_size (ac_default_cover_size next)\<rparr>) (sd_client (sv_deps s))
      \<and> ac_database_url (sd_config (sv_deps s')) = ac_database_url (sd_config (sv_deps s))
      \<and> sv_secret s' = sv_secret s
    else s' = s"
proof (cases rule: h_update_config_cases [of s env w r])
  case refused
  then show ?thesis by (auto simp: case_prod_beta)
next
  case (updated cur next0 w2)
  have row: "w_config w2 = Some (jsonb (config_json (default_cover ((keep_key cur next0)\<lparr>ac_database_url := []\<rparr>))))"
    using update_app_config_ok [of env "snd (get_app_config env w)" "keep_key cur next0" "()"] updated(3) by simp
  have "sd_client (sv_deps (apply_config (keep_key cur next0) s)) = map_option (\<lambda>c.
          \<lparr>c_base = trim_right (CHR ''/'') (ac_base_url next0),
           c_key = (if ac_api_key next0 = [] then ac_api_key cur else ac_api_key next0),
           c_cover = normalize_cover_size (ac_default_cover_size next0)\<rparr>) (sd_client (sv_deps s))"
    by (cases "sd_client (sv_deps s)")
      (simp_all add: apply_config_def Let_def keep_key_def set_default_cover_size_def reconfigure_def)
  then show ?thesis
    using updated row by (simp add: json_answer_def apply_config_def Let_def)
qed

text \<open>
  A save from the admin page loses the signing secret: when the body of a successful PATCH has none
  (the page never sends one), every later read of the configuration has an empty secret, whatever
  was stored before.
\<close>

lemma patch_loses_secret:
  assumes "h_update_config s env w r = (a, s', w')" and "ap_status a = 200"
    and "decode_patch (aq_body r) = Some next" and "ac_stream_signing_secret next = []"
    and "fst (db_query_row env2 w') = Inr ()"
  shows "\<exists>c. fst (get_app_config env2 w') = Inr c \<and> ac_stream_signing_secret c = []"
proof (cases rule: h_update_config_cases [of s env w r])
  case refused
  then show ?thesis using assms(1,2) by auto
next
  case (updated cur next0 w2)
  have eq: "next0 = next" "w2 = w'" using updated(2,4) assms(1,3) by simp_all
  let ?c = "default_cover ((keep_key cur next)\<lparr>ac_database_url := []\<rparr>)"
  have "fst (get_app_config env2 (snd (update_app_config env (snd (get_app_config env w)) (keep_key cur next))))
      = Inr (utf8_config ?c)"
    using config_roundtrip_read [of env "snd (get_app_config env w)" "keep_key cur next" env2] updated(3) assms(5) eq
    by simp
  moreover have "ac_stream_signing_secret (utf8_config ?c) = []"
    using assms(4) by (simp add: utf8_config_def default_cover_def keep_key_def)
  ultimately show ?thesis using updated(3) eq by auto
qed

text \<open>A save of the admin page against a row that has a secret.\<close>

definition save_body :: gostring where
  "save_body = json_print (JObj [(''base_url'', JStr ''http://b''), (''api_key'', JStr []),
     (''default_cover_size'', JStr ''medium''), (''request_quality_profile'', JStr []),
     (''enable_auto_monitoring'', JBool True)])"

definition save_config :: app_config where
  "save_config = zero_config\<lparr>ac_base_url := ''http://b'', ac_default_cover_size := ''medium'',
     ac_enable_auto_monitoring := True\<rparr>"

lemma save_decoded: "decode_patch save_body = Some save_config"
  by (simp add: go_eval decode_patch_def save_body_def save_config_def config_fields_def zero_config_def)

definition sample_server :: server where
  "sample_server = new_server \<lparr>sd_auto = False, sd_client = Some sample_client, sd_store = True,
     sd_config = sample_config\<rparr>"

lemma stored_read:
  "get_app_config calm_env stored_world
     = (Inr (utf8_config (sample_config\<lparr>ac_database_url := [], ac_default_cover_size := ''medium''\<rparr>)),
        stored_world\<lparr>w_db := 2\<rparr>)"
  by (simp add: stored_world_def sample_stored get_app_config_row sample_decoded)

definition save_request :: api_request where
  "save_request = (sample_query [])\<lparr>aq_body := save_body\<rparr>"

lemma save_runs:
  "\<exists>w2. h_update_config sample_server calm_env stored_world save_request
     = (json_answer 200 (JObj [(''ok'', JBool True)]),
        apply_config (save_config\<lparr>ac_api_key := to_valid_utf8 ''key''\<rparr>) sample_server, w2)"
proof -
  let ?n = "save_config\<lparr>ac_api_key := to_valid_utf8 ''key''\<rparr>"
  have cur: "keep_key (utf8_config (sample_config\<lparr>ac_database_url := [], ac_default_cover_size := ''medium''\<rparr>))
      save_config = ?n"
    by (simp add: keep_key_def save_config_def zero_config_def utf8_config_def sample_config_def)
  have key: "to_valid_utf8 ''key'' = ''key''" by (simp add: to_valid_utf8_def rune_error_def)
  obtain w2 where "update_app_config calm_env (stored_world\<lparr>w_db := 2\<rparr>) ?n = (Inr (), w2)"
    by (simp add: update_app_config_def config_exec_def calm_env_def save_config_def zero_config_def
        default_cover_def config_json_def omit_def Let_def key)
  moreover have "sd_store (sv_deps sample_server)" by (simp add: sample_server_def new_server_def)
  ultimately show ?thesis
    by (simp add: h_update_config_def stored_read save_request_def save_decoded cur)
qed

lemma patch_loses_secret_example:
  "\<exists>w2 c. snd (snd (h_update_config sample_server calm_env stored_world save_request)) = w2
     \<and> fst (get_app_config calm_env w2) = Inr c \<and> ac_stream_signing_secret c = []"
proof -
  obtain w2 where run: "h_update_config sample_server calm_env stored_world save_request
     = (json_answer 200 (JObj [(''ok'', JBool True)]),
        apply_config (save_config\<lparr>ac_api_key := to_valid_utf8 ''key''\<rparr>) sample_server, w2)"
    using save_runs by blast
  have "decode_patch (aq_body save_request) = Some save_config"
    by (simp add: save_request_def save_decoded)
  then show ?thesis
    unfolding run snd_conv using patch_loses_secret [OF run, of save_config calm_env]
    by (simp add: json_answer_def save_config_def zero_config_def)
qed

text \<open>
  \<open>GET /api/v1/admin/config\<close> leaves out the API key, but the signing secret of the media tokens is
  part of the answer.
\<close>

lemma get_config_discloses:
  assumes "sd_store (sv_deps s)" and "fst (get_app_config env w) = Inr cfg" and "ac_stream_signing_secret cfg \<noteq> []"
  shows "\<exists>ms. fst (h_get_config s env w) = json_answer 200 (JObj ms)
    \<and> (''stream_signing_secret'', JStr (ac_stream_signing_secret cfg)) \<in> set ms
    \<and> ''api_key'' \<notin> fst ` set ms"
proof -
  have "fst (h_get_config s env w) = json_answer 200 (config_json (cfg\<lparr>ac_api_key := []\<rparr>))"
    using assms by (simp add: h_get_config_def case_prod_beta)
  then show ?thesis
    using assms(3) by (auto simp: config_json_def omit_def)
qed

lemma get_config_discloses_example:
  "\<exists>ms. fst (h_get_config (new_server (empty_deps\<lparr>sd_store := True\<rparr>)) calm_env stored_world) = json_answer 200 (JObj ms)
    \<and> (''stream_signing_secret'', JStr ''s!'') \<in> set ms"
proof -
  have "to_valid_utf8 ''s!'' = ''s!''" by (simp add: to_valid_utf8_def rune_error_def)
  then show ?thesis
    using get_config_discloses [of "new_server (empty_deps\<lparr>sd_store := True\<rparr>)" calm_env stored_world
        "utf8_config (sample_config\<lparr>ac_database_url := [], ac_default_cover_size := ''medium''\<rparr>)"]
    by (auto simp: stored_read new_server_def empty_deps_def utf8_config_def sample_config_def)
qed

text \<open>
  C32. The HTTP surface cannot touch the requests: no route writes the table of forwarded requests or
  publishes an event, and only a PATCH changes the server's own state.
\<close>

theorem http_frame:
  assumes "chi_contract chi"
  shows "case serve chi page parse env (s, w) q of (a, s', w') \<Rightarrow>
    w_rows w' = w_rows w \<and> w_events w' = w_events w
    \<and> (rr_method q \<noteq> ''PATCH'' \<longrightarrow> s' = s)
    \<and> (\<exists>x. a = Some x)"
proof (cases "chi (route_table (sd_client (sv_deps s) \<noteq> None)) (rr_method q) (rr_path q)")
  case (Chi_Found rt ps)
  have "\<exists>pat. registered (route_table (sd_client (sv_deps s) \<noteq> None)) (rr_method q) pat = Some rt"
    using assms Chi_Found unfolding chi_contract_def by (auto dest!: spec split: chi_match.splits)
  then have "rr_method q \<noteq> ''PATCH'' \<longrightarrow> rt \<noteq> R_Update_Config"
    using registered_mem route_methods by fastforce
  then show ?thesis
    using serve_rows [of chi page parse env s w q]
      serve_route_server [of rt page parse env s w "(rr_request q)\<lparr>aq_params := ps\<rparr>"]
    unfolding serve_found [where chi = chi, OF Chi_Found] by (auto simp: case_prod_beta)
next
  case (Chi_Refused a)
  then show ?thesis by (simp add: serve_def)
qed

definition sample_get :: "gostring \<Rightarrow> routed_request" where
  "sample_get path = \<lparr>rr_method = ''GET'', rr_path = path, rr_request = sample_query []\<rparr>"

theorem http_frame_witness:
  "w_rows (snd (snd (serve plain_chi id (sample_parse f64_zero) calm_env (sample_server, stored_world)
      (sample_get ''/api/v1/admin/config'')))) = w_rows stored_world"
  using http_frame [OF plain_chi_contract, where page = id and parse = "sample_parse f64_zero" and env = calm_env
      and s = sample_server and w = stored_world and q = "sample_get ''/api/v1/admin/config''"]
  by (simp add: case_prod_beta)

text \<open>
  The theme that the admin page puts into an attribute cannot end it: the escaped text holds no
  quote and no angle bracket, whatever the header or the query says.
\<close>

lemma admin_theme_inert:
  "set (admin_theme r) \<inter> {CHR 0x22, CHR 0x27, CHR ''<'', CHR ''>''} = {}"
proof -
  have "set (html_char c) \<inter> {CHR 0x22, CHR 0x27, CHR ''<'', CHR ''>''} = {}" for c
    by (auto simp: html_char_def)
  then show ?thesis by (auto simp: admin_theme_def html_escape_def Let_def)
qed

end
