(* ===== verification/Consumer.thy ===== *)
theory Consumer
  imports Store Monitoring
begin

text \<open>
  internal/consumer/handler.go and internal/event/publisher.go: what the plugin does with an event
  of the host. The result \<open>Inr ()\<close> acknowledges the event, \<open>Inl e\<close> refuses it, and the host then
  delivers it again.
\<close>

section \<open>Publishing\<close>

text \<open>
  \<open>Publisher.Publish\<close>: \<open>bound\<close> tells whether the host client is there. What the host does with an
  event, and an error it returns, are logged only; an event counts as published when it is handed
  over.
\<close>

definition publisher_publish :: "bool \<Rightarrow> gostring \<Rightarrow> payload \<Rightarrow> world \<Rightarrow> world" where
  "publisher_publish bound name p w = (if bound then emit name p w else w)"

definition publish :: "bool option \<Rightarrow> gostring \<Rightarrow> payload \<Rightarrow> world \<Rightarrow> world" where
  "publish pub name p w = (case pub of None \<Rightarrow> w | Some bound \<Rightarrow> publisher_publish bound name p w)"

lemma publisher_publish_frame [simp]:
  "w_rows (publisher_publish b n p w) = w_rows w" "w_config (publisher_publish b n p w) = w_config w"
  "w_http (publisher_publish b n p w) = w_http w"
  by (simp_all add: publisher_publish_def)

lemma publish_frame [simp]:
  "w_rows (publish pub n p w) = w_rows w" "w_config (publish pub n p w) = w_config w"
  "w_http (publish pub n p w) = w_http w"
  by (simp_all add: publish_def split: option.split)

lemma publish_events:
  "w_events (publish pub n p w) = w_events w @ (if pub = Some True then [(n, p)] else [])"
  by (simp add: publish_def publisher_publish_def split: option.split)

section \<open>Reading the payload\<close>

definition trimmed_string_value :: "anymap \<Rightarrow> gostring \<Rightarrow> gostring option" where
  "trimmed_string_value m key =
     (case map_of m key of
        None \<Rightarrow> None
      | Some v \<Rightarrow> (case v of AStr s \<Rightarrow> Some (trim_space s) | _ \<Rightarrow> Some []))"

fun first_target :: "anymap \<Rightarrow> gostring list \<Rightarrow> gostring option" where
  "first_target m [] = None"
| "first_target m (k # ks) =
     (case trimmed_string_value m k of Some t \<Rightarrow> Some t | None \<Rightarrow> first_target m ks)"

definition target_plugin_id_from_payload :: "anymap \<Rightarrow> gostring option" where
  "target_plugin_id_from_payload m =
     first_target m [''target_plugin_id'', ''target_provider_plugin_id'', ''provider_plugin_id'']"

definition request_id_from_payload :: "anymap \<Rightarrow> gostring" where
  "request_id_from_payload m =
     (let i = any_string (map_of m ''request_id'')
      in if i \<noteq> [] then i else any_string (map_of m ''requestId''))"

definition string_field :: "anymap \<Rightarrow> gostring \<Rightarrow> gostring" where
  "string_field m k = any_string (map_of m k)"

fun any_strings :: "any list \<Rightarrow> gostring list" where
  "any_strings [] = []"
| "any_strings (AStr s # xs) = s # any_strings xs"
| "any_strings (_ # xs) = any_strings xs"

definition string_slice_field :: "anymap \<Rightarrow> gostring \<Rightarrow> gostring list" where
  "string_slice_field m k = (case map_of m k of Some (AList v) \<Rightarrow> any_strings v | _ \<Rightarrow> [])"

section \<open>The handler\<close>

record consumer_deps =
  cd_has_store :: bool
  cd_pub :: "bool option"
  cd_bw :: "client option"
  cd_plugin_id :: gostring

definition submitted_event :: gostring where
  "submitted_event = ''plugin.silo.ebooks.request_submitted''"

definition event_request :: "anymap \<Rightarrow> monitoring_request" where
  "event_request p = \<lparr>mq_title = string_field p ''title'', mq_authors = string_slice_field p ''authors'',
     mq_isbn = string_field p ''isbn'', mq_format_pref = string_field p ''format_pref'',
     mq_quality_profile = [], mq_auto_monitor = any_bool (map_of p ''auto_monitor'')\<rparr>"

text \<open>The persisting calls of the handler: the time is read first, then the row is written.\<close>

definition persist ::
  "env \<Rightarrow> world \<Rightarrow> gostring \<Rightarrow> gostring \<Rightarrow> gostring \<Rightarrow> gostring \<Rightarrow> bool \<Rightarrow> unit res \<times> world" where
  "persist env w rid ext st err am =
     (let (t, w1) = now env w
      in upsert_forwarded_request env w1
           (zero_request\<lparr>fr_request_id := rid, fr_external_id := ext, fr_status := st,
              fr_error_text := err, fr_auto_monitor := am, fr_updated_at := t\<rparr>))"

definition forward_request ::
  "consumer_deps \<Rightarrow> client \<Rightarrow> env \<Rightarrow> world \<Rightarrow> gostring \<Rightarrow> anymap \<Rightarrow> unit res \<times> world" where
  "forward_request d bw env w rid p =
     (let am = any_bool (map_of p ''auto_monitor'')
      in case persist env w rid [] ''submitted'' [] am of
           (Inl e, w1) \<Rightarrow> (Inl (''persist submitted '' @ rid @ '': '' @ e), w1)
         | (Inr _, w1) \<Rightarrow>
             (case add_monitoring bw env w1 (event_request p) of
                (Inl err, w2) \<Rightarrow>
                  (case persist env w2 rid [] ''failed'' err am of
                     (Inl e, w3) \<Rightarrow> (Inl (''persist failed '' @ rid @ '': '' @ e), w3)
                   | (Inr _, w3) \<Rightarrow>
                       (Inr (), publish (cd_pub d) ''request_failed''
                          [(''request_id'', rid), (''requestId'', rid),
                           (''provider_plugin_id'', cd_plugin_id d), (''reason'', err)] w3))
              | (Inr resp, w2) \<Rightarrow>
                  (case persist env w2 rid (mr_id resp) ''acknowledged'' [] am of
                     (Inl e, w3) \<Rightarrow> (Inl (''persist acknowledged '' @ rid @ '': '' @ e), w3)
                   | (Inr _, w3) \<Rightarrow>
                       (Inr (), publish (cd_pub d) ''request_acknowledged''
                          [(''request_id'', rid), (''requestId'', rid), (''external_id'', mr_id resp),
                           (''provider_plugin_id'', cd_plugin_id d)] w3))))"

text \<open>
  \<open>deps_fn\<close> is \<open>None\<close> for a nil function and \<open>Some None\<close> for one that returns nil (before
  \<open>Configure\<close>); \<open>payload\<close> is \<open>None\<close> for an event without one.
\<close>

definition handle_event ::
  "consumer_deps option option \<Rightarrow> env \<Rightarrow> world \<Rightarrow> gostring \<Rightarrow> anymap option \<Rightarrow> unit res \<times> world" where
  "handle_event deps_fn env w name pl =
     (if name \<noteq> submitted_event then (Inr (), w)
      else case pl of
        None \<Rightarrow> (Inr (), w)
      | Some p \<Rightarrow>
          (case deps_fn of
             None \<Rightarrow> (Inl ''plugin not configured yet'', w)
           | Some None \<Rightarrow> (Inl ''plugin not configured yet'', w)
           | Some (Some d) \<Rightarrow>
               (case cd_bw d of
                  None \<Rightarrow> (Inl ''plugin dependencies not configured'', w)
                | Some bw \<Rightarrow>
                    if \<not> cd_has_store d then (Inl ''plugin dependencies not configured'', w)
                    else if target_plugin_id_from_payload p \<noteq> Some (cd_plugin_id d) then (Inr (), w)
                    else let rid = request_id_from_payload p
                         in if rid = [] then (Inr (), w)
                            else forward_request d bw env w rid p)))"

section \<open>Laws\<close>

lemma persist_frame [simp]:
  "w_http (snd (persist env w rid ext st err am)) = w_http w"
  "w_events (snd (persist env w rid ext st err am)) = w_events w"
  "w_config (snd (persist env w rid ext st err am)) = w_config w"
  by (simp_all add: persist_def case_prod_beta)

lemma persist_wrote:
  assumes "\<And>x. request_id x = rid \<Longrightarrow> external_id x = str_ptr ext \<Longrightarrow> status x = st \<Longrightarrow> P (Upsert x)"
  shows "wrote P w (snd (persist env w rid ext st err am))"
proof -
  have "wrote P (snd (now env w)) (snd (persist env w rid ext st err am))"
    unfolding persist_def case_prod_beta Let_def by (rule upsert_wrote) (simp add: assms)
  then show ?thesis by (rule wrote_cong [rotated 2]) simp_all
qed

lemma persist_row:
  assumes "fst (persist env w rid ext st err am) = Inr ()"
  obtains r where "row_at (w_rows (snd (persist env w rid ext st err am))) rid = Some r"
    "status r = status_after (row_at (w_rows w) rid) st" "ext \<noteq> [] \<Longrightarrow> external_id r = Some ext"
    "err \<noteq> [] \<Longrightarrow> error_text r = Some err"
proof -
  let ?r = "zero_request\<lparr>fr_request_id := rid, fr_external_id := ext, fr_status := st,
      fr_error_text := err, fr_auto_monitor := am, fr_updated_at := fst (now env w)\<rparr>"
  have "fst (upsert_forwarded_request env (snd (now env w)) ?r) = Inr ()"
    using assms by (simp add: persist_def case_prod_beta)
  then obtain t u where rows: "w_rows (snd (persist env w rid ext st err am))
      = sql_upsert (to_row t (?r\<lparr>fr_updated_at := u\<rparr>)) (w_rows w)"
    by (rule upsert_ok) (simp add: persist_def case_prod_beta)
  let ?x = "to_row t (?r\<lparr>fr_updated_at := u\<rparr>)"
  obtain r where r: "row_at (sql_upsert ?x (w_rows w)) (request_id ?x) = Some r"
    "status r = status_after (row_at (w_rows w) (request_id ?x)) (status ?x)"
    "external_id ?x \<noteq> None \<longrightarrow> external_id r = external_id ?x"
    "error_text ?x \<noteq> None \<longrightarrow> error_text r = error_text ?x"
    by (rule row_at_upsert_key)
  show thesis
    by (rule that [of r]) (use r in \<open>simp_all add: rows\<close>)
qed

text \<open>The statements of one event: they all write the row of its request id, and keep the table well formed.\<close>

definition event_stmt :: "gostring \<Rightarrow> sql_stmt \<Rightarrow> bool" where
  "event_stmt rid s \<longleftrightarrow> stmt_ok s \<and> stmt_key s = rid"

lemma persist_event_stmt:
  "st \<in> {''submitted'', ''failed''} \<or> (st = ''acknowledged'' \<and> ext \<noteq> []) \<Longrightarrow>
   writes (event_stmt rid) w (snd (persist env w rid ext st err am))"
  by (rule wrote_writes [OF persist_wrote])
    (auto simp: event_stmt_def row_ok_def known_statuses_def has_ext_def)

lemma forward_request_writes: "writes (event_stmt rid) w (snd (forward_request d bw env w rid p))"
proof -
  let ?am = "any_bool (map_of p ''auto_monitor'')"
  obtain r1 w1 where p1: "persist env w rid [] ''submitted'' [] ?am = (r1, w1)" by (metis surj_pair)
  obtain r2 w2 where a: "add_monitoring bw env w1 (event_request p) = (r2, w2)" by (metis surj_pair)
  have s1: "writes (event_stmt rid) w w1"
    using persist_event_stmt [of "''submitted''" "[]" rid w env "[]" ?am] p1 by simp
  have s2: "writes (event_stmt rid) w w2"
    using s1 add_monitoring_frame(1) [of bw env w1 "event_request p"] a by (auto simp: writes_def)
  show ?thesis
  proof (cases r1)
    case (Inl e)
    with s1 show ?thesis by (simp add: forward_request_def p1)
  next
    case (Inr u)
    show ?thesis
    proof (cases r2)
      case (Inl err)
      obtain r3 w3 where p3: "persist env w2 rid [] ''failed'' err ?am = (r3, w3)" by (metis surj_pair)
      have "writes (event_stmt rid) w w3"
        using s2 persist_event_stmt [of "''failed''" "[]" rid w2 env err ?am] p3
        by (auto intro: writes_trans)
      then show ?thesis
        by (cases r3) (simp_all add: forward_request_def p1 a p3 Inr Inl writes_def)
    next
      case (Inr resp)
      obtain r3 w3 where p3: "persist env w2 rid (mr_id resp) ''acknowledged'' [] ?am = (r3, w3)"
        by (metis surj_pair)
      have "mr_id resp \<noteq> []" using add_monitoring_id [of bw env w1 "event_request p" resp] a Inr by simp
      then have "writes (event_stmt rid) w w3"
        using s2 persist_event_stmt [of "''acknowledged''" "mr_id resp" rid w2 env "[]" ?am] p3
        by (auto intro: writes_trans)
      then show ?thesis
        by (cases r3) (simp_all add: forward_request_def p1 a p3 \<open>r1 = Inr u\<close> Inr writes_def)
    qed
  qed
qed

lemma handle_event_cases:
  obtains (idle) "snd (handle_event deps env w name pl) = w"
  | (forward) d bw p where "deps = Some (Some d)" "cd_bw d = Some bw" "pl = Some p"
      "request_id_from_payload p \<noteq> []"
      "handle_event deps env w name pl = forward_request d bw env w (request_id_from_payload p) p"
proof (cases "snd (handle_event deps env w name pl) = w")
  case False
  then obtain p d bw where "pl = Some p" "deps = Some (Some d)" "cd_bw d = Some bw"
    by (auto simp: handle_event_def split: if_splits option.splits)
  with False show thesis
    by (intro forward) (auto simp: handle_event_def Let_def split: if_splits)
qed

lemma handle_event_writes: "writes stmt_ok w (snd (handle_event deps env w name pl))"
proof (cases rule: handle_event_cases [of deps env w name pl])
  case (forward d bw p)
  then show ?thesis
    using writes_mono [OF forward_request_writes] by (auto simp: event_stmt_def)
qed simp

text \<open>An event this plugin has to act on.\<close>

definition actionable :: "consumer_deps \<Rightarrow> gostring \<Rightarrow> anymap \<Rightarrow> bool" where
  "actionable d name p \<longleftrightarrow> name = submitted_event \<and> cd_has_store d
     \<and> target_plugin_id_from_payload p = Some (cd_plugin_id d) \<and> request_id_from_payload p \<noteq> []"

lemma handle_event_actionable:
  "actionable d name p \<Longrightarrow> cd_bw d = Some bw \<Longrightarrow>
   handle_event (Some (Some d)) env w name (Some p) = forward_request d bw env w (request_id_from_payload p) p"
  by (simp add: handle_event_def actionable_def)

text \<open>When a persisting call succeeds, and when it cannot.\<close>

lemma persist_succeeds:
  assumes "e_db env = (\<lambda>_. Db_Ok)" "rid \<noteq> []" "pg_text rid" "pg_text ext" "pg_text st" "pg_text err"
  shows "fst (persist env w rid ext st err am) = Inr ()"
  using assms
  by (simp add: persist_def upsert_forwarded_request_def db_exec_def zero_request_def pg_text_opt_def
      str_ptr_def case_prod_beta Let_def)

lemma persist_unencodable:
  assumes "\<not> pg_text err"
  shows "fst (persist env w rid ext st err am) \<noteq> Inr ()"
proof -
  have "err \<noteq> []" using assms by (auto simp: pg_text_def)
  then show ?thesis
    using assms
    by (auto simp: persist_def upsert_forwarded_request_def db_exec_def zero_request_def pg_text_opt_def
        case_prod_beta Let_def split: db_outcome.splits)
qed

section \<open>Properties\<close>

lemma forward_request_ack:
  assumes "fst (forward_request d bw env w rid p) = Inr ()"
  obtains (failed) err r w1 where
      "w1 = snd (persist env w rid [] ''submitted'' [] (any_bool (map_of p ''auto_monitor'')))"
      "fst (add_monitoring bw env w1 (event_request p)) = Inl err"
      "row_at (w_rows (snd (forward_request d bw env w rid p))) rid = Some r"
      "status r = status_after (row_at (w_rows w) rid) ''failed''"
      "err \<noteq> [] \<Longrightarrow> error_text r = Some err"
      "w_events (snd (forward_request d bw env w rid p)) = w_events w @ (if cd_pub d = Some True then
         [(''request_failed'', [(''request_id'', rid), (''requestId'', rid),
           (''provider_plugin_id'', cd_plugin_id d), (''reason'', err)])] else [])"
  | (acknowledged) resp r w1 where
      "w1 = snd (persist env w rid [] ''submitted'' [] (any_bool (map_of p ''auto_monitor'')))"
      "fst (add_monitoring bw env w1 (event_request p)) = Inr resp"
      "row_at (w_rows (snd (forward_request d bw env w rid p))) rid = Some r"
      "status r = status_after (row_at (w_rows w) rid) ''acknowledged''"
      "external_id r = Some (mr_id resp)" "mr_id resp \<noteq> []"
      "w_events (snd (forward_request d bw env w rid p)) = w_events w @ (if cd_pub d = Some True then
         [(''request_acknowledged'', [(''request_id'', rid), (''requestId'', rid),
           (''external_id'', mr_id resp), (''provider_plugin_id'', cd_plugin_id d)])] else [])"
proof -
  let ?am = "any_bool (map_of p ''auto_monitor'')"
  obtain r1 w1 where p1: "persist env w rid [] ''submitted'' [] ?am = (r1, w1)" by (metis surj_pair)
  obtain r2 w2 where a: "add_monitoring bw env w1 (event_request p) = (r2, w2)" by (metis surj_pair)
  have r1: "r1 = Inr ()" using assms by (cases r1) (auto simp: forward_request_def p1)
  have w2: "w_rows w2 = w_rows w1" "w_events w2 = w_events w1"
    using add_monitoring_frame [of bw env w1 "event_request p"] a by simp_all
  have w1: "w_events w1 = w_events w" using persist_frame(2) [of env w rid] p1 by (metis snd_conv)
  obtain q where q: "row_at (w_rows w1) rid = Some q"
    "status q = status_after (row_at (w_rows w) rid) ''submitted''"
    using persist_row [of env w rid "[]" "''submitted''" "[]" ?am] p1 r1 by (metis fst_conv snd_conv)
  have twice: "status_after (row_at (w_rows w2) rid) st = status_after (row_at (w_rows w) rid) st" for st
    using status_after_twice [OF q(2)] q(1) w2 by (simp add: terminal_def)
  show thesis
  proof (cases r2)
    case (Inl err)
    obtain r3 w3 where p3: "persist env w2 rid [] ''failed'' err ?am = (r3, w3)" by (metis surj_pair)
    have r3: "r3 = Inr ()" using assms by (cases r3) (auto simp: forward_request_def p1 a p3 r1 Inl)
    have fin: "snd (forward_request d bw env w rid p) = publish (cd_pub d) ''request_failed''
        [(''request_id'', rid), (''requestId'', rid), (''provider_plugin_id'', cd_plugin_id d), (''reason'', err)] w3"
      by (simp add: forward_request_def p1 a p3 r1 r3 Inl)
    obtain r where "row_at (w_rows w3) rid = Some r"
      "status r = status_after (row_at (w_rows w2) rid) ''failed''" "err \<noteq> [] \<Longrightarrow> error_text r = Some err"
      using persist_row [of env w2 rid "[]" "''failed''" err ?am] p3 r3 by (metis fst_conv snd_conv)
    moreover have "w_events w3 = w_events w"
      using persist_frame(2) [of env w2 rid "[]" "''failed''" err ?am] p3 w1 w2 by simp
    ultimately show ?thesis
      by (intro failed [of w1 err r]) (simp_all add: p1 a Inl fin twice publish_events)
  next
    case (Inr resp)
    obtain r3 w3 where p3: "persist env w2 rid (mr_id resp) ''acknowledged'' [] ?am = (r3, w3)"
      by (metis surj_pair)
    have r3: "r3 = Inr ()" using assms by (cases r3) (auto simp: forward_request_def p1 a p3 r1 Inr)
    have fin: "snd (forward_request d bw env w rid p) = publish (cd_pub d) ''request_acknowledged''
        [(''request_id'', rid), (''requestId'', rid), (''external_id'', mr_id resp),
         (''provider_plugin_id'', cd_plugin_id d)] w3"
      by (simp add: forward_request_def p1 a p3 r1 r3 Inr)
    have ne: "mr_id resp \<noteq> []" using add_monitoring_id [of bw env w1 "event_request p" resp] a Inr by simp
    obtain r where "row_at (w_rows w3) rid = Some r"
      "status r = status_after (row_at (w_rows w2) rid) ''acknowledged''" "external_id r = Some (mr_id resp)"
      using persist_row [of env w2 rid "mr_id resp" "''acknowledged''" "[]" ?am] p3 r3 ne
      by (metis fst_conv snd_conv)
    moreover have "w_events w3 = w_events w"
      using persist_frame(2) [of env w2 rid "mr_id resp" "''acknowledged''" "[]" ?am] p3 w1 w2 by simp
    ultimately show ?thesis
      by (intro acknowledged [of w1 resp r]) (simp_all add: p1 a Inr fin twice publish_events ne)
  qed
qed

lemma forward_request_nack:
  assumes "fst (forward_request d bw env w rid p) = Inl e"
  shows "w_events (snd (forward_request d bw env w rid p)) = w_events w"
proof -
  let ?am = "any_bool (map_of p ''auto_monitor'')"
  obtain r1 w1 where p1: "persist env w rid [] ''submitted'' [] ?am = (r1, w1)" by (metis surj_pair)
  obtain r2 w2 where a: "add_monitoring bw env w1 (event_request p) = (r2, w2)" by (metis surj_pair)
  have w1: "w_events w1 = w_events w" using persist_frame(2) [of env w rid] p1 by (metis snd_conv)
  have w2: "w_events w2 = w_events w"
    using add_monitoring_frame(2) [of bw env w1 "event_request p"] a w1 by simp
  have "w_events (snd (persist env w2 rid ext st err ?am)) = w_events w" for ext st err
    using w2 by simp
  then show ?thesis
    using assms w1
    by (cases r1; cases r2) (auto simp: forward_request_def p1 a case_prod_beta Let_def split: sum.splits)
qed

text \<open>
  The guards of \<open>HandleEvent\<close>: an event that is not this plugin's (another name, no payload, another
  or no target, no request id) is acknowledged with no effect at all; an event that arrives before
  the plugin is configured is refused with no effect, so that the host delivers it again.
\<close>

lemma handle_event_guards:
  "(name \<noteq> submitted_event \<longrightarrow> handle_event deps env w name pl = (Inr (), w))
   \<and> handle_event deps env w name None = (Inr (), w)
   \<and> (\<not> actionable d name p \<and> cd_has_store d \<and> cd_bw d \<noteq> None \<longrightarrow>
        handle_event (Some (Some d)) env w name (Some p) = (Inr (), w))
   \<and> (deps = None \<or> deps = Some None \<longrightarrow>
        handle_event deps env w submitted_event (Some p) = (Inl ''plugin not configured yet'', w))"
  by (auto simp: handle_event_def actionable_def Let_def)

definition sample_deps :: consumer_deps where
  "sample_deps = \<lparr>cd_has_store = True, cd_pub = Some True, cd_bw = Some sample_client, cd_plugin_id = ''bw''\<rparr>"

definition sample_payload :: anymap where
  "sample_payload = [(''target_plugin_id'', AStr '' bw ''), (''request_id'', AStr ''r1''),
     (''title'', AStr ''Dune''), (''authors'', AList [AStr ''Frank Herbert'', ANil])]"

lemma handle_event_guards_example:
  "handle_event (Some (Some sample_deps)) calm_env empty_world ''other'' (Some sample_payload) = (Inr (), empty_world)
   \<and> handle_event (Some None) calm_env empty_world submitted_event (Some sample_payload)
       = (Inl ''plugin not configured yet'', empty_world)"
  using handle_event_guards [of "''other''" "Some (Some sample_deps)" calm_env empty_world
      "Some sample_payload" sample_deps sample_payload]
    handle_event_guards [of submitted_event "Some None" calm_env empty_world
      "Some sample_payload" sample_deps sample_payload]
  by (simp add: submitted_event_def)

lemma sample_actionable: "actionable sample_deps submitted_event sample_payload"
  "cd_bw sample_deps = Some sample_client" "request_id_from_payload sample_payload = ''r1''"
  by (simp_all add: actionable_def sample_deps_def sample_payload_def target_plugin_id_from_payload_def
      trimmed_string_value_def trim_space_def is_space_def request_id_from_payload_def Let_def)


lemma sample_event_ack:
  "fst (handle_event (Some (Some sample_deps)) (answering 200 queued_body) w submitted_event (Some sample_payload))
     = Inr ()"
proof -
  have "fst (persist (answering 200 queued_body) v ''r1'' ext st [] am) = Inr ()"
    if "pg_text ext" "pg_text st" for v ext st am
    using that by (intro persist_succeeds) (simp_all add: pg_text_def rune_error_def)
  moreover have "pg_text []" "pg_text ''submitted''" "pg_text ''acknowledged''" "pg_text ''x9''"
    by (simp_all add: pg_text_def rune_error_def)
  ultimately show ?thesis
    using add_monitoring_queued
    by (simp add: handle_event_actionable sample_actionable forward_request_def case_prod_beta Let_def)
qed




text \<open>
  An event touches the row of its own request only, whatever the upstream and the database do,
  and keeps the table well formed: keys distinct, known statuses, an upstream id on every row that
  upstream accepted.
\<close>

lemma handle_event_isolated:
  assumes "k \<noteq> request_id_from_payload p"
  shows "row_at (w_rows (snd (handle_event deps env w name (Some p)))) k = row_at (w_rows w) k
    \<and> (table_ok (w_rows w) \<longrightarrow> table_ok (w_rows (snd (handle_event deps env w name (Some p)))))
    \<and> (keys_distinct (w_rows w) \<longrightarrow> keys_distinct (w_rows (snd (handle_event deps env w name (Some p)))))"
proof (intro conjI impI)
  show "row_at (w_rows (snd (handle_event deps env w name (Some p)))) k = row_at (w_rows w) k"
  proof (cases rule: handle_event_cases [of deps env w name "Some p"])
    case (forward d bw q)
    have "writes (\<lambda>s. stmt_key s \<in> {request_id_from_payload q}) w
        (snd (forward_request d bw env w (request_id_from_payload q) q))"
      using forward_request_writes by (rule writes_mono) (simp add: event_stmt_def)
    then show ?thesis using writes_other assms forward by fastforce
  qed simp
qed (use writes_ok writes_distinct handle_event_writes in blast)+

lemma handle_event_isolated_example:
  "row_at (w_rows (snd (handle_event (Some (Some sample_deps)) calm_env
      (empty_world\<lparr>w_rows := [sample_row ''r2'' ''found'']\<rparr>) submitted_event (Some sample_payload)))) ''r2''
   = Some (sample_row ''r2'' ''found'')"
  using handle_event_isolated [of "''r2''" sample_payload "Some (Some sample_deps)" calm_env
      "empty_world\<lparr>w_rows := [sample_row ''r2'' ''found'']\<rparr>" submitted_event]
  by (simp add: sample_actionable sample_row_def)


text \<open>A body whose two-byte character lies across the cut.\<close>

definition cut_body :: gostring where
  "cut_body = replicate 511 (CHR ''a'') @ [CHR 0xC3, CHR 0xA9]"

lemma runes_replicate: "byte_of c < 0x80 \<Longrightarrow> runes (replicate n c @ s) = replicate n (byte_of c, [c]) @ runes s"
  by (induction n) auto

lemma cut_error:
  "fst (add_monitoring sample_client (answering 500 cut_body) w r)
     = Inl (''upstream 500: '' @ replicate 511 (CHR ''a'') @ [CHR 0xC3] @ truncated_suffix)"
proof -
  have "itoa 500 = ''500''" by code_simp
  then show ?thesis
    by (simp add: add_monitoring_def go_eval trunc_for_error_def err_body_snippet_def cut_body_def)
qed


end
