(* ===== verification/Reconciler.thy ===== *)
theory Reconciler
  imports Consumer
begin

text \<open>
  internal/reconciler/reconciler.go and internal/scheduler/server.go: the poll that brings the rows
  of the table in step with upstream, and the scheduled task that runs it.

  The deadline of a tick and of a row, and a cancelled context, show in the environment: \<open>ctx.Err()\<close>
  before each row is \<open>ctx_err\<close>, and a call that runs out of time is an error of the round trip or of
  the database. \<open>locked\<close> is the state of \<open>tickMu\<close> when \<open>TryLock\<close> is called.
\<close>

section \<open>One row\<close>

definition translate_status :: "gostring \<Rightarrow> gostring" where
  "translate_status s =
     (if s = ''queued'' \<or> s = ''monitoring'' then ''searching''
      else if s = ''found'' then ''found''
      else if s = ''downloading'' \<or> s = ''grabbing'' then ''downloading''
      else if s = ''imported'' \<or> s = ''completed'' then ''imported''
      else if s = ''failed'' \<or> s = ''error'' then ''failed''
      else [])"

record reconciler_deps =
  rd_pub :: bool
  rd_bw :: client
  rd_plugin_id :: gostring

text \<open>The event for a change of status.\<close>

definition transition_event ::
  "gostring \<Rightarrow> forwarded_request \<Rightarrow> monitoring_response \<Rightarrow> gostring \<Rightarrow> gostring \<times> payload" where
  "transition_event pid row snap st =
     (if st = ''imported'' then
        (''request_fulfilled'',
         [(''request_id'', fr_request_id row), (''requestId'', fr_request_id row),
          (''external_id'', fr_external_id row), (''fulfilled_book_id'', mr_id snap),
          (''provider_plugin_id'', pid)])
      else if st = ''failed'' then
        (''request_failed'',
         [(''request_id'', fr_request_id row), (''requestId'', fr_request_id row),
          (''external_id'', fr_external_id row), (''provider_plugin_id'', pid),
          (''reason'', ''upstream marked failed'')])
      else
        (''request_status_changed'',
         [(''request_id'', fr_request_id row), (''requestId'', fr_request_id row),
          (''external_id'', fr_external_id row), (''provider_plugin_id'', pid),
          (''status'', st)]))"

text \<open>\<open>firstErr\<close>: the first failure of a write is kept.\<close>

definition keep_first :: "gostring option \<Rightarrow> gostring \<Rightarrow> 'a res \<Rightarrow> gostring option" where
  "keep_first fe p r =
     (case r of Inr _ \<Rightarrow> fe | Inl e \<Rightarrow> (case fe of None \<Rightarrow> Some (p @ e) | Some f \<Rightarrow> Some f))"

definition poll_failed ::
  "env \<Rightarrow> world \<Rightarrow> gostring option \<Rightarrow> forwarded_request \<Rightarrow> gostring \<Rightarrow> gostring option \<times> world" where
  "poll_failed env w fe row err =
     (let (t1, w1) = now env w;
          (t2, w2) = now env w1;
          (r, w3) = upsert_forwarded_request env w2
            (zero_request\<lparr>fr_request_id := fr_request_id row, fr_external_id := fr_external_id row,
               fr_status := fr_status row, fr_last_polled := t1, fr_error_text := err,
               fr_updated_at := t2\<rparr>)
      in (keep_first fe ''upsert (after upstream err): '' r, w3))"

definition mark_now ::
  "env \<Rightarrow> world \<Rightarrow> gostring option \<Rightarrow> gostring \<Rightarrow> forwarded_request \<Rightarrow> gostring \<Rightarrow> gostring option \<times> world" where
  "mark_now env w fe what row st =
     (let (t, w1) = now env w;
          (r, w2) = mark_polled env w1 (fr_request_id row) (fr_external_id row) st t
      in (keep_first fe what r, w2))"

definition process_row ::
  "reconciler_deps \<Rightarrow> env \<Rightarrow> world \<Rightarrow> gostring option \<Rightarrow> forwarded_request \<Rightarrow> gostring option \<times> world" where
  "process_row rd env w fe row =
     (if fr_external_id row = [] then (fe, w)
      else case get_monitoring (rd_bw rd) env w (fr_external_id row) of
        (Inl err, w1) \<Rightarrow> poll_failed env w1 fe row err
      | (Inr snap, w1) \<Rightarrow>
          (let new_status = translate_status (mr_status snap)
           in if new_status = [] \<or> new_status = fr_status row
              then mark_now env w1 fe ''mark polled (no transition): '' row (fr_status row)
              else let (fe2, w2) = mark_now env w1 fe ''mark polled (status change): '' row new_status;
                       ev = transition_event (rd_plugin_id rd) row snap new_status
                   in (fe2, publisher_publish (rd_pub rd) (fst ev) (snd ev) w2)))"

section \<open>The tick\<close>

fun tick_rows ::
  "reconciler_deps \<Rightarrow> env \<Rightarrow> world \<Rightarrow> gostring option \<Rightarrow> forwarded_request list \<Rightarrow> gostring option \<times> world" where
  "tick_rows rd env w fe [] = (fe, w)"
| "tick_rows rd env w fe (row # rows) =
     (case ctx_err env w of
        (True, w1) \<Rightarrow> (fe, w1)
      | (False, w1) \<Rightarrow>
          (case process_row rd env w1 fe row of (fe2, w2) \<Rightarrow> tick_rows rd env w2 fe2 rows))"

definition tick_limit :: int where
  "tick_limit = 200"

definition tick :: "reconciler_deps \<Rightarrow> env \<Rightarrow> bool \<Rightarrow> world \<Rightarrow> unit res \<times> world" where
  "tick rd env locked w =
     (if locked then (Inr (), w)
      else case list_non_terminal env w tick_limit of
        (Inl e, w1) \<Rightarrow> (Inl e, w1)
      | (Inr rows, w1) \<Rightarrow>
          (case tick_rows rd env w1 None rows of
             (None, w2) \<Rightarrow> (Inr (), w2)
           | (Some e, w2) \<Rightarrow> (Inl e, w2)))"

section \<open>The scheduled task\<close>

definition task_id :: "gostring \<Rightarrow> gostring" where
  "task_id key = (if CHR '':'' \<in> set key then after_last (CHR '':'') key else key)"

text \<open>\<open>Run\<close>; the error for an unknown key also quotes the key.\<close>

definition run_task :: "reconciler_deps option \<Rightarrow> env \<Rightarrow> bool \<Rightarrow> world \<Rightarrow> gostring \<Rightarrow> unit res \<times> world" where
  "run_task deps env locked w key =
     (if task_id key \<noteq> ''reconciler'' then (Inl ''unknown task key'', w)
      else case deps of
        None \<Rightarrow> (Inl ''plugin not configured yet'', w)
      | Some rd \<Rightarrow> tick rd env locked w)"

section \<open>Laws\<close>

lemma poll_failed_frame [simp]:
  "w_http (snd (poll_failed env w fe row err)) = w_http w"
  "w_events (snd (poll_failed env w fe row err)) = w_events w"
  by (simp_all add: poll_failed_def case_prod_beta Let_def)

lemma mark_now_frame [simp]:
  "w_http (snd (mark_now env w fe p row st)) = w_http w"
  "w_events (snd (mark_now env w fe p row st)) = w_events w"
  by (simp_all add: mark_now_def case_prod_beta Let_def)

lemma poll_failed_wrote:
  assumes "\<And>x. request_id x = fr_request_id row \<Longrightarrow> external_id x = str_ptr (fr_external_id row)
      \<Longrightarrow> status x = fr_status row \<Longrightarrow> P (Upsert x)"
  shows "wrote P w (snd (poll_failed env w fe row err))"
proof -
  have "wrote P (snd (now env (snd (now env w)))) (snd (poll_failed env w fe row err))"
    unfolding poll_failed_def case_prod_beta Let_def snd_conv by (rule upsert_wrote) (simp add: assms)
  then show ?thesis by (rule wrote_cong [rotated 2]) simp_all
qed

lemma mark_now_wrote:
  assumes "\<And>t. P (Mark_Polled (fr_request_id row) (str_ptr (fr_external_id row)) st t)"
  shows "wrote P w (snd (mark_now env w fe p row st))"
proof -
  have "wrote P (snd (now env w)) (snd (mark_now env w fe p row st))"
    unfolding mark_now_def case_prod_beta Let_def snd_conv by (rule mark_polled_wrote) (rule assms)
  then show ?thesis by (rule wrote_cong [rotated 2]) simp_all
qed

lemma translate_status_known: "translate_status s \<noteq> [] \<Longrightarrow> translate_status s \<in> set known_statuses"
  by (simp add: translate_status_def known_statuses_def split: if_splits)

lemma process_row_skip: "fr_external_id row = [] \<Longrightarrow> process_row rd env w fe row = (fe, w)"
  by (simp add: process_row_def)

lemma process_row_cases:
  assumes "fr_external_id row \<noteq> []"
  obtains (err) e w1 where "get_monitoring (rd_bw rd) env w (fr_external_id row) = (Inl e, w1)"
      "process_row rd env w fe row = poll_failed env w1 fe row e"
  | (same) snap w1 where "get_monitoring (rd_bw rd) env w (fr_external_id row) = (Inr snap, w1)"
      "translate_status (mr_status snap) \<in> {[], fr_status row}"
      "process_row rd env w fe row = mark_now env w1 fe ''mark polled (no transition): '' row (fr_status row)"
  | (change) snap w1 where "get_monitoring (rd_bw rd) env w (fr_external_id row) = (Inr snap, w1)"
      "translate_status (mr_status snap) \<notin> {[], fr_status row}"
      "snd (process_row rd env w fe row) =
         publisher_publish (rd_pub rd)
           (fst (transition_event (rd_plugin_id rd) row snap (translate_status (mr_status snap))))
           (snd (transition_event (rd_plugin_id rd) row snap (translate_status (mr_status snap))))
           (snd (mark_now env w1 fe ''mark polled (status change): '' row (translate_status (mr_status snap))))"
proof -
  obtain r w1 where g: "get_monitoring (rd_bw rd) env w (fr_external_id row) = (r, w1)" by (metis surj_pair)
  show thesis
  proof (cases r)
    case (Inl e)
    then show thesis using assms g by (intro err) (simp_all add: process_row_def)
  next
    case (Inr snap)
    show thesis
    proof (cases "translate_status (mr_status snap) \<in> {[], fr_status row}")
      case True
      then show thesis using assms g Inr by (intro same) (auto simp: process_row_def Let_def)
    next
      case False
      then show thesis using assms g Inr
        by (intro change) (simp_all add: process_row_def Let_def case_prod_beta)
    qed
  qed
qed

text \<open>The statements and the requests of one row.\<close>

definition row_stmt :: "forwarded_request \<Rightarrow> sql_stmt \<Rightarrow> bool" where
  "row_stmt row s \<longleftrightarrow> stmt_key s = fr_request_id row
     \<and> (fr_status row \<in> set known_statuses \<longrightarrow> stmt_ok s)"

text \<open>The one statement a row may cause: its status rewritten, or a status that upstream reports.\<close>

fun poll_stmt :: "forwarded_request \<Rightarrow> sql_stmt \<Rightarrow> bool" where
  "poll_stmt row (Upsert x) \<longleftrightarrow> request_id x = fr_request_id row
     \<and> external_id x = Some (fr_external_id row) \<and> status x = fr_status row"
| "poll_stmt row (Mark_Polled k e st t) \<longleftrightarrow> k = fr_request_id row \<and> e = Some (fr_external_id row)
     \<and> (st = fr_status row \<or> (st \<noteq> [] \<and> (\<exists>u. st = translate_status u)))"

lemma process_row_wrote:
  assumes "fr_external_id row \<noteq> []"
  shows "wrote (poll_stmt row) w (snd (process_row rd env w fe row))"
proof -
  have g: "w_rows w1 = w_rows w" if "get_monitoring (rd_bw rd) env w (fr_external_id row) = (r, w1)" for r w1
    using get_monitoring_frame(1) [of "rd_bw rd" env w "fr_external_id row"] that by simp
  have mark: "wrote (poll_stmt row) w1 (snd (mark_now env w1 fe p row st))"
    if "st = fr_status row \<or> (st \<noteq> [] \<and> (\<exists>u. st = translate_status u))" for w1 p st
    using that assms by (intro mark_now_wrote) (simp add: str_ptr_def)
  show ?thesis
  proof (cases rule: process_row_cases [OF assms, of rd env w fe])
    case (1 e w1)
    have "wrote (poll_stmt row) w1 (snd (poll_failed env w1 fe row e))"
      using assms by (intro poll_failed_wrote) (simp add: str_ptr_def)
    then show ?thesis using g [OF 1(1)] 1(2) by (auto intro: wrote_cong)
  next
    case (2 snap w1)
    then show ?thesis using g [OF 2(1)] mark [of "fr_status row" w1] by (auto intro: wrote_cong)
  next
    case (3 snap w1)
    let ?st = "translate_status (mr_status snap)"
    have "wrote (poll_stmt row) w1 (snd (mark_now env w1 fe ''mark polled (status change): '' row ?st))"
      using 3(2) by (intro mark) auto
    then show ?thesis using 3(3) by (intro wrote_cong [OF g [OF 3(1)]]) simp_all
  qed
qed

lemma poll_stmt_row: "poll_stmt row s \<Longrightarrow> fr_external_id row \<noteq> [] \<Longrightarrow> row_stmt row s"
  using translate_status_known by (cases s) (auto simp: row_stmt_def row_ok_def has_ext_def)

lemma process_row_writes: "writes (\<lambda>s. fr_external_id row \<noteq> [] \<and> row_stmt row s) w (snd (process_row rd env w fe row))"
proof (cases "fr_external_id row = []")
  case False
  show ?thesis
    by (rule writes_mono [OF wrote_writes [OF process_row_wrote [OF False]]]) (use False poll_stmt_row in simp)
qed (simp add: process_row_skip)

lemma process_row_asks:
  "fr_external_id row \<noteq> [] \<Longrightarrow>
   grows w_http (key_safe (upstream_host (rd_bw rd) (monitoring_path (fr_external_id row)))) 10 w
     (snd (process_row rd env w fe row))"
  using sends_grows [OF get_monitoring_sends [of "rd_bw rd" "fr_external_id row" w env]]
  by - (erule process_row_cases [of row rd env w fe]; simp add: grows_def)

text \<open>What one row publishes: nothing, or the one event of its change of status.\<close>

definition row_event :: "gostring \<Rightarrow> forwarded_request \<Rightarrow> gostring \<times> payload \<Rightarrow> bool" where
  "row_event pid row ev \<longleftrightarrow> fr_external_id row \<noteq> []
     \<and> (\<exists>snap st. st \<notin> {[], fr_status row} \<and> st = translate_status (mr_status snap)
          \<and> ev = transition_event pid row snap st)"

lemma process_row_events:
  "grows w_events (row_event (rd_plugin_id rd) row) 1 w (snd (process_row rd env w fe row))"
proof (cases "fr_external_id row = []")
  case False
  have g: "w_events w1 = w_events w" if "get_monitoring (rd_bw rd) env w (fr_external_id row) = (r, w1)" for r w1
    using get_monitoring_frame(2) [of "rd_bw rd" env w "fr_external_id row"] that by simp
  show ?thesis
  proof (cases rule: process_row_cases [OF False, of rd env w fe])
    case (1 e w1)
    with g show ?thesis by (intro grows_same) simp
  next
    case (2 snap w1)
    with g show ?thesis by (intro grows_same) simp
  next
    case (3 snap w1)
    let ?ev = "transition_event (rd_plugin_id rd) row snap (translate_status (mr_status snap))"
    have "w_events (snd (process_row rd env w fe row)) = w_events w @ (if rd_pub rd then [?ev] else [])"
      using g [OF 3(1)] 3(3) by (simp add: publisher_publish_def)
    moreover have "row_event (rd_plugin_id rd) row ?ev"
      using 3(2) False by (auto simp: row_event_def)
    ultimately show ?thesis by (cases "rd_pub rd") (auto intro: grows_same grows_one [where n = "Suc 0"])
  qed
qed (auto simp: process_row_skip intro: grows_same)

text \<open>The loop over the rows, by induction once for each of the three logs.\<close>

lemma tick_rows_step:
  "snd (tick_rows rd env w fe (row # rows)) =
     (if fst (ctx_err env w) then snd (ctx_err env w)
      else let (fe2, w2) = process_row rd env (snd (ctx_err env w)) fe row
           in snd (tick_rows rd env w2 fe2 rows))"
  by (simp add: case_prod_beta Let_def split: bool.split)

lemma tick_rows_writes:
  "writes (\<lambda>s. \<exists>row \<in> set rows. fr_external_id row \<noteq> [] \<and> row_stmt row s) w (snd (tick_rows rd env w fe rows))"
proof (induction rows arbitrary: w fe)
  case (Cons row rows)
  let ?Q = "\<lambda>s. \<exists>r \<in> set (row # rows). fr_external_id r \<noteq> [] \<and> row_stmt r s"
  let ?w1 = "snd (ctx_err env w)"
  have c: "writes ?Q w ?w1" by (rule writes_same) simp
  have "writes ?Q ?w1 (snd (process_row rd env ?w1 fe row))"
    using process_row_writes by (rule writes_mono) simp
  with c have "writes ?Q w (snd (process_row rd env ?w1 fe row))" by (rule writes_trans)
  moreover have "writes ?Q w2 (snd (tick_rows rd env w2 fe2 rows))" for w2 fe2
    using Cons.IH by (rule writes_mono) auto
  ultimately show ?case
    using c by (auto simp: tick_rows_step case_prod_beta Let_def intro: writes_trans simp del: tick_rows.simps)
qed simp

lemma tick_rows_asks: "grows w_http (\<lambda>_. True) (10 * length rows) w (snd (tick_rows rd env w fe rows))"
proof (induction rows arbitrary: w fe)
  case (Cons row rows)
  let ?w1 = "snd (ctx_err env w)"
  have p: "grows w_http (\<lambda>_. True) 10 w (snd (process_row rd env ?w1 fe row))"
  proof (cases "fr_external_id row = []")
    case False
    from process_row_asks [OF this, of rd ?w1 env fe] show ?thesis by (auto simp: grows_def)
  qed (simp add: process_row_skip grows_same)
  have s: "grows w_http (\<lambda>_. True) (10 * length (row # rows)) w ?w1" by (rule grows_same) simp
  have "grows w_http (\<lambda>_. True) (10 * length (row # rows)) w (snd (tick_rows rd env w2 fe2 rows))"
    if "process_row rd env ?w1 fe row = (fe2, w2)" for fe2 w2
    using grows_trans [OF p Cons.IH [of "snd (process_row rd env ?w1 fe row)" fe2]] that by simp
  with s show ?case by (auto simp: tick_rows_step case_prod_beta Let_def simp del: tick_rows.simps)
qed (simp add: grows_same)

lemma tick_rows_events:
  "grows w_events (\<lambda>ev. \<exists>row \<in> set rows. row_event (rd_plugin_id rd) row ev) (length rows) w
     (snd (tick_rows rd env w fe rows))"
proof (induction rows arbitrary: w fe)
  case (Cons row rows)
  let ?P = "\<lambda>rs ev. \<exists>r \<in> set rs. row_event (rd_plugin_id rd) r ev"
  let ?w1 = "snd (ctx_err env w)"
  have p: "grows w_events (?P (row # rows)) 1 w (snd (process_row rd env ?w1 fe row))"
    using process_row_events [of rd row ?w1 env fe] by (auto simp: grows_def)
  have s: "grows w_events (?P (row # rows)) (length (row # rows)) w ?w1" by (rule grows_same) simp
  have "grows w_events (?P (row # rows)) (length (row # rows)) w (snd (tick_rows rd env w2 fe2 rows))"
    if "process_row rd env ?w1 fe row = (fe2, w2)" for fe2 w2
  proof -
    have "grows w_events (?P (row # rows)) (length rows) w2 (snd (tick_rows rd env w2 fe2 rows))"
      using Cons.IH by (rule grows_mono) auto
    from grows_trans [OF p] this that show ?thesis by simp
  qed
  with s show ?case by (auto simp: tick_rows_step case_prod_beta Let_def simp del: tick_rows.simps)
qed (simp add: grows_same)

lemma tick_cases:
  obtains (idle) "w_rows (snd (tick rd env locked w)) = w_rows w" "w_http (snd (tick rd env locked w)) = w_http w"
      "w_events (snd (tick rd env locked w)) = w_events w"
  | (run) rows w1 where "\<not> locked" "list_non_terminal env w tick_limit = (Inr rows, w1)"
      "snd (tick rd env locked w) = snd (tick_rows rd env w1 None rows)"
      "w_rows w1 = w_rows w" "w_http w1 = w_http w" "w_events w1 = w_events w"
proof (cases "locked \<or> (\<exists>e. fst (list_non_terminal env w tick_limit) = Inl e)")
  case True
  then show thesis
    by (intro idle) (auto simp: tick_def case_prod_beta)
next
  case False
  then obtain rows where "fst (list_non_terminal env w tick_limit) = Inr rows"
    by (cases "fst (list_non_terminal env w tick_limit)") auto
  then obtain w1 where l: "list_non_terminal env w tick_limit = (Inr rows, w1)"
    by (metis prod.collapse)
  have "snd (tick rd env locked w) = snd (tick_rows rd env w1 None rows)"
    using False by (simp add: tick_def l case_prod_beta split: option.split)
  with False l show thesis
    using list_non_terminal_frame [of env w tick_limit] by (intro run [of rows w1]) simp_all
qed

text \<open>Where the rows of a tick come from.\<close>

lemma listed_row:
  assumes "list_non_terminal env w tick_limit = (Inr rows, w1)" and "x \<in> set rows"
  obtains r where "r \<in> set (w_rows w)" "\<not> terminal (status r)" "x = scan_row r"
proof -
  have "fst (list_non_terminal env w tick_limit) = Inr rows" using assms(1) by simp
  then show thesis using assms(2) by (rule list_non_terminal_mem) (rule that)
qed

lemma listed_length: "list_non_terminal env w tick_limit = (Inr rows, w1) \<Longrightarrow> length rows \<le> 200"
  using list_non_terminal_length [of env w tick_limit rows] by (simp add: tick_limit_def)

lemma has_ext_iff: "has_ext e \<longleftrightarrow> or_zero [] e \<noteq> []"
  by (cases e) (auto simp: has_ext_def)

lemma tick_writes: "table_ok (w_rows w) \<Longrightarrow> writes stmt_ok w (snd (tick rd env locked w))"
proof (cases rule: tick_cases [of rd env locked w])
  case (run rows w1)
  assume ok: "table_ok (w_rows w)"
  have "writes stmt_ok w1 (snd (tick_rows rd env w1 None rows))"
  proof (rule writes_mono [OF tick_rows_writes])
    fix s assume "\<exists>row \<in> set rows. fr_external_id row \<noteq> [] \<and> row_stmt row s"
    then obtain row where row: "row \<in> set rows" "row_stmt row s" by blast
    obtain r where "r \<in> set (w_rows w)" "row = scan_row r"
      using run(2) row(1) by (rule listed_row)
    with ok row(2) show "stmt_ok s" by (auto simp: row_stmt_def table_ok_def row_ok_def)
  qed
  then show ?thesis using run by (simp add: writes_def)
qed (simp add: writes_same)

text \<open>A row stays under the number of times the context lets the loop go on.\<close>

lemma do_request_ctx [simp]: "w_ctx (snd (get_monitoring c env w ext)) = w_ctx w"
  using sends_frame [OF get_monitoring_sends [of c ext w env]] by simp

lemma now_ctx [simp]: "w_ctx (snd (now env w)) = w_ctx w"
  by (simp add: now_def)

lemma upsert_ctx [simp]: "w_ctx (snd (upsert_forwarded_request env w r)) = w_ctx w"
  by (simp add: upsert_forwarded_request_def case_prod_beta Let_def)

lemma mark_polled_ctx [simp]: "w_ctx (snd (mark_polled env w rid ext st t)) = w_ctx w"
  by (simp add: mark_polled_def case_prod_beta Let_def)

lemma list_non_terminal_ctx [simp]: "w_ctx (snd (list_non_terminal env w n)) = w_ctx w"
  by (simp add: list_non_terminal_def db_query_def Let_def case_prod_beta split: sum.split db_outcome.split)

lemma process_row_ctx [simp]: "w_ctx (snd (process_row rd env w fe row)) = w_ctx w"
  by (simp add: process_row_def poll_failed_def mark_now_def publisher_publish_def emit_def
      case_prod_beta Let_def split: sum.split)

lemma tick_rows_budget:
  "e_ctx_done env (w_ctx w + k) \<Longrightarrow> grows w_http (\<lambda>_. True) (10 * k) w (snd (tick_rows rd env w fe rows))"
proof (induction rows arbitrary: w fe k)
  case (Cons row rows)
  show ?case
  proof (cases "e_ctx_done env (w_ctx w)")
    case True
    then show ?thesis by (auto simp: ctx_err_def grows_same)
  next
    case False
    let ?w1 = "snd (ctx_err env w)"
    obtain fe2 w2 where p: "process_row rd env ?w1 fe row = (fe2, w2)" by (metis surj_pair)
    obtain j where k: "k = Suc j" using Cons.prems False by (cases k) auto
    have "w_ctx w2 = w_ctx ?w1"
      using process_row_ctx [of rd env ?w1 fe row] p by (metis snd_conv)
    then have "w_ctx w2 = Suc (w_ctx w)" by (simp add: ctx_err_def)
    then have "grows w_http (\<lambda>_. True) (10 * j) w2 (snd (tick_rows rd env w2 fe2 rows))"
      using Cons.IH [of w2 j fe2] Cons.prems k by simp
    moreover have "grows w_http (\<lambda>_. True) 10 w w2"
      using process_row_asks [of row rd ?w1 env fe] p
      by (cases "fr_external_id row = []") (auto simp: process_row_skip grows_def)
    ultimately have "grows w_http (\<lambda>_. True) (10 + 10 * j) w (snd (tick_rows rd env w2 fe2 rows))"
      by (rule grows_trans [rotated])
    then show ?thesis
      using False p k by (simp add: ctx_err_def)
  qed
qed (simp add: grows_same)

section \<open>Properties\<close>

text \<open>
  C22. What the poll of a row publishes, exactly: nothing for a row without an upstream id, for a poll
  that fails, for an unknown upstream status or for the status the row has; otherwise the one event
  of the new status. A failure of the database does not hold the event back.
\<close>

theorem poll_publishes_transition:
  "w_events (snd (process_row rd env w fe row)) = w_events w @
     (if fr_external_id row = [] then []
      else case fst (get_monitoring (rd_bw rd) env w (fr_external_id row)) of
        Inl _ \<Rightarrow> []
      | Inr snap \<Rightarrow>
          if translate_status (mr_status snap) \<in> {[], fr_status row} then []
          else if rd_pub rd
          then [transition_event (rd_plugin_id rd) row snap (translate_status (mr_status snap))] else [])"
proof (cases "fr_external_id row = []")
  case False
  have g: "w_events w1 = w_events w" if "get_monitoring (rd_bw rd) env w (fr_external_id row) = (r, w1)" for r w1
    using get_monitoring_frame(2) [of "rd_bw rd" env w "fr_external_id row"] that by simp
  show ?thesis
  proof (cases rule: process_row_cases [OF False, of rd env w fe])
    case (3 snap w1)
    then show ?thesis using False g [OF 3(1)] by (auto simp: publisher_publish_def)
  qed (use False g in auto)
qed (simp add: process_row_skip)

text \<open>What the two writes of a poll leave in the row, when they succeed.\<close>

lemma keep_first_none: "keep_first None p r = None \<longleftrightarrow> (\<exists>u. r = Inr u)"
  by (cases r) (simp_all add: keep_first_def)

lemma mark_now_row:
  assumes "fst (mark_now env w None what row st) = None" and "fr_external_id row \<noteq> []"
    and "row_at (w_rows w) (fr_request_id row) = Some old"
  shows "\<exists>r. row_at (w_rows (snd (mark_now env w None what row st))) (fr_request_id row) = Some r
    \<and> external_id r = Some (fr_external_id row) \<and> error_text r = None \<and> last_polled r \<noteq> None
    \<and> status r = status_after (Some old) st"
proof -
  have "fst (mark_polled env (snd (now env w)) (fr_request_id row) (fr_external_id row) st (fst (now env w))) = Inr ()"
    using assms(1) by (auto simp: mark_now_def case_prod_beta Let_def keep_first_none)
  then show ?thesis
    by (rule mark_polled_ok)
      (use assms(2,3) in \<open>simp add: mark_now_def case_prod_beta Let_def row_at_mark_polled
        polled_row_def status_after_def\<close>)
qed

lemma poll_failed_row:
  assumes "fst (poll_failed env w None row err) = None" and "fr_external_id row \<noteq> []"
    and "row_at (w_rows w) (fr_request_id row) = Some old"
  shows "\<exists>r. row_at (w_rows (snd (poll_failed env w None row err))) (fr_request_id row) = Some r
    \<and> external_id r = Some (fr_external_id row)
    \<and> status r = status_after (Some old) (fr_status row) \<and> (err \<noteq> [] \<longrightarrow> error_text r = Some err)"
proof -
  let ?t1 = "fst (now env w)" and ?w2 = "snd (now env w)"
  let ?x = "zero_request\<lparr>fr_request_id := fr_request_id row, fr_external_id := fr_external_id row,
      fr_status := fr_status row, fr_last_polled := ?t1, fr_error_text := err,
      fr_updated_at := fst (now env ?w2)\<rparr>"
  have "fst (upsert_forwarded_request env (snd (now env ?w2)) ?x) = Inr ()"
    using assms(1) by (auto simp: poll_failed_def case_prod_beta Let_def keep_first_none)
  then obtain t u where "w_rows (snd (poll_failed env w None row err))
      = sql_upsert (to_row t (?x\<lparr>fr_updated_at := u\<rparr>)) (w_rows w)"
    by (rule upsert_ok) (simp add: poll_failed_def case_prod_beta Let_def)
  then show ?thesis using assms(2,3) by (simp add: row_at_upsert merge_row_def status_after_def)
qed

text \<open>
  C39. What the poll of a row stores when no write fails. If the poll failed, the row keeps its status
  and its id and gets the error text; if it succeeded, the error text is cleared, the poll time is
  stamped and the status is the translated one, or stays when it is unknown. A terminal row stays
  terminal in both cases.
\<close>

theorem poll_updates_row:
  assumes "fst (process_row rd env w None row) = None" and "fr_external_id row \<noteq> []"
    and "row_at (w_rows w) (fr_request_id row) = Some old"
  shows "\<exists>r. row_at (w_rows (snd (process_row rd env w None row))) (fr_request_id row) = Some r
    \<and> external_id r = Some (fr_external_id row)
    \<and> (case fst (get_monitoring (rd_bw rd) env w (fr_external_id row)) of
         Inl err \<Rightarrow> status r = status_after (Some old) (fr_status row) \<and> (err \<noteq> [] \<longrightarrow> error_text r = Some err)
       | Inr snap \<Rightarrow> error_text r = None \<and> last_polled r \<noteq> None
           \<and> status r = status_after (Some old)
               (if translate_status (mr_status snap) = [] then fr_status row
                else translate_status (mr_status snap)))"
proof -
  obtain g w1 where g: "get_monitoring (rd_bw rd) env w (fr_external_id row) = (g, w1)" by (metis surj_pair)
  have old: "row_at (w_rows w1) (fr_request_id row) = Some old"
    using get_monitoring_frame(1) [of "rd_bw rd" env w "fr_external_id row"] g assms(3) by simp
  show ?thesis
  proof (cases g)
    case (Inl err)
    then have "process_row rd env w None row = poll_failed env w1 None row err"
      using assms(2) g by (simp add: process_row_def)
    then show ?thesis using poll_failed_row assms(1,2) old g Inl by fastforce
  next
    case (Inr snap)
    show ?thesis
    proof (cases "translate_status (mr_status snap) \<in> {[], fr_status row}")
      case True
      then have "process_row rd env w None row = mark_now env w1 None ''mark polled (no transition): '' row (fr_status row)"
        using assms(2) g Inr by (auto simp: process_row_def Let_def)
      then show ?thesis using mark_now_row assms(1,2) old True g Inr by fastforce
    next
      case False
      let ?m = "mark_now env w1 None ''mark polled (status change): '' row (translate_status (mr_status snap))"
      have "fst (process_row rd env w None row) = fst ?m" "w_rows (snd (process_row rd env w None row)) = w_rows (snd ?m)"
        using assms(2) g Inr False by (simp_all add: process_row_def Let_def case_prod_beta)
      then show ?thesis using mark_now_row assms(1,2) old False g Inr by fastforce
    qed
  qed
qed

definition sample_rd :: reconciler_deps where
  "sample_rd = \<lparr>rd_pub = True, rd_bw = sample_client, rd_plugin_id = ''bw''\<rparr>"

definition sample_world :: world where
  "sample_world = empty_world\<lparr>w_rows := [sample_row ''r1'' ''found'', sample_row ''r2'' ''imported'']\<rparr>"

lemma get_monitoring_queued:
  "fst (get_monitoring sample_client (answering 200 queued_body) w ''x1'') = Inr \<lparr>mr_id = ''x9'', mr_status = ''queued''\<rparr>"
  using length_queued
  by (simp add: get_monitoring_def monitoring_path_def path_escape_def go_eval decode_queued)

theorem poll_updates_row_witness:
  "\<exists>r. row_at (w_rows (snd (process_row sample_rd (answering 200 queued_body) sample_world None
          (scan_row (sample_row ''r1'' ''found''))))) ''r1'' = Some r
     \<and> error_text r = None \<and> status r = ''searching''"
proof -
  let ?row = "scan_row (sample_row ''r1'' ''found'')"
  have bw: "rd_bw sample_rd = sample_client" by (simp add: sample_rd_def)
  have "fst (process_row sample_rd (answering 200 queued_body) sample_world None ?row) = None"
    using get_monitoring_queued
    by (simp add: process_row_def bw case_prod_beta Let_def translate_status_def mark_now_def
        mark_polled_def db_exec_def pg_text_def pg_text_opt_def rune_error_def sample_row_def
        keep_first_def wrap_err_def)
  from poll_updates_row [OF this, of "sample_row ''r1'' ''found''"] show ?thesis
    using get_monitoring_queued
    by (auto simp: bw sample_row_def sample_world_def translate_status_def status_after_def terminal_def)
qed

text \<open>
  C40. The bounds of a tick: whatever the upstream and the database answer, it sends at most 2000 requests
  (200 polls of at most ten hops), publishes at most 200 events, and every event is about a row
  that was not terminal and had an upstream id when the tick began.
\<close>

theorem tick_bounds:
  "(\<exists>qs. w_http (snd (tick rd env locked w)) = w_http w @ qs \<and> length qs \<le> 2000)
   \<and> (\<exists>es. w_events (snd (tick rd env locked w)) = w_events w @ es \<and> length es \<le> 200
        \<and> (\<forall>ev \<in> set es. \<exists>r \<in> set (w_rows w). \<not> terminal (status r) \<and> has_ext (external_id r)
              \<and> row_event (rd_plugin_id rd) (scan_row r) ev))"
proof (cases rule: tick_cases [of rd env locked w])
  case (run rows w1)
  have len: "length rows \<le> 200" using run(2) by (rule listed_length)
  have "grows w_http (\<lambda>_. True) 2000 w1 (snd (tick_rows rd env w1 None rows))"
    using tick_rows_asks by (rule grows_mono) (use len in simp_all)
  moreover have "grows w_events (\<lambda>ev. \<exists>r \<in> set (w_rows w). \<not> terminal (status r) \<and> has_ext (external_id r)
      \<and> row_event (rd_plugin_id rd) (scan_row r) ev) 200 w1 (snd (tick_rows rd env w1 None rows))"
  proof (rule grows_mono [OF tick_rows_events len])
    fix ev assume "\<exists>row \<in> set rows. row_event (rd_plugin_id rd) row ev"
    then obtain row where row: "row \<in> set rows" "row_event (rd_plugin_id rd) row ev" by blast
    obtain r where "r \<in> set (w_rows w)" "\<not> terminal (status r)" "row = scan_row r"
      using run(2) row(1) by (rule listed_row)
    with row(2) show "\<exists>r \<in> set (w_rows w). \<not> terminal (status r) \<and> has_ext (external_id r)
        \<and> row_event (rd_plugin_id rd) (scan_row r) ev"
      by (auto simp: row_event_def has_ext_iff)
  qed
  ultimately show ?thesis using run by (simp add: grows_def)
qed (auto intro: exI [of _ "[]"])

theorem tick_bounds_witness:
  "\<exists>qs. w_http (snd (tick sample_rd calm_env False sample_world)) = w_http sample_world @ qs \<and> length qs \<le> 2000"
  using tick_bounds [of sample_rd calm_env False sample_world] by simp

text \<open>
  The budget of a tick: once \<open>ctx.Err()\<close> reports the deadline at the check before the row number
  \<open>k\<close>, no further row is polled: at most the requests of \<open>k\<close> polls have been sent.
\<close>

lemma tick_budget:
  assumes "e_ctx_done env (w_ctx w + k)"
  shows "length (w_http (snd (tick rd env locked w))) \<le> length (w_http w) + 10 * k"
proof (cases rule: tick_cases [of rd env locked w])
  case (run rows w1)
  have "w_ctx w1 = w_ctx w" using list_non_terminal_ctx [of env w tick_limit] run(2) by simp
  then have "grows w_http (\<lambda>_. True) (10 * k) w1 (snd (tick_rows rd env w1 None rows))"
    using assms by (intro tick_rows_budget) simp
  from grows_length [OF this] run show ?thesis by simp
qed simp

theorem tick_budget_witness:
  "length (w_http (snd (tick sample_rd (calm_env\<lparr>e_ctx_done := (\<lambda>_. True)\<rparr>) False sample_world))) \<le> 0"
  using tick_budget [of "calm_env\<lparr>e_ctx_done := (\<lambda>_. True)\<rparr>" sample_world 0 sample_rd False]
  by (simp add: sample_world_def empty_world_def)

text \<open>
  C26. A tick leaves alone every row that is terminal or has no upstream id, and it keeps the table well
  formed.
\<close>

theorem tick_isolated:
  assumes "keys_distinct (w_rows w)" and "row_at (w_rows w) k = Some r"
    and "terminal (status r) \<or> \<not> has_ext (external_id r)"
  shows "row_at (w_rows (snd (tick rd env locked w))) k = Some r
    \<and> keys_distinct (w_rows (snd (tick rd env locked w)))
    \<and> (table_ok (w_rows w) \<longrightarrow> table_ok (w_rows (snd (tick rd env locked w))))"
proof (cases rule: tick_cases [of rd env locked w])
  case (run rows w1)
  let ?w2 = "snd (tick_rows rd env w1 None rows)"
  let ?K = "{request_id x |x. x \<in> set (w_rows w) \<and> \<not> terminal (status x) \<and> has_ext (external_id x)}"
  have "writes (\<lambda>s. stmt_key s \<in> ?K) w1 ?w2"
  proof (rule writes_mono [OF tick_rows_writes])
    fix s assume "\<exists>row \<in> set rows. fr_external_id row \<noteq> [] \<and> row_stmt row s"
    then obtain row where row: "row \<in> set rows" "fr_external_id row \<noteq> []" "row_stmt row s" by blast
    obtain x where "x \<in> set (w_rows w)" "\<not> terminal (status x)" "row = scan_row x"
      using run(2) row(1) by (rule listed_row)
    with row show "stmt_key s \<in> ?K" by (auto simp: row_stmt_def has_ext_iff)
  qed
  moreover have "k \<notin> ?K"
    using assms row_at_of_mem by fastforce
  ultimately have "row_at (w_rows ?w2) k = Some r"
    using writes_other [of ?K w1 ?w2 k] assms(2) run(4) by simp
  moreover have "keys_distinct (w_rows ?w2)"
    using writes_distinct [OF tick_rows_writes] assms(1) run(4) by simp
  moreover have "table_ok (w_rows w) \<Longrightarrow> table_ok (w_rows (snd (tick rd env locked w)))"
    using tick_writes writes_ok by blast
  ultimately show ?thesis using run(3) by simp
qed (use assms in simp)

theorem tick_isolated_witness:
  "row_at (w_rows (snd (tick sample_rd calm_env False sample_world))) ''r2'' = Some (sample_row ''r2'' ''imported'')"
  using tick_isolated [of sample_world "''r2''" "sample_row ''r2'' ''imported''" sample_rd calm_env False]
  by (simp add: sample_world_def keys_distinct_def sample_row_def)

text \<open>
  The scheduled task: the key's part behind the last colon selects the reconciler; any other key
  and an unconfigured plugin are errors with no effect, and a tick that finds another one running
  is dropped without one.
\<close>

lemma run_task_routes:
  "(CHR '':'' \<notin> set capability \<longrightarrow> task_id (prefix @ '':'' @ capability) = capability)
   \<and> (task_id key \<noteq> ''reconciler'' \<longrightarrow> run_task deps env locked w key = (Inl ''unknown task key'', w))
   \<and> (task_id key = ''reconciler'' \<longrightarrow> run_task None env locked w key = (Inl ''plugin not configured yet'', w)
        \<and> run_task (Some rd) env True w key = (Inr (), w)
        \<and> run_task (Some rd) env False w key = tick rd env False w)"
  by (auto simp: run_task_def task_id_def tick_def after_last_append)

theorem run_task_routes_witness:
  "run_task (Some sample_rd) calm_env False sample_world ''plugin:7:reconciler'' = tick sample_rd calm_env False sample_world
   \<and> task_id ''plugin:7:reconciler'' = ''reconciler''"
  using run_task_routes [of "''reconciler''" "''plugin:7''" "''plugin:7:reconciler''" None calm_env False
      sample_world sample_rd]
  by simp

lemma tick_rows_unsubmitted:
  "(\<And>row. row \<in> set rows \<Longrightarrow> fr_external_id row = []) \<Longrightarrow>
   w_rows (snd (tick_rows rd env w fe rows)) = w_rows w
   \<and> w_http (snd (tick_rows rd env w fe rows)) = w_http w
   \<and> w_events (snd (tick_rows rd env w fe rows)) = w_events w"
proof (induction rows arbitrary: w fe)
  case (Cons row rows)
  then show ?case by (simp add: tick_rows_step process_row_skip Let_def del: tick_rows.simps)
qed simp

lemma tick_unsubmitted:
  assumes "\<And>r. r \<in> set (sql_list (e_collate env) 200 (w_rows w)) \<Longrightarrow> \<not> has_ext (external_id r)"
  shows "w_rows (snd (tick rd env locked w)) = w_rows w \<and> w_http (snd (tick rd env locked w)) = w_http w
    \<and> w_events (snd (tick rd env locked w)) = w_events w"
proof (cases rule: tick_cases [of rd env locked w])
  case (run rows w1)
  have "fst (list_non_terminal env w tick_limit) = Inr rows" using run(2) by simp
  then obtain k where k: "rows = map scan_row (sql_list (e_collate env) k (w_rows w))" "k \<le> 200"
    by (rule list_non_terminal_result) (simp add: tick_limit_def)
  have "fr_external_id row = []" if mem: "row \<in> set rows" for row
  proof -
    obtain r where r: "r \<in> set (sql_list (e_collate env) k (w_rows w))" "row = scan_row r"
      using mem k(1) by auto
    have "r \<in> set (sql_list (e_collate env) 200 (w_rows w))"
      using r(1) k(2) set_take_subset_set_take unfolding sql_list_def by fastforce
    with assms r(2) show ?thesis by (auto simp: has_ext_iff)
  qed
  from tick_rows_unsubmitted [of rows rd env w1 None, OF this] run show ?thesis by simp
qed simp

text \<open>
  C3. Starvation. When the first 200 rows of the poll order have no upstream id, no number of ticks sends
  a request, writes a row or publishes an event: the skipped rows keep their place at the front,
  and the rows behind them, which upstream knows, are never polled.
\<close>

theorem reconciler_starves:
  assumes "\<And>r. r \<in> set (sql_list (e_collate env) 200 (w_rows w)) \<Longrightarrow> \<not> has_ext (external_id r)"
  shows "w_rows (((\<lambda>v. snd (tick rd env False v)) ^^ n) w) = w_rows w
    \<and> w_http (((\<lambda>v. snd (tick rd env False v)) ^^ n) w) = w_http w
    \<and> w_events (((\<lambda>v. snd (tick rd env False v)) ^^ n) w) = w_events w"
proof (induction n)
  case (Suc n)
  let ?v = "((\<lambda>v. snd (tick rd env False v)) ^^ n) w"
  have "\<not> has_ext (external_id r)" if "r \<in> set (sql_list (e_collate env) 200 (w_rows ?v))" for r
    using that Suc assms by simp
  from tick_unsubmitted [of env ?v rd False, OF this] Suc show ?case by simp
qed simp

text \<open>200 requests that never reached upstream, and behind them one that did.\<close>

definition unsubmitted_row :: "nat \<Rightarrow> forwarded_row" where
  "unsubmitted_row i = \<lparr>request_id = replicate i (CHR ''a''), external_id = None, status = ''submitted'',
     last_polled = None, error_text = None, auto_monitor = False, created_at = 1, updated_at = 1\<rparr>"

definition starved_world :: world where
  "starved_world = empty_world\<lparr>w_rows := map unsubmitted_row [1..<201] @ [sample_row ''b'' ''acknowledged'']\<rparr>"

lemma replicate_le: "i \<le> j \<Longrightarrow> replicate i c \<le> replicate j (c :: char)"
proof (induction i arbitrary: j)
  case (Suc i)
  then obtain m where "j = Suc m" "i \<le> m" by (cases j) auto
  with Suc.IH show ?case by simp
qed simp

lemma unsubmitted_sorted: "sorted (map (poll_order id) (map unsubmitted_row [1..<n]))"
proof -
  have "sorted_wrt (\<lambda>i j. poll_order id (unsubmitted_row i) \<le> poll_order id (unsubmitted_row j)) [1..<n]"
    by (rule sorted_wrt_mono_rel [OF _ sorted_wrt_upt])
      (auto simp: poll_order_def unsubmitted_row_def intro!: poll_key_leI replicate_le simp del: less_eq_poll_key.simps)
  then show ?thesis by (simp add: sorted_map comp_def sorted_wrt_map)
qed

lemma unsubmitted_first:
  "sql_list id 200 (w_rows starved_world) = map unsubmitted_row [1..<201]"
proof -
  let ?us = "map unsubmitted_row [1..<201]"
  let ?rs = "?us @ [sample_row ''b'' ''acknowledged'']"
  have nt: "non_terminal ?rs = ?rs"
    by (auto simp: non_terminal_def unsubmitted_row_def sample_row_def terminal_def)
  have "replicate i (CHR ''a'') \<le> ''b''" for i by (cases i) simp_all
  then have "poll_order id (unsubmitted_row i) \<le> poll_order id (sample_row ''b'' ''acknowledged'')" for i
    by (auto simp: poll_order_def unsubmitted_row_def sample_row_def intro!: poll_key_leI
        simp del: less_eq_poll_key.simps)
  with unsubmitted_sorted [of 201] have "sorted (map (poll_order id) ?rs)"
    unfolding map_append by (subst sorted_append) (auto simp del: upt_rec_numeral)
  then have "sort_key (poll_order id) ?rs = ?rs" by (rule sort_key_id_if_sorted)
  then show ?thesis by (simp add: sql_list_def nt starved_world_def del: One_nat_def)
qed

theorem reconciler_starves_witness:
  "w_http (((\<lambda>v. snd (tick sample_rd (answering 200 queued_body) False v)) ^^ 1000) starved_world) = []
   \<and> sample_row ''b'' ''acknowledged'' \<in> set (w_rows starved_world)"
proof -
  have "\<not> has_ext (external_id r)"
    if "r \<in> set (sql_list (e_collate (answering 200 queued_body)) 200 (w_rows starved_world))" for r
    using that by (auto simp: unsubmitted_first unsubmitted_row_def has_ext_def)
  then have "w_http (((\<lambda>v. snd (tick sample_rd (answering 200 queued_body) False v)) ^^ 1000) starved_world)
      = w_http starved_world"
    by (intro reconciler_starves [THEN conjunct2, THEN conjunct1]) blast
  then show ?thesis by (simp add: starved_world_def empty_world_def)
qed

end
