(* ===== verification/Plugin.thy ===== *)
theory Plugin
  imports Server Reconciler
begin

text \<open>
  cmd/silo-plugin-bookwarehouse-ebook/main.go and internal/migrate/runner.go: how the plugin is wired,
  and the whole plugin as a state machine whose inputs are the host's calls. A call runs to its end
  before the next begins; the theories Interleaving, ConfigRaces and Pools drop that.

  What is not in the repository is the record \<open>host_setup\<close>: parsing the DSN into a pool configuration,
  opening the pool, opening golang-migrate on a DSN and running its migrations. The world keeps one
  database: every DSN that the host configures is taken to name the same one.
\<close>

section \<open>Migrations\<close>

datatype up_outcome = Up_Done | Up_No_Change | Up_Failed gostring

record host_setup =
  su_parse :: "gostring \<Rightarrow> int res"
  su_pool :: "int \<Rightarrow> unit res"
  su_init :: "gostring \<Rightarrow> unit res"
  su_up :: "nat \<Rightarrow> up_outcome"
  su_host :: bool

text \<open>The scheme that the pgx driver of golang-migrate is registered under.\<close>

definition driver_dsn :: "gostring \<Rightarrow> gostring" where
  "driver_dsn dsn =
     (if has_prefix ''postgres://'' dsn then ''pgx5://'' @ drop (length ''postgres://'') dsn
      else if has_prefix ''postgresql://'' dsn then ''pgx5://'' @ drop (length ''postgresql://'') dsn
      else dsn)"

text \<open>The second migration inserts the row of the configuration when it is missing.\<close>

definition migrated :: "world \<Rightarrow> world" where
  "migrated w = (case w_config w of None \<Rightarrow> w\<lparr>w_config := Some (JObj [])\<rparr> | Some _ \<Rightarrow> w)"

definition migrate_run :: "host_setup \<Rightarrow> gostring \<Rightarrow> world \<Rightarrow> unit res \<times> world" where
  "migrate_run su dsn w =
     (case su_init su (driver_dsn dsn) of
        Inl e \<Rightarrow> (Inl (''init migrate: '' @ e), w)
      | Inr _ \<Rightarrow>
          (let w1 = w\<lparr>w_db := Suc (w_db w)\<rparr>
           in case su_up su (w_db w) of
                Up_Done \<Rightarrow> (Inr (), migrated w1)
              | Up_No_Change \<Rightarrow> (Inr (), w1)
              | Up_Failed e \<Rightarrow> (Inl (''apply migrations: '' @ e), w1)))"

section \<open>The wiring\<close>

definition plugin_id :: gostring where
  "plugin_id = ''silo.bookwarehouse-ebook''"

text \<open>
  The state behind the host's calls: the server that answers HTTP, whether the pointers of the
  consumer and the reconciler are set (\<open>Some h\<close>: with a publisher that has a host or not), the
  configuration of \<open>Snapshot\<close>, and the world. The consumer and the reconciler share the server's client.
\<close>

record sys =
  sy_server :: server
  sy_live :: "bool option"
  sy_runtime :: app_config
  sy_world :: world

definition start_sys :: "world \<Rightarrow> sys" where
  "start_sys w = \<lparr>sy_server = new_server empty_deps, sy_live = None, sy_runtime = zero_config, sy_world = w\<rparr>"

definition max_conns :: "int \<Rightarrow> int" where
  "max_conns n = (if n < 16 then 16 else n)"

definition wired_server :: "gostring \<Rightarrow> app_config \<Rightarrow> server" where
  "wired_server dsn app =
     (let cfg = app\<lparr>ac_database_url := dsn\<rparr>;
          c = set_default_cover_size (ac_default_cover_size cfg) (new_client (ac_base_url cfg) (ac_api_key cfg))
      in new_server \<lparr>sd_auto = ac_enable_auto_monitoring cfg, sd_client = Some c, sd_store = True, sd_config = cfg\<rparr>)"

text \<open>The callback of \<open>Configure\<close>.\<close>

definition on_configure :: "host_setup \<Rightarrow> env \<Rightarrow> app_config \<Rightarrow> sys \<Rightarrow> unit res \<times> sys" where
  "on_configure su env cfg sys =
     (case su_parse su (ac_database_url cfg) of
        Inl e \<Rightarrow> (Inl (''parse db: '' @ e), sys)
      | Inr n \<Rightarrow>
          (case su_pool su (max_conns n) of
             Inl e \<Rightarrow> (Inl (''pgxpool: '' @ e), sys)
           | Inr _ \<Rightarrow>
               (case migrate_run su (ac_database_url cfg) (sy_world sys) of
                  (Inl e, w1) \<Rightarrow> (Inl (''migrate: '' @ e), sys\<lparr>sy_world := w1\<rparr>)
                | (Inr _, w1) \<Rightarrow>
                    (case import_legacy env w1 cfg of
                       (Inl e, w2) \<Rightarrow> (Inl (''import app config: '' @ e), sys\<lparr>sy_world := w2\<rparr>)
                     | (Inr app, w2) \<Rightarrow>
                         (Inr (), sys\<lparr>sy_server := wired_server (ac_database_url cfg) app,
                                     sy_live := Some (su_host su), sy_world := w2\<rparr>)))))"

definition consumer_deps_of :: "sys \<Rightarrow> consumer_deps option" where
  "consumer_deps_of sys =
     map_option (\<lambda>h. \<lparr>cd_has_store = True, cd_pub = Some h, cd_bw = sd_client (sv_deps (sy_server sys)),
                       cd_plugin_id = plugin_id\<rparr>) (sy_live sys)"

definition reconciler_deps_of :: "sys \<Rightarrow> reconciler_deps option" where
  "reconciler_deps_of sys =
     (case (sy_live sys, sd_client (sv_deps (sy_server sys))) of
        (Some h, Some c) \<Rightarrow> Some \<lparr>rd_pub = h, rd_bw = c, rd_plugin_id = plugin_id\<rparr>
      | _ \<Rightarrow> None)"

section \<open>The calls of the host\<close>

datatype input =
    I_Configure "config_entry list"
  | I_Event gostring "anymap option"
  | I_Run gostring bool
  | I_Http host_request

datatype reply = O_Result "unit res" | O_Http api_response

text \<open>What is outside: the router, the text of the admin page, the JWT library, the setup, the environment.\<close>

record outside =
  os_chi :: chi
  os_page :: "gostring \<Rightarrow> gostring"
  os_jwt :: jwt_parse
  os_setup :: host_setup
  os_env :: env

definition http_router :: "outside \<Rightarrow> (server \<times> world) router" where
  "http_router os = serve (os_chi os) (os_page os) (os_jwt os) (os_env os)"

fun step :: "outside \<Rightarrow> input \<Rightarrow> sys \<Rightarrow> reply \<times> sys" where
  "step os (I_Configure es) sys =
     (case configure (Some (on_configure (os_setup os) (os_env os))) es (sy_runtime sys) sys of
        (r, cfg, sys1) \<Rightarrow> (O_Result r, sys1\<lparr>sy_runtime := cfg\<rparr>))"
| "step os (I_Event name pl) sys =
     (case handle_event (Some (consumer_deps_of sys)) (os_env os) (sy_world sys) name pl of
        (r, w) \<Rightarrow> (O_Result r, sys\<lparr>sy_world := w\<rparr>))"
| "step os (I_Run key locked) sys =
     (case run_task (reconciler_deps_of sys) (os_env os) locked (sy_world sys) key of
        (r, w) \<Rightarrow> (O_Result r, sys\<lparr>sy_world := w\<rparr>))"
| "step os (I_Http req) sys =
     (case handle_http (Some (http_router os)) req (sy_server sys, sy_world sys) of
        (a, s, w) \<Rightarrow> (O_Http a, sys\<lparr>sy_server := s, sy_world := w\<rparr>))"

text \<open>Runs: the states that the calls of the host lead to.\<close>

inductive reaches :: "outside \<Rightarrow> sys \<Rightarrow> sys \<Rightarrow> bool" for os where
  stay: "reaches os s s"
| call: "reaches os s t \<Longrightarrow> step os i t = (out, u) \<Longrightarrow> reaches os s u"

section \<open>Laws\<close>

lemma migrate_run_same: "same_tables w (snd (migrate_run su dsn w))"
  by (auto simp: migrate_run_def migrated_def same_tables_def Let_def split: sum.split up_outcome.split option.split)

lemma migrate_run_config:
  "w_config w = Some j \<Longrightarrow> w_config (snd (migrate_run su dsn w)) = Some j"
  by (auto simp: migrate_run_def migrated_def Let_def split: sum.split up_outcome.split)

text \<open>The ways the callback goes: it fails with only the configuration's row touched, or it wires everything.\<close>

lemma on_configure_cases:
  obtains (failed) e w where "on_configure su env cfg sys = (Inl e, sys\<lparr>sy_world := w\<rparr>)"
      "same_tables (sy_world sys) w"
  | (wired) app w1 w2 where "migrate_run su (ac_database_url cfg) (sy_world sys) = (Inr (), w1)"
      "import_legacy env w1 cfg = (Inr app, w2)" "same_tables (sy_world sys) w2"
      "on_configure su env cfg sys = (Inr (), sys\<lparr>sy_server := wired_server (ac_database_url cfg) app,
          sy_live := Some (su_host su), sy_world := w2\<rparr>)"
proof (cases "su_parse su (ac_database_url cfg)")
  case (Inl e)
  then show ?thesis by (intro failed [where e = "''parse db: '' @ e" and w = "sy_world sys"]) (simp_all add: on_configure_def)
next
  case parse: (Inr n)
  show ?thesis
  proof (cases "su_pool su (max_conns n)")
    case (Inl e)
    then show ?thesis
      using parse by (intro failed [of "''pgxpool: '' @ e" "sy_world sys"]) (simp_all add: on_configure_def)
  next
    case pool: (Inr u)
    obtain r w1 where m: "migrate_run su (ac_database_url cfg) (sy_world sys) = (r, w1)" by (metis surj_pair)
    obtain r2 w2 where i: "import_legacy env w1 cfg = (r2, w2)" by (metis surj_pair)
    have st: "same_tables (sy_world sys) w1" "same_tables (sy_world sys) w2"
      using migrate_run_same [of "sy_world sys" su "ac_database_url cfg"] import_legacy_same [of w1 env cfg] m i
        same_tables_trans by auto
    show ?thesis
    proof (cases r)
      case (Inl e)
      then show ?thesis
        using parse pool m st by (intro failed [of "''migrate: '' @ e" w1]) (simp_all add: on_configure_def)
    next
      case mig: (Inr v)
      show ?thesis
      proof (cases r2)
        case (Inl e)
        then show ?thesis
          using parse pool m i mig st
          by (intro failed [of "''import app config: '' @ e" w2]) (simp_all add: on_configure_def)
      next
        case (Inr app)
        then show ?thesis
          using parse pool m i mig st by (intro wired [of w1 app w2]) (simp_all add: on_configure_def)
      qed
    qed
  qed
qed

text \<open>The ways a call of \<open>Configure\<close> goes.\<close>

lemma step_configure_cases:
  obtains (plain) r rt w where "step os (I_Configure es) sys = (O_Result r, sys\<lparr>sy_runtime := rt, sy_world := w\<rparr>)"
      "same_tables (sy_world sys) w" "is_ok r \<longrightarrow> ac_database_url (parse_entries es) = []"
  | (wired) app w1 w2 where
      "migrate_run (os_setup os) (ac_database_url (parse_entries es)) (sy_world sys) = (Inr (), w1)"
      "import_legacy (os_env os) w1 (parse_entries es) = (Inr app, w2)" "same_tables (sy_world sys) w2"
      "step os (I_Configure es) sys = (O_Result (Inr ()), sys\<lparr>
          sy_server := wired_server (ac_database_url (parse_entries es)) app,
          sy_live := Some (su_host (os_setup os)), sy_runtime := parse_entries es, sy_world := w2\<rparr>)"
proof (cases "ac_database_url (parse_entries es) = []
    \<or> (ac_base_url (parse_entries es) \<noteq> [] \<and> \<not> base_url_ok (ac_base_url (parse_entries es)))")
  case True
  then show ?thesis
    by (intro plain [where r = "fst (configure (Some (on_configure (os_setup os) (os_env os))) es (sy_runtime sys) sys)"
          and rt = "fst (snd (configure (Some (on_configure (os_setup os) (os_env os))) es (sy_runtime sys) sys))"
          and w = "sy_world sys"]) (auto simp: configure_def Let_def)
next
  case False
  show ?thesis
  proof (cases rule: on_configure_cases [of "os_setup os" "os_env os" "parse_entries es" sys])
    case (failed e w)
    then show ?thesis using False by (intro plain [where r = "Inl e" and rt = "sy_runtime sys" and w = w]) (auto simp: configure_def Let_def)
  next
    case (wired app w1 w2)
    then show ?thesis using False that(2) by (simp add: configure_def Let_def)
  qed
qed

text \<open>Every call relates its worlds by statements that keep the table well formed.\<close>

lemma handle_http_rows:
  assumes "handle_http (Some (http_router os)) req (s, w) = (a, s', w')"
  shows "w_rows w' = w_rows w \<and> w_events w' = w_events w"
proof -
  have "(s', w') = (s, w) \<or> (s', w') = snd (http_router os (s, w) (routed req))"
    using assms by (auto simp: handle_http_def case_prod_beta split: option.splits if_splits)
  then show ?thesis
    using serve_rows [of "os_chi os" "os_page os" "os_jwt os" "os_env os" s w "routed req"]
    unfolding http_router_def by (metis snd_conv)
qed

lemma run_task_writes:
  "table_ok (w_rows w) \<Longrightarrow> writes stmt_ok w (snd (run_task deps env locked w key))"
  using tick_writes by (auto simp: run_task_def split: option.split)

lemma step_writes:
  assumes "step os i s = (out, u)" and "table_ok (w_rows (sy_world s))"
  shows "writes stmt_ok (sy_world s) (sy_world u)"
proof (cases i)
  case (I_Configure es)
  then show ?thesis
    using assms(1) by (cases rule: step_configure_cases [of os es s]) (auto simp: same_tables_def intro: writes_same)
next
  case (I_Event name pl)
  then show ?thesis
    using assms(1) handle_event_writes [of "sy_world s" "Some (consumer_deps_of s)" "os_env os" name pl]
    by (auto split: prod.splits)
next
  case (I_Run key locked)
  then show ?thesis
    using assms run_task_writes [of "sy_world s" "reconciler_deps_of s" "os_env os" locked key]
    by (auto split: prod.splits)
next
  case (I_Http req)
  then show ?thesis
    using assms(1) handle_http_rows [of os req "sy_server s" "sy_world s"]
    by (auto split: prod.splits intro: writes_same)
qed

text \<open>Every state of a run is related to its first one the same way.\<close>

lemma reaches_writes:
  "reaches os s u \<Longrightarrow> table_ok (w_rows (sy_world s)) \<Longrightarrow>
   writes stmt_ok (sy_world s) (sy_world u) \<and> table_ok (w_rows (sy_world u))"
proof (induction rule: reaches.induct)
  case (stay s)
  then show ?case by simp
next
  case (call s t i out u)
  then have "writes stmt_ok (sy_world t) (sy_world u)" by (intro step_writes) auto
  then show ?case using call writes_ok by (blast intro: writes_trans)
qed

text \<open>Wiring: the pointers are set together, and only by a \<open>Configure\<close> that went through.\<close>

definition wired :: "sys \<Rightarrow> bool" where
  "wired s \<longleftrightarrow> (sy_live s \<noteq> None \<longleftrightarrow> sd_client (sv_deps (sy_server s)) \<noteq> None)
     \<and> (sy_live s \<noteq> None \<longleftrightarrow> sd_store (sv_deps (sy_server s)))"

lemma apply_config_wiring [simp]:
  "sd_client (sv_deps (apply_config c s)) = None \<longleftrightarrow> sd_client (sv_deps s) = None"
  "sd_store (sv_deps (apply_config c s)) = sd_store (sv_deps s)"
  by (simp_all add: apply_config_def Let_def)

lemma h_update_config_wiring:
  "(sd_client (sv_deps (fst (snd (h_update_config s env w r)))) = None \<longleftrightarrow> sd_client (sv_deps s) = None)
   \<and> sd_store (sv_deps (fst (snd (h_update_config s env w r)))) = sd_store (sv_deps s)"
  by (cases rule: h_update_config_cases [of s env w r]) simp_all

lemma serve_wiring:
  "(sd_client (sv_deps (fst (snd (serve chi page parse env (s, w) q)))) = None \<longleftrightarrow> sd_client (sv_deps s) = None)
   \<and> sd_store (sv_deps (fst (snd (serve chi page parse env (s, w) q)))) = sd_store (sv_deps s)"
proof (cases "chi (route_table (sd_client (sv_deps s) \<noteq> None)) (rr_method q) (rr_path q)")
  case (Chi_Found rt ps)
  show ?thesis
    unfolding serve_found [where chi = chi, OF Chi_Found]
    using serve_route_server [of rt page parse env s w "(rr_request q)\<lparr>aq_params := ps\<rparr>"] h_update_config_wiring
    by (cases "rt = R_Update_Config") (simp_all add: serve_route_def)
next
  case (Chi_Refused a)
  then show ?thesis by (simp add: serve_def)
qed

lemma step_wired: "step os i s = (out, u) \<Longrightarrow> wired s \<Longrightarrow> wired u"
proof (cases i)
  case (I_Configure es)
  assume "step os i s = (out, u)" "wired s"
  with I_Configure show ?thesis
    by (cases rule: step_configure_cases [of os es s])
      (auto simp: wired_def wired_server_def new_server_def Let_def)
next
  case (I_Http req)
  assume st: "step os i s = (out, u)" and w: "wired s"
  obtain a s' w' where h: "handle_http (Some (http_router os)) req (sy_server s, sy_world s) = (a, s', w')"
    by (metis surj_pair)
  have "(s', w') = (sy_server s, sy_world s)
      \<or> (s', w') = snd (http_router os (sy_server s, sy_world s) (routed req))"
    using h by (auto simp: handle_http_def case_prod_beta split: option.splits if_splits)
  then have "(sd_client (sv_deps s') = None \<longleftrightarrow> sd_client (sv_deps (sy_server s)) = None)
      \<and> sd_store (sv_deps s') = sd_store (sv_deps (sy_server s))"
    using serve_wiring [of "os_chi os" "os_page os" "os_jwt os" "os_env os" "sy_server s" "sy_world s" "routed req"]
    unfolding http_router_def by (metis fst_conv)
  then show ?thesis using st w h I_Http by (auto simp: wired_def)
qed (auto simp: wired_def split: prod.splits)

lemma reaches_wired: "reaches os s u \<Longrightarrow> wired s \<Longrightarrow> wired u"
  by (induction rule: reaches.induct) (auto intro: step_wired)

lemma start_wired: "wired (start_sys w)"
  by (simp add: wired_def start_sys_def new_server_def empty_deps_def)

text \<open>Before the first successful \<open>Configure\<close> nothing happens to the world.\<close>

definition unwired :: "sys \<Rightarrow> bool" where
  "unwired s \<longleftrightarrow> sy_live s = None \<and> sd_client (sv_deps (sy_server s)) = None \<and> \<not> sd_store (sv_deps (sy_server s))"

lemma serve_route_unwired:
  assumes "sd_client (sv_deps s) = None" and "\<not> sd_store (sv_deps s)"
  shows "snd (serve_route page parse env s w rt r) = (s, w)"
  using assms
  by (cases rt) (simp_all add: serve_route_def keep_server_def h_diagnostics_def probe_upstream_def
      probe_database_def h_get_config_def h_update_config_def h_test_search_def Let_def)

lemma serve_unwired:
  assumes "sd_client (sv_deps s) = None" and "\<not> sd_store (sv_deps s)"
  shows "snd (serve chi page parse env (s, w) q) = (s, w)"
proof (cases "chi (route_table (sd_client (sv_deps s) \<noteq> None)) (rr_method q) (rr_path q)")
  case (Chi_Found rt ps)
  show ?thesis
    unfolding serve_found [where chi = chi, OF Chi_Found] using serve_route_unwired [OF assms] by simp
next
  case (Chi_Refused a)
  then show ?thesis by (simp add: serve_def)
qed

lemma handle_event_unconfigured [simp]: "snd (handle_event (Some None) env w name pl) = w"
  by (simp add: handle_event_def split: option.split)

lemma handle_http_snd:
  "snd (handle_http (Some h) req s) = s \<or> snd (handle_http (Some h) req s) = snd (h s (routed req))"
  by (auto simp: handle_http_def case_prod_beta split: option.split)

lemma step_unwired:
  assumes "unwired s" and "\<And>es. i \<noteq> I_Configure es"
  shows "snd (step os i s) = s"
proof (cases i)
  case (I_Event name pl)
  then show ?thesis using assms(1) by (simp add: case_prod_beta unwired_def consumer_deps_of_def)
next
  case (I_Run key locked)
  then show ?thesis
    using assms(1) by (simp add: case_prod_beta unwired_def reconciler_deps_of_def run_task_def)
next
  case (I_Http req)
  have "snd (handle_http (Some (http_router os)) req (sy_server s, sy_world s)) = (sy_server s, sy_world s)"
    using handle_http_snd [of "http_router os" req "(sy_server s, sy_world s)"] serve_unwired assms(1)
    by (auto simp: http_router_def unwired_def)
  then show ?thesis by (simp add: I_Http case_prod_beta)
qed (use assms(2) in blast)

section \<open>Properties\<close>

fun run_inputs :: "outside \<Rightarrow> input list \<Rightarrow> sys \<Rightarrow> sys" where
  "run_inputs os [] s = s"
| "run_inputs os (i # is) s = run_inputs os is (snd (step os i s))"

definition is_configure :: "input \<Rightarrow> bool" where
  "is_configure i \<longleftrightarrow> (case i of I_Configure _ \<Rightarrow> True | _ \<Rightarrow> False)"

text \<open>Concrete surroundings: everything works, and the migrations have been applied before.\<close>

definition sample_outside :: outside where
  "sample_outside = \<lparr>os_chi = plain_chi, os_page = id, os_jwt = sample_parse f64_zero,
     os_setup = \<lparr>su_parse = (\<lambda>_. Inr 4), su_pool = (\<lambda>_. Inr ()), su_init = (\<lambda>_. Inr ()),
                 su_up = (\<lambda>_. Up_No_Change), su_host = True\<rparr>,
     os_env = calm_env\<rparr>"

definition live_sys :: "world \<Rightarrow> sys" where
  "live_sys w = (start_sys w)\<lparr>sy_server := sample_server, sy_live := Some True\<rparr>"

definition sample_entries :: "config_entry list" where
  "sample_entries = [(''database_url'', Some [(''value'', AStr ''postgres://db'')])]"

lemma sample_entries_parsed: "parse_entries sample_entries = zero_config\<lparr>ac_database_url := ''postgres://db''\<rparr>"
  by (simp add: parse_entries_def sample_entries_def apply_entry_def)

text \<open>
  C1. The requests only move forward, whatever the host calls in whatever order, whatever upstream and
  the database answer: the table stays well formed, its keys stay distinct, no row goes away, a
  terminal status stays, and an upstream id is never lost.
\<close>

theorem run_invariant:
  assumes "reaches os s u" and "table_ok (w_rows (sy_world s))" and "keys_distinct (w_rows (sy_world s))"
  shows "table_ok (w_rows (sy_world u)) \<and> keys_distinct (w_rows (sy_world u))
    \<and> (\<forall>k r. row_at (w_rows (sy_world s)) k = Some r \<longrightarrow>
        (\<exists>r'. row_at (w_rows (sy_world u)) k = Some r' \<and> created_at r' = created_at r
          \<and> (terminal (status r) \<longrightarrow> status r' = status r)
          \<and> (external_id r \<noteq> None \<longrightarrow> external_id r' \<noteq> None)))"
proof -
  have w: "writes stmt_ok (sy_world s) (sy_world u)" "table_ok (w_rows (sy_world u))"
    using reaches_writes [OF assms(1,2)] by simp_all
  moreover have "keys_distinct (w_rows (sy_world u))" using writes_distinct [OF w(1) assms(3)] .
  moreover have "\<exists>r'. row_at (w_rows (sy_world u)) k = Some r' \<and> row_forward r r'"
    if "row_at (w_rows (sy_world s)) k = Some r" for k r
    using writes_forward [OF w(1) that] .
  ultimately show ?thesis unfolding row_forward_def by fast
qed

theorem run_invariant_witness:
  "\<exists>r'. row_at (w_rows (sy_world (snd (step sample_outside (I_Event submitted_event (Some
        [(''target_plugin_id'', AStr plugin_id), (''request_id'', AStr ''r1'')]))
        (live_sys (empty_world\<lparr>w_rows := [sample_row ''r1'' ''imported'']\<rparr>)))))) ''r1'' = Some r'
      \<and> status r' = ''imported''"
proof -
  let ?s = "live_sys (empty_world\<lparr>w_rows := [sample_row ''r1'' ''imported'']\<rparr>)"
  let ?i = "I_Event submitted_event (Some [(''target_plugin_id'', AStr plugin_id), (''request_id'', AStr ''r1'')])"
  have run: "reaches sample_outside ?s (snd (step sample_outside ?i ?s))"
    by (rule reaches.call [OF reaches.stay, where i = ?i and out = "fst (step sample_outside ?i ?s)"]) simp
  have rows: "w_rows (sy_world ?s) = [sample_row ''r1'' ''imported'']"
    by (simp add: live_sys_def start_sys_def)
  have "table_ok (w_rows (sy_world ?s))" "keys_distinct (w_rows (sy_world ?s))"
    unfolding rows
    by (simp_all add: table_ok_def row_ok_def known_statuses_def has_ext_def keys_distinct_def sample_row_def)
  moreover have "row_at (w_rows (sy_world ?s)) ''r1'' = Some (sample_row ''r1'' ''imported'')"
    unfolding rows by (simp add: sample_row_def)
  moreover have "terminal (status (sample_row ''r1'' ''imported''))" "status (sample_row ''r1'' ''imported'') = ''imported''"
    by (simp_all add: sample_row_def)
  ultimately show ?thesis using run_invariant [OF run] by metis
qed

text \<open>
  C29. Before \<open>Configure\<close> has succeeded once the plugin is inert: any sequence of events, scheduled runs
  and HTTP requests leaves the world as it is, with no request sent, no event published and no call
  of the database.
\<close>

theorem unconfigured_inert:
  assumes "list_all (\<lambda>i. \<not> is_configure i) is"
  shows "run_inputs os is (start_sys w) = start_sys w"
proof -
  have u: "unwired (start_sys w)" by (simp add: unwired_def start_sys_def new_server_def empty_deps_def)
  show ?thesis using assms
  proof (induction "is")
    case (Cons i rest)
    then have "snd (step os i (start_sys w)) = start_sys w"
      using step_unwired [OF u, of i os] by (cases i) (auto simp: is_configure_def)
    with Cons show ?case by simp
  qed simp
qed

theorem unconfigured_inert_witness:
  "run_inputs sample_outside [I_Run ''reconciler'' False, I_Event submitted_event (Some [])] (start_sys empty_world)
     = start_sys empty_world"
  by (rule unconfigured_inert) (simp add: is_configure_def)



text \<open>Without a secret every media request is answered 503.\<close>

lemma no_secret_503:
  assumes "ch_secret h = []"
  shows "ap_status (fst (h_cover parse h env w r)) = 503" "ap_status (fst (h_file parse h env w r)) = 503"
  using assms
  by (simp_all add: h_cover_alt h_file_alt cover_check_def file_check_def verify_def trim_space_def
      token_error_answer_def json_answer_def)

text \<open>The row after a save with an API key is a customised one.\<close>

lemma kept_row:
  assumes "ac_api_key (keep_key cur next) \<noteq> []"
  shows "decode_config (jsonb (config_json (default_cover ((keep_key cur next)\<lparr>ac_database_url := []\<rparr>))))
      = Inr (utf8_config (default_cover ((keep_key cur next)\<lparr>ac_database_url := []\<rparr>)))"
    and "utf8_config (default_cover ((keep_key cur next)\<lparr>ac_database_url := []\<rparr>)) \<noteq> default_app_config"
proof -
  let ?n = "default_cover ((keep_key cur next)\<lparr>ac_database_url := []\<rparr>)"
  show "decode_config (jsonb (config_json ?n)) = Inr (utf8_config ?n)"
    by (rule decode_config_jsonb) (simp_all add: default_cover_def)
  have "ac_api_key (utf8_config ?n) \<noteq> ac_api_key default_app_config"
    using assms by (simp add: utf8_config_def default_cover_def default_app_config_def zero_config_def)
  then show "utf8_config ?n \<noteq> default_app_config" by auto
qed

text \<open>
  C6. A save from the admin page ends media delivery at the next \<open>Configure\<close>: when a PATCH whose body has
  no signing secret was accepted (and there is an API key), the next successful \<open>Configure\<close> starts a
  server without a secret, whatever secret the host configures, and that server answers every cover
  and file request with 503.
\<close>

theorem patch_then_configure_locks_media:
  assumes patch: "h_update_config s env w r = (a, s', w')" "ap_status a = 200"
    and body: "decode_patch (aq_body r) = Some next" "ac_stream_signing_secret next = []"
    and key: "fst (get_app_config env w) = Inr cur" "ac_api_key (keep_key cur next) \<noteq> []"
    and conf: "sy_world sys = w'" "step os (I_Configure es) sys = (O_Result (Inr ()), sys2)"
      "ac_database_url (parse_entries es) \<noteq> []"
  shows "sv_secret (sy_server sys2) = []
    \<and> ap_status (fst (serve_catalog parse (sy_server sys2) c env2 v R_Cover q)) = 503
    \<and> ap_status (fst (serve_catalog parse (sy_server sys2) c env2 v R_File q)) = 503"
proof -
  let ?n = "default_cover ((keep_key cur next)\<lparr>ac_database_url := []\<rparr>)"
  have row: "w_config w' = Some (jsonb (config_json ?n))"
    using patch_row [OF patch key(1) body(1)] .
  note dec = kept_row(1) [OF key(2)] and ne = kept_row(2) [OF key(2)]
  have secret: "ac_stream_signing_secret (utf8_config ?n) = []"
    using body(2) by (simp add: utf8_config_def default_cover_def keep_key_def)
  have "sv_secret (sy_server sys2) = []"
  proof (cases rule: step_configure_cases [of os es sys])
    case (plain x rt w1)
    then show ?thesis using conf by simp
  next
    case (wired app w1 w2)
    have "w_config w1 = Some (jsonb (config_json ?n))"
      using migrate_run_config [of w' "jsonb (config_json ?n)"] row wired(1) conf(1) by (metis snd_conv)
    then have "app = utf8_config ?n"
      using wired(2) ne dec by (auto simp: import_legacy_def get_app_config_row split: sum.splits)
    then show ?thesis
      using wired(4) conf(2) secret by (auto simp: wired_server_def new_server_def Let_def)
  qed
  then show ?thesis by (simp add: serve_catalog_def no_secret_503)
qed

theorem patch_then_configure_locks_media_witness:
  "\<exists>sys2. step sample_outside (I_Configure sample_entries)
       (live_sys (snd (snd (h_update_config sample_server calm_env stored_world save_request)))) = (O_Result (Inr ()), sys2)
     \<and> sv_secret (sy_server sys2) = []"
proof -
  obtain w2 where run: "h_update_config sample_server calm_env stored_world save_request
     = (json_answer 200 (JObj [(''ok'', JBool True)]),
        apply_config (save_config\<lparr>ac_api_key := to_valid_utf8 ''key''\<rparr>) sample_server, w2)"
    using save_runs by blast
  have body: "decode_patch (aq_body save_request) = Some save_config"
    by (simp add: save_request_def save_decoded)
  let ?cur = "utf8_config (sample_config\<lparr>ac_database_url := [], ac_default_cover_size := ''medium''\<rparr>)"
  have cur: "fst (get_app_config calm_env stored_world) = Inr ?cur" by (simp add: stored_read)
  have key: "ac_api_key (keep_key ?cur save_config) \<noteq> []"
    by (simp add: keep_key_def save_config_def zero_config_def utf8_config_def sample_config_def)
  have row: "w_config w2 = Some (jsonb (config_json (default_cover ((keep_key ?cur save_config)\<lparr>ac_database_url := []\<rparr>))))"
    using patch_row [OF run _ cur body] by (simp add: json_answer_def)
  obtain sys2 where go: "step sample_outside (I_Configure sample_entries) (live_sys w2) = (O_Result (Inr ()), sys2)"
    by (auto simp: configure_def Let_def sample_entries_parsed on_configure_def sample_outside_def migrate_run_def
        live_sys_def start_sys_def zero_config_def import_legacy_calm [OF _ kept_row [OF key]] row)
  then show ?thesis
    using patch_then_configure_locks_media [OF run _ body _ cur key, of "live_sys w2" sample_outside sample_entries]
    by (simp add: run json_answer_def live_sys_def start_sys_def sample_entries_parsed save_config_def zero_config_def)
qed

end
