(* ===== verification/Interleaving.thy ===== *)
theory Interleaving
  imports Plugin
begin

text \<open>
  The calls of the host run concurrently: events, a tick and HTTP requests may be in flight at the same
  time, and a tick works on rows that it has listed earlier and that have changed since. What is
  atomic is one SQL statement.

  This theory lets the statements of any number of calls follow each other in any order. The state is
  the table and the rows that a tick may still act on; an event may execute any of its statements
  (\<open>event_stmt\<close>), a listing adds the rows it sees, and a poll may execute any of its statements for
  a listed row (\<open>row_stmt\<close>), however old. The lemmas \<open>forward_request_writes\<close> and
  \<open>process_row_writes\<close> show that the code executes no others.
\<close>

section \<open>Statements in any order\<close>

type_synonym shared = "table \<times> forwarded_request set"

inductive interleaves :: "shared \<Rightarrow> shared \<Rightarrow> bool" where
  none: "interleaves c c"
| event_write: "interleaves c (t, listed) \<Longrightarrow> event_stmt rid s \<Longrightarrow> interleaves c (exec_stmt s t, listed)"
| list_rows: "interleaves c (t, listed) \<Longrightarrow> interleaves c (t, listed \<union> scan_row ` set (non_terminal t))"
| poll_write: "interleaves c (t, listed) \<Longrightarrow> row \<in> listed \<Longrightarrow> fr_external_id row \<noteq> [] \<Longrightarrow> row_stmt row s \<Longrightarrow>
    interleaves c (exec_stmt s t, listed)"

text \<open>What a listed row promises is that its status is one the program knows.\<close>

definition listed_ok :: "forwarded_request set \<Rightarrow> bool" where
  "listed_ok listed \<longleftrightarrow> (\<forall>row \<in> listed. fr_status row \<in> set known_statuses)"

lemma listed_ok_scan: "table_ok t \<Longrightarrow> listed_ok (scan_row ` set (non_terminal t))"
  by (auto simp: listed_ok_def table_ok_def row_ok_def non_terminal_def)

lemma interleaves_ok:
  "interleaves c d \<Longrightarrow> table_ok (fst c) \<Longrightarrow> listed_ok (snd c) \<Longrightarrow> table_ok (fst d) \<and> listed_ok (snd d)"
proof (induction rule: interleaves.induct)
  case (event_write c t listed rid s)
  then show ?case using exec_stmt_ok by (simp add: event_stmt_def)
next
  case (list_rows c t listed)
  then show ?case using listed_ok_scan [of t] by (auto simp: listed_ok_def)
next
  case (poll_write c t listed row s)
  then have "stmt_ok s" by (auto simp: row_stmt_def listed_ok_def)
  with poll_write show ?case using exec_stmt_ok by simp
qed simp

lemma interleaves_fold: "interleaves c d \<Longrightarrow> \<exists>ss. fst d = fold exec_stmt ss (fst c)"
proof (induction rule: interleaves.induct)
  case (none c)
  show ?case by (rule exI [of _ "[]"]) simp
next
  case (event_write c t listed rid s)
  then obtain ss where "t = fold exec_stmt ss (fst c)" by auto
  then show ?case by (intro exI [of _ "ss @ [s]"]) simp
next
  case (poll_write c t listed row s)
  then obtain ss where "t = fold exec_stmt ss (fst c)" by auto
  then show ?case by (intro exI [of _ "ss @ [s]"]) simp
qed simp

section \<open>Properties\<close>

text \<open>
  C17. No interleaving breaks the table. Whatever order the statements of concurrent events and polls take,
  and however stale the rows are that a tick acts on, the table stays well formed and its keys
  distinct, no row goes away, a terminal status stays and an upstream id is never lost.
\<close>

theorem interleaving_safe:
  assumes "interleaves (t, {}) (t', listed)" and "table_ok t" and "keys_distinct t"
  shows "table_ok t' \<and> keys_distinct t'
    \<and> (\<forall>k r. row_at t k = Some r \<longrightarrow> (\<exists>r'. row_at t' k = Some r'
        \<and> (terminal (status r) \<longrightarrow> status r' = status r) \<and> (external_id r \<noteq> None \<longrightarrow> external_id r' \<noteq> None)))"
proof -
  have "table_ok t'" using interleaves_ok [OF assms(1)] assms(2) by (simp add: listed_ok_def)
  moreover obtain ss where ss: "t' = fold exec_stmt ss t" using interleaves_fold [OF assms(1)] by auto
  moreover have "keys_distinct (fold exec_stmt ss t)" using assms(3) keyed_tbl.fold_inv by blast
  moreover have "\<exists>r'. row_at (fold exec_stmt ss t) k = Some r' \<and> row_forward r r'" if "row_at t k = Some r" for k r
    using fwd_tbl.fold_fwd [OF that] .
  ultimately show ?thesis unfolding row_forward_def by fast
qed

text \<open>A tick lists a row, an event fails the request, and the stale poll then writes \<open>found\<close>.\<close>

definition race_table :: table where
  "race_table = [sample_row ''r1'' ''searching'']"

definition race_event :: sql_stmt where
  "race_event = Upsert (sample_row ''r1'' ''failed'')"

definition race_poll :: sql_stmt where
  "race_poll = Mark_Polled ''r1'' (Some ''x1'') ''found'' 9"

theorem interleaving_safe_witness:
  "table_ok (exec_stmt race_poll (exec_stmt race_event race_table))
   \<and> map status (exec_stmt race_poll (exec_stmt race_event race_table)) = [''failed'']"
proof -
  let ?rows = "{} \<union> scan_row ` set (non_terminal race_table)"
  have row: "scan_row (sample_row ''r1'' ''searching'') \<in> ?rows"
    by (simp add: race_table_def non_terminal_def sample_row_def terminal_def)
  have "interleaves (race_table, {}) (race_table, ?rows)"
    by (rule interleaves.list_rows [OF interleaves.none])
  then have "interleaves (race_table, {}) (exec_stmt race_event race_table, ?rows)"
    by (rule interleaves.event_write [where rid = "''r1''"])
      (simp add: event_stmt_def race_event_def row_ok_def known_statuses_def has_ext_def sample_row_def)
  then have run: "interleaves (race_table, {}) (exec_stmt race_poll (exec_stmt race_event race_table), ?rows)"
    by (rule interleaves.poll_write [OF _ row])
      (simp_all add: row_stmt_def race_poll_def known_statuses_def has_ext_def sample_row_def)
  have "table_ok race_table" "keys_distinct race_table"
    by (simp_all add: race_table_def table_ok_def row_ok_def known_statuses_def has_ext_def keys_distinct_def
        sample_row_def)
  then have "table_ok (exec_stmt race_poll (exec_stmt race_event race_table))"
    using interleaving_safe [OF run] by blast
  then show ?thesis
    by (simp add: race_table_def race_event_def race_poll_def sql_mark_polled_def sample_row_def merge_row_def
        polled_row_def terminal_def)
qed

end
