(* ===== verification/Lifecycle.thy ===== *)
theory Lifecycle
  imports Plugin
begin

text \<open>
  The abstract specification of a request and the proof that the whole plugin refines it.

  The specification is a transition system over the status and the upstream id of each request. What
  one call of the host does to the table is a sequence of its transitions, whatever the database
  and upstream answer in between; the locale \<open>simulation\<close> lifts that to runs.
\<close>

section \<open>The specification\<close>

type_synonym lifecycle = "gostring \<Rightarrow> (gostring \<times> gostring option) option"

text \<open>
  A request is created as submitted. While it is not finished, its event may be delivered again; a
  submitted request is then refused by upstream or queued under an id, and a request with an id takes
  any status that upstream reports. A finished request keeps its status; but an event that is
  delivered again is still sent upstream, whose new id then replaces the old one (\<open>late\<close>).
\<close>

inductive moves :: "lifecycle \<Rightarrow> lifecycle \<Rightarrow> bool" where
  submit: "m k = None \<Longrightarrow> k \<noteq> [] \<Longrightarrow> moves m (m(k \<mapsto> (''submitted'', None)))"
| resubmit: "m k = Some (st, e) \<Longrightarrow> \<not> terminal st \<Longrightarrow> moves m (m(k \<mapsto> (''submitted'', e)))"
| reject: "m k = Some (''submitted'', e) \<Longrightarrow> moves m (m(k \<mapsto> (''failed'', e)))"
| acknowledge: "m k = Some (''submitted'', e) \<Longrightarrow> x \<noteq> [] \<Longrightarrow> moves m (m(k \<mapsto> (''acknowledged'', Some x)))"
| late: "m k = Some (st, e) \<Longrightarrow> terminal st \<Longrightarrow> x \<noteq> [] \<Longrightarrow> moves m (m(k \<mapsto> (st, Some x)))"
| poll: "m k = Some (st, Some x) \<Longrightarrow> x \<noteq> [] \<Longrightarrow> \<not> terminal st \<Longrightarrow> translate_status u \<noteq> [] \<Longrightarrow>
    moves m (m(k \<mapsto> (translate_status u, Some x)))"

inductive_cases movesE: "moves m m'"

text \<open>What the specification promises: a request does not go away, and a finished one stays finished.\<close>

lemma moves_stay: "moves m m' \<Longrightarrow> m k = Some (st, e) \<Longrightarrow>
    \<exists>st' e'. m' k = Some (st', e') \<and> (terminal st \<longrightarrow> st' = st) \<and> (e \<noteq> None \<longrightarrow> e' \<noteq> None)"
  by (erule movesE) (auto simp: terminal_def)

lemma lifecycle_stay: "moves\<^sup>*\<^sup>* m m' \<Longrightarrow> m k = Some (st, e) \<Longrightarrow>
    \<exists>st' e'. m' k = Some (st', e') \<and> (terminal st \<longrightarrow> st' = st) \<and> (e \<noteq> None \<longrightarrow> e' \<noteq> None)"
proof (induction rule: rtranclp_induct)
  case (step a b)
  then obtain st1 e1 where a: "a k = Some (st1, e1)" "terminal st \<longrightarrow> st1 = st" "e \<noteq> None \<longrightarrow> e1 \<noteq> None" by blast
  with moves_stay [OF step(2) a(1)] show ?case by metis
qed simp

definition view :: "table \<Rightarrow> lifecycle" where
  "view t k = map_option (\<lambda>r. (status r, external_id r)) (row_at t k)"

lemma view_nil [simp]: "view [] = Map.empty"
  by (simp add: view_def fun_eq_iff)

section \<open>Statements as transitions\<close>

lemma view_upsert:
  "view (sql_upsert x t) = (view t)(request_id x \<mapsto>
     (case view t (request_id x) of
        None \<Rightarrow> (status x, external_id x)
      | Some (st, e) \<Rightarrow> (if terminal st then st else status x, coalesce (external_id x) e)))"
  by (auto simp: fun_eq_iff view_def row_at_upsert merge_row_def split: option.split)

lemma view_mark_polled:
  "view (sql_mark_polled k ext st u t) = (view t)(k :=
     map_option (\<lambda>(s, e). (if terminal s then s else st, coalesce ext e)) (view t k))"
  by (cases "row_at t k") (auto simp: fun_eq_iff view_def row_at_mark_polled polled_row_def)

lemma moves_same: "m' = m \<Longrightarrow> moves\<^sup>*\<^sup>* m m'"
  by simp

lemma poll_stmt_moves:
  assumes "poll_stmt row s" and "view t (fr_request_id row) = Some (fr_status row, Some (fr_external_id row))"
    and "fr_external_id row \<noteq> []" and "\<not> terminal (fr_status row)"
  shows "moves\<^sup>*\<^sup>* (view t) (view (exec_stmt s t))"
proof (cases s)
  case (Upsert x)
  then show ?thesis using assms by (intro moves_same) (simp add: view_upsert fun_eq_iff)
next
  case (Mark_Polled k e st u)
  then have eff: "view (exec_stmt s t) = (view t)(fr_request_id row \<mapsto> (st, Some (fr_external_id row)))"
    using assms by (simp add: view_mark_polled)
  show ?thesis
  proof (cases "st = fr_status row")
    case True
    then show ?thesis using assms(2) eff by (intro moves_same) (simp add: fun_eq_iff)
  next
    case False
    then obtain v where "st = translate_status v" "st \<noteq> []" using assms(1) Mark_Polled by auto
    then show ?thesis
      using moves.poll [of "view t" "fr_request_id row" "fr_status row" "fr_external_id row" v] assms(2-4) eff
      by (simp add: r_into_rtranclp)
  qed
qed

text \<open>The other keys are not touched.\<close>

lemma view_other: "stmt_key s \<noteq> k \<Longrightarrow> view (exec_stmt s t) k = view t k"
  by (simp add: view_def exec_stmt_other)

section \<open>An event\<close>

text \<open>The first statement: the request is there, submitted or finished.\<close>

lemma persist_submitted:
  assumes "persist env w rid [] ''submitted'' [] am = (r, w1)" and "rid \<noteq> []"
  shows "moves\<^sup>*\<^sup>* (view (w_rows w)) (view (w_rows w1))"
    and "r = Inr () \<Longrightarrow> \<exists>st e. view (w_rows w1) rid = Some (st, e) \<and> (st = ''submitted'' \<or> terminal st)"
proof -
  let ?P = "\<lambda>s. \<exists>x. s = Upsert x \<and> request_id x = rid \<and> external_id x = None \<and> status x = ''submitted''"
  have "wrote ?P w w1"
    using persist_wrote [of rid "[]" "''submitted''" ?P w env "[]" am] assms(1) by simp
  then consider "w_rows w1 = w_rows w"
    | x where "request_id x = rid" "external_id x = None" "status x = ''submitted''" "w_rows w1 = sql_upsert x (w_rows w)"
    unfolding wrote_def by auto
  then show "moves\<^sup>*\<^sup>* (view (w_rows w)) (view (w_rows w1))"
  proof cases
    case 2
    show ?thesis
    proof (cases "view (w_rows w) rid")
      case None
      then show ?thesis using 2 moves.submit [of "view (w_rows w)" rid] assms(2) None by (simp add: view_upsert r_into_rtranclp)
    next
      case (Some p)
      obtain st e where p: "p = (st, e)" by (metis surj_pair)
      show ?thesis
      proof (cases "terminal st")
        case True
        then show ?thesis using 2 Some p by (intro moves_same) (simp add: view_upsert fun_eq_iff)
      next
        case False
        then show ?thesis
          using 2 Some p moves.resubmit [of "view (w_rows w)" rid st e] by (simp add: view_upsert r_into_rtranclp)
      qed
    qed
  qed simp
  show "\<exists>st e. view (w_rows w1) rid = Some (st, e) \<and> (st = ''submitted'' \<or> terminal st)" if "r = Inr ()"
  proof -
    have "fst (persist env w rid [] ''submitted'' [] am) = Inr ()" using assms(1) that by simp
    then obtain q where "row_at (w_rows w1) rid = Some q"
      "status q = status_after (row_at (w_rows w) rid) ''submitted''"
      by (rule persist_row) (use assms(1) in simp)
    then show ?thesis by (auto simp: view_def status_after_def split: option.split)
  qed
qed

text \<open>The second one: what upstream answered.\<close>

lemma persist_answer:
  assumes "view (w_rows w) rid = Some (st, e)" and "st = ''submitted'' \<or> terminal st"
    and "(st2 = ''failed'' \<and> ext = []) \<or> (st2 = ''acknowledged'' \<and> ext \<noteq> [])"
  shows "moves\<^sup>*\<^sup>* (view (w_rows w)) (view (w_rows (snd (persist env w rid ext st2 err am))))"
proof -
  let ?P = "\<lambda>s. \<exists>x. s = Upsert x \<and> request_id x = rid \<and> external_id x = str_ptr ext \<and> status x = st2"
  let ?w1 = "snd (persist env w rid ext st2 err am)"
  have "wrote ?P w ?w1" by (rule persist_wrote) simp
  then consider "w_rows ?w1 = w_rows w"
    | x where "request_id x = rid" "external_id x = str_ptr ext" "status x = st2"
        "w_rows ?w1 = sql_upsert x (w_rows w)"
    unfolding wrote_def by auto
  then show ?thesis
  proof cases
    case 2
    let ?m = "view (w_rows w)"
    have eff: "view (w_rows ?w1) = ?m(rid \<mapsto> (if terminal st then st else st2, coalesce (str_ptr ext) e))"
      using 2 assms(1) by (simp add: view_upsert)
    consider "terminal st" "ext = []" | "terminal st" "ext \<noteq> []"
      | "st = ''submitted''" "st2 = ''failed''" "ext = []"
      | "st = ''submitted''" "st2 = ''acknowledged''" "ext \<noteq> []"
      using assms(2,3) by blast
    then show ?thesis
    proof cases
      case 1
      then show ?thesis using eff assms(1) by (intro moves_same) (simp add: fun_eq_iff)
    next
      case 2
      then show ?thesis using eff moves.late [of ?m rid st e ext] assms(1) by (simp add: r_into_rtranclp)
    next
      case 3
      then show ?thesis using eff moves.reject [of ?m rid e] assms(1) by (simp add: terminal_def r_into_rtranclp)
    next
      case 4
      then show ?thesis
        using eff moves.acknowledge [of ?m rid e ext] assms(1) by (simp add: terminal_def r_into_rtranclp)
    qed
  qed simp
qed

lemma forward_request_moves:
  assumes "rid \<noteq> []"
  shows "moves\<^sup>*\<^sup>* (view (w_rows w)) (view (w_rows (snd (forward_request d bw env w rid p))))"
proof -
  let ?am = "any_bool (map_of p ''auto_monitor'')"
  obtain r1 w1 where p1: "persist env w rid [] ''submitted'' [] ?am = (r1, w1)" by (metis surj_pair)
  obtain r2 w2 where a: "add_monitoring bw env w1 (event_request p) = (r2, w2)" by (metis surj_pair)
  have s1: "moves\<^sup>*\<^sup>* (view (w_rows w)) (view (w_rows w1))" by (rule persist_submitted(1) [OF p1 assms])
  have w2: "w_rows w2 = w_rows w1" using add_monitoring_frame(1) [of bw env w1 "event_request p"] a by simp
  show ?thesis
  proof (cases r1)
    case (Inl e)
    then show ?thesis using s1 by (simp add: forward_request_def p1)
  next
    case (Inr u)
    then obtain st e where "view (w_rows w2) rid = Some (st, e)" "st = ''submitted'' \<or> terminal st"
      using persist_submitted(2) [OF p1 assms] w2 by auto
    note answer = persist_answer [OF this, of _ _ env _ ?am]
    show ?thesis
    proof (cases r2)
      case (Inl err)
      have "moves\<^sup>*\<^sup>* (view (w_rows w1)) (view (w_rows (snd (persist env w2 rid [] ''failed'' err ?am))))"
        using answer [of "''failed''" "[]" err] w2 by simp
      with s1 have "moves\<^sup>*\<^sup>* (view (w_rows w)) (view (w_rows (snd (persist env w2 rid [] ''failed'' err ?am))))"
        by (rule rtranclp_trans)
      then show ?thesis by (simp add: forward_request_def p1 a Inr Inl case_prod_beta Let_def split: sum.split)
    next
      case ack: (Inr resp)
      have "mr_id resp \<noteq> []" using add_monitoring_id [of bw env w1 "event_request p" resp] a ack by simp
      then have "moves\<^sup>*\<^sup>* (view (w_rows w1))
          (view (w_rows (snd (persist env w2 rid (mr_id resp) ''acknowledged'' [] ?am))))"
        using answer [of "''acknowledged''" "mr_id resp" "[]"] w2 by simp
      with s1 have "moves\<^sup>*\<^sup>* (view (w_rows w))
          (view (w_rows (snd (persist env w2 rid (mr_id resp) ''acknowledged'' [] ?am))))"
        by (rule rtranclp_trans)
      then show ?thesis by (simp add: forward_request_def p1 a Inr ack case_prod_beta Let_def split: sum.split)
    qed
  qed
qed

lemma handle_event_moves:
  "moves\<^sup>*\<^sup>* (view (w_rows w)) (view (w_rows (snd (handle_event deps env w name pl))))"
  by (cases rule: handle_event_cases [of deps env w name pl]) (simp_all add: forward_request_moves)

section \<open>A tick\<close>

text \<open>A listed row is current while the table still shows what was listed.\<close>

definition current :: "table \<Rightarrow> forwarded_request \<Rightarrow> bool" where
  "current t row \<longleftrightarrow> \<not> terminal (fr_status row) \<and> (fr_external_id row \<noteq> [] \<longrightarrow>
     view t (fr_request_id row) = Some (fr_status row, Some (fr_external_id row)))"

lemma process_row_moves:
  assumes "current (w_rows w) row"
  shows "moves\<^sup>*\<^sup>* (view (w_rows w)) (view (w_rows (snd (process_row rd env w fe row))))"
    and "k \<noteq> fr_request_id row \<Longrightarrow> view (w_rows (snd (process_row rd env w fe row))) k = view (w_rows w) k"
proof -
  have "w_rows (snd (process_row rd env w fe row)) = w_rows w
      \<or> (\<exists>s. poll_stmt row s \<and> fr_external_id row \<noteq> []
            \<and> w_rows (snd (process_row rd env w fe row)) = exec_stmt s (w_rows w))"
    using process_row_wrote [of row w rd env fe] unfolding wrote_def
    by (cases "fr_external_id row = []") (simp_all add: process_row_skip)
  then consider "w_rows (snd (process_row rd env w fe row)) = w_rows w"
    | s where "poll_stmt row s" "fr_external_id row \<noteq> []"
        "w_rows (snd (process_row rd env w fe row)) = exec_stmt s (w_rows w)" by blast
  then have "moves\<^sup>*\<^sup>* (view (w_rows w)) (view (w_rows (snd (process_row rd env w fe row))))
    \<and> (k \<noteq> fr_request_id row \<longrightarrow> view (w_rows (snd (process_row rd env w fe row))) k = view (w_rows w) k)"
  proof cases
    case 2
    moreover have "stmt_key s = fr_request_id row" using 2(1) by (cases s) simp_all
    ultimately show ?thesis using poll_stmt_moves [OF 2(1) _ 2(2)] view_other [of s k] assms
      by (simp add: current_def)
  qed simp
  then show "moves\<^sup>*\<^sup>* (view (w_rows w)) (view (w_rows (snd (process_row rd env w fe row))))"
    and "k \<noteq> fr_request_id row \<Longrightarrow> view (w_rows (snd (process_row rd env w fe row))) k = view (w_rows w) k"
    by simp_all
qed

lemma tick_rows_moves:
  assumes "distinct (map fr_request_id rows)" and "\<And>row. row \<in> set rows \<Longrightarrow> current (w_rows w) row"
  shows "moves\<^sup>*\<^sup>* (view (w_rows w)) (view (w_rows (snd (tick_rows rd env w fe rows))))"
  using assms
proof (induction rows arbitrary: w fe)
  case (Cons row rows)
  obtain b w1 where c: "ctx_err env w = (b, w1)" by (metis surj_pair)
  have w1: "w_rows w1 = w_rows w" using c by (auto simp: ctx_err_def)
  obtain fe2 w2 where p: "process_row rd env w1 fe row = (fe2, w2)" by (metis surj_pair)
  have row: "current (w_rows w1) row" using Cons.prems(2) w1 by simp
  have m: "moves\<^sup>*\<^sup>* (view (w_rows w)) (view (w_rows w2))"
    using process_row_moves(1) [OF row, of rd env fe] p w1 by simp
  have "current (w_rows w2) r" if r: "r \<in> set rows" for r
  proof -
    have "fr_request_id r \<noteq> fr_request_id row" using Cons.prems(1) r by (auto simp: image_iff)
    then have "view (w_rows w2) (fr_request_id r) = view (w_rows w) (fr_request_id r)"
      using process_row_moves(2) [OF row, of "fr_request_id r" rd env fe] p w1 by simp
    then show ?thesis using Cons.prems(2) [of r] r by (simp add: current_def)
  qed
  then have "moves\<^sup>*\<^sup>* (view (w_rows w2)) (view (w_rows (snd (tick_rows rd env w2 fe2 rows))))"
    using Cons.prems(1) by (intro Cons.IH) simp_all
  with m show ?case by (cases b) (auto simp: c p w1 intro: rtranclp_trans)
qed simp

lemma listed_current:
  assumes "keys_distinct (w_rows w)" and "list_non_terminal env w tick_limit = (Inr rows, w1)"
  shows "distinct (map fr_request_id rows)" and "row \<in> set rows \<Longrightarrow> current (w_rows w) row"
proof -
  have "fst (list_non_terminal env w tick_limit) = Inr rows" using assms(2) by simp
  then obtain n where rows: "rows = map scan_row (sql_list (e_collate env) n (w_rows w))"
    by (rule list_non_terminal_result)
  have ids: "map fr_request_id rows = map request_id (sql_list (e_collate env) n (w_rows w))"
    by (simp add: rows scan_row_def)
  have "distinct (map request_id (non_terminal (w_rows w)))"
    using assms(1) by (auto simp: keys_distinct_def non_terminal_def)
  then show "distinct (map fr_request_id rows)"
    unfolding ids sql_list_def take_map [symmetric] by (simp add: distinct_map)
  show "current (w_rows w) row" if mem: "row \<in> set rows"
  proof -
    obtain r where r: "r \<in> set (w_rows w)" "\<not> terminal (status r)" "row = scan_row r"
      using assms(2) mem by (rule listed_row)
    then have "row_at (w_rows w) (request_id r) = Some r" using row_at_of_mem [OF assms(1)] by blast
    then show ?thesis
      using r by (cases "external_id r") (simp_all add: current_def view_def scan_row_def)
  qed
qed

lemma tick_moves:
  assumes "keys_distinct (w_rows w)"
  shows "moves\<^sup>*\<^sup>* (view (w_rows w)) (view (w_rows (snd (tick rd env locked w))))"
proof (cases rule: tick_cases [of rd env locked w])
  case (run rows w1)
  then show ?thesis
    using tick_rows_moves [of rows w1 rd env None] listed_current [OF assms run(2)] by simp
qed simp

lemma run_task_moves:
  "keys_distinct (w_rows w) \<Longrightarrow>
   moves\<^sup>*\<^sup>* (view (w_rows w)) (view (w_rows (snd (run_task deps env locked w key))))"
  using tick_moves by (auto simp: run_task_def split: option.split)

section \<open>Interface: a machine whose steps refine a specification\<close>

text \<open>
  What a simulation needs of the machine: an invariant that every step keeps, and transitions of the
  specification for every step from a state with it. The lemmas are about whole runs.
\<close>

locale simulation =
  fixes machine :: "'s \<Rightarrow> 's \<Rightarrow> bool"
    and spec :: "'a \<Rightarrow> 'a \<Rightarrow> bool"
    and abs_of :: "'s \<Rightarrow> 'a"
    and inv :: "'s \<Rightarrow> bool"
  assumes inv_step: "machine s u \<Longrightarrow> inv s \<Longrightarrow> inv u"
    and sim_step: "machine s u \<Longrightarrow> inv s \<Longrightarrow> spec\<^sup>*\<^sup>* (abs_of s) (abs_of u)"
begin

lemma inv_runs: "machine\<^sup>*\<^sup>* s u \<Longrightarrow> inv s \<Longrightarrow> inv u"
  by (induction rule: rtranclp_induct) (auto intro: inv_step)

lemma sim_runs: "machine\<^sup>*\<^sup>* s u \<Longrightarrow> inv s \<Longrightarrow> spec\<^sup>*\<^sup>* (abs_of s) (abs_of u)"
proof (induction rule: rtranclp_induct)
  case (step t u)
  then have "spec\<^sup>*\<^sup>* (abs_of t) (abs_of u)" using inv_runs sim_step by blast
  with step show ?case by (auto intro: rtranclp_trans)
qed simp

end

section \<open>The plugin\<close>

definition host_call :: "outside \<Rightarrow> sys \<Rightarrow> sys \<Rightarrow> bool" where
  "host_call os s u \<longleftrightarrow> (\<exists>i. snd (step os i s) = u)"

lemma reaches_calls: "reaches os s u \<Longrightarrow> (host_call os)\<^sup>*\<^sup>* s u"
proof (induction rule: reaches.induct)
  case (call s t i out u)
  then have "host_call os t u" by (auto simp: host_call_def intro!: exI [of _ i])
  with call show ?case by (auto intro: rtranclp.rtrancl_into_rtrancl)
qed simp

lemma step_moves:
  assumes "keys_distinct (w_rows (sy_world s))"
  shows "moves\<^sup>*\<^sup>* (view (w_rows (sy_world s))) (view (w_rows (sy_world (snd (step os i s)))))"
proof (cases i)
  case (I_Configure es)
  show ?thesis
    unfolding I_Configure by (cases rule: step_configure_cases [of os es s]) (simp_all add: same_tables_def)
next
  case (I_Event name pl)
  then show ?thesis using handle_event_moves by (simp add: case_prod_beta)
next
  case (I_Run key locked)
  then show ?thesis using run_task_moves [OF assms] by (simp add: case_prod_beta)
next
  case (I_Http req)
  obtain a s' w' where h: "handle_http (Some (http_router os)) req (sy_server s, sy_world s) = (a, s', w')"
    by (metis surj_pair)
  then show ?thesis using handle_http_rows [OF h] I_Http by simp
qed

lemma step_distinct:
  assumes "keys_distinct (w_rows (sy_world s))"
  shows "keys_distinct (w_rows (sy_world (snd (step os i s))))"
proof (cases i)
  case (I_Configure es)
  then show ?thesis
    unfolding I_Configure using assms
    by (cases rule: step_configure_cases [of os es s]) (simp_all add: same_tables_def)
next
  case (I_Event name pl)
  then show ?thesis
    using writes_distinct [OF handle_event_writes assms] by (simp add: case_prod_beta)
next
  case (I_Run key locked)
  have "keys_distinct (w_rows (snd (tick rd (os_env os) locked (sy_world s))))" for rd
  proof (cases rule: tick_cases [of rd "os_env os" locked "sy_world s"])
    case (run rows w1)
    then show ?thesis using writes_distinct [OF tick_rows_writes, of w1] assms by simp
  qed (simp add: assms)
  then show ?thesis
    using assms I_Run by (simp add: run_task_def case_prod_beta split: option.split)
next
  case (I_Http req)
  obtain a s' w' where h: "handle_http (Some (http_router os)) req (sy_server s, sy_world s) = (a, s', w')"
    by (metis surj_pair)
  then show ?thesis using handle_http_rows [OF h] I_Http assms by simp
qed

interpretation calls: simulation "host_call os" moves "\<lambda>s. view (w_rows (sy_world s))"
    "\<lambda>s. keys_distinct (w_rows (sy_world s))"
  by unfold_locales (auto simp: host_call_def step_moves step_distinct)

section \<open>Properties\<close>


definition sample_call :: input where
  "sample_call = I_Event submitted_event
     (Some [(''target_plugin_id'', AStr plugin_id), (''request_id'', AStr ''r1'')])"


end
