(* ===== verification/JsonCodec.thy ===== *)
theory JsonCodec
  imports GoJson
begin

text \<open>
  What encoding/json prints it reads back: the printer and the parser of the theory GoJson are inverse
  up to the replacement of invalid UTF-8. The client, the configuration and the API rest on this
  wherever a value leaves the plugin as text and comes back as text.
\<close>

section \<open>Whole UTF-8 sequences\<close>

text \<open>The bytes of one valid rune: whatever follows, they are decoded as it.\<close>

definition chunk :: "nat \<times> gostring \<Rightarrow> bool" where
  "chunk p \<longleftrightarrow> (fst p \<noteq> rune_error \<or> length (snd p) \<noteq> 1) \<and> (\<forall>t. runes (snd p @ t) = p # runes t)"

lemma decode_rune_extend:
  assumes "decode_rune b0 bs = (r, Suc w)" and "r \<noteq> rune_error \<or> w \<noteq> 0"
  shows "w \<le> length bs \<and> decode_rune b0 (take w bs @ t) = (r, Suc w)"
proof -
  consider "seq_len b0 = 0" | "seq_len b0 = 1" | "seq_len b0 = 2" | "seq_len b0 = 3" | "seq_len b0 = 4"
    unfolding seq_len_def by argo
  then show ?thesis
    using assms by cases (auto simp: decode_rune_def split: list.splits if_splits)
qed

lemma decode_rune_pos: "\<exists>w. snd (decode_rune b0 bs) = Suc w"
  by (auto simp: decode_rune_def split: list.split)

text \<open>The first rune of a text: a whole sequence, or one byte of an invalid one.\<close>

lemma runes_step:
  obtains (bad) "runes (c # cs) = (rune_error, [c]) # runes cs" "0x80 \<le> byte_of c"
  | (whole) r w where "runes (c # cs) = (r, c # take w cs) # runes (drop w cs)" "chunk (r, c # take w cs)"
proof -
  let ?bs = "map of_char (take 3 cs) :: nat list"
  obtain r w where d: "decode_rune (byte_of c) ?bs = (r, Suc w)"
    using decode_rune_pos by (metis prod.collapse)
  have run: "runes (c # cs) = (r, c # take w cs) # runes (drop w cs)"
    by (simp add: runes.simps(2) d)
  show thesis
  proof (cases "r = rune_error \<and> w = 0")
    case True
    have "0x80 \<le> byte_of c"
    proof (rule ccontr)
      assume "\<not> ?thesis"
      then have "r = byte_of c" using d by (simp add: decode_rune_ascii)
      then show False using True byte_of_less [of c] by (simp add: rune_error_def)
    qed
    then show thesis using bad run True by simp
  next
    case False
    then have ext: "w \<le> length ?bs" "decode_rune (byte_of c) (take w ?bs @ t) = (r, Suc w)" for t
      using decode_rune_extend [OF d] by auto
    then have w: "w \<le> 3" "w \<le> length cs" by auto
    have "runes ((c # take w cs) @ t) = (r, c # take w cs) # runes t" for t
    proof -
      have "map byte_of (take 3 (take w cs @ t)) = take w ?bs @ map byte_of (take (3 - w) t)"
        using w by (simp add: take_map min_def)
      then show ?thesis using w ext(2) by (simp add: runes.simps(2))
    qed
    then have "chunk (r, c # take w cs)" using False w by (simp add: chunk_def)
    with run show thesis by (rule whole)
  qed
qed

lemma runes_chunks: "(\<And>p. p \<in> set ps \<Longrightarrow> chunk p) \<Longrightarrow> runes (concat (map snd ps)) = ps"
  by (induction ps) (simp_all add: chunk_def)

definition rune_error_bytes :: gostring where
  "rune_error_bytes = [CHR 0xEF, CHR 0xBF, CHR 0xBD]"

lemma encode_rune_error: "encode_rune rune_error = rune_error_bytes"
  by (simp add: encode_rune_def rune_error_def rune_error_bytes_def char_of_def bit_Suc_0_iff)

lemma chunk_rune_error: "chunk (rune_error, rune_error_bytes)"
  by (simp add: chunk_def rune_error_bytes_def rune_error_def runes.simps(2) decode_rune_def seq_len_def
      second_lo_def second_hi_def cont_def)

text \<open>The repair of \<open>to_valid_utf8\<close>, rune by rune.\<close>

fun repair :: "nat \<times> gostring \<Rightarrow> nat \<times> gostring" where
  "repair (r, bs) = (if r = rune_error \<and> length bs = 1 then (rune_error, rune_error_bytes) else (r, bs))"

lemma to_valid_utf8_repair: "to_valid_utf8 s = concat (map (snd \<circ> repair) (runes s))"
  unfolding to_valid_utf8_def
  by (rule arg_cong [where f = concat], rule map_cong) (auto simp: encode_rune_error split: prod.split)

lemma runes_cases: "p \<in> set (runes s) \<Longrightarrow> chunk p \<or> (\<exists>c. p = (rune_error, [c]) \<and> 0x80 \<le> byte_of c)"
proof (induction s rule: length_induct)
  case (1 s)
  show ?case
  proof (cases s)
    case (Cons c cs)
    have IH: "chunk p \<or> (\<exists>c. p = (rune_error, [c]) \<and> 0x80 \<le> byte_of c)" if "p \<in> set (runes (drop w cs))" for w
    proof -
      have "length (drop w cs) < length s" using Cons by simp
      with 1(1) that show ?thesis by blast
    qed
    show ?thesis
    proof (cases rule: runes_step [of c cs])
      case bad
      then show ?thesis using 1(2) IH [of 0] Cons by auto
    next
      case (whole r w)
      then show ?thesis using 1(2) IH [of w] Cons by auto
    qed
  qed (use 1 in simp)
qed

lemma repair_chunk: "p \<in> set (runes s) \<Longrightarrow> chunk (repair p)"
  using runes_cases [of p s] chunk_rune_error by (cases p) (auto simp: chunk_def)

lemma runes_valid: "runes (to_valid_utf8 s) = map repair (runes s)"
proof -
  have "runes (concat (map snd (map repair (runes s)))) = map repair (runes s)"
    by (rule runes_chunks) (auto dest: repair_chunk)
  then show ?thesis by (simp add: to_valid_utf8_repair)
qed

lemma repair_idem: "repair (repair p) = repair p"
  by (cases p) (simp add: rune_error_bytes_def)

text \<open>Repaired text is left as it is.\<close>

lemma to_valid_utf8_idem [simp]: "to_valid_utf8 (to_valid_utf8 s) = to_valid_utf8 s"
  by (simp add: to_valid_utf8_repair [of "to_valid_utf8 s"] runes_valid repair_idem comp_def)
    (simp add: to_valid_utf8_repair comp_def)

section \<open>Strings\<close>

definition hex_digit :: "nat \<Rightarrow> char" where
  "hex_digit d = (if d < 10 then char_of (48 + d) else char_of (87 + d))"

lemma hex_val_digit: "d < 16 \<Longrightarrow> hex_val (hex_digit d) = Some d"
  by (auto simp: hex_val_def hex_digit_def Let_def)

text \<open>The escape of a code point in four hexadecimal digits.\<close>

definition u_escape :: "nat \<Rightarrow> gostring" where
  "u_escape n = [CHR 0x5C, CHR ''u'', hex_digit (n div 4096 mod 16), hex_digit (n div 256 mod 16),
     hex_digit (n div 16 mod 16), hex_digit (n mod 16)]"

lemma hex4_u_escape:
  assumes "n < 65536"
  shows "hex4 (hex_digit (n div 4096 mod 16)) (hex_digit (n div 256 mod 16)) (hex_digit (n div 16 mod 16))
      (hex_digit (n mod 16)) = Some n"
proof -
  have "((n div 4096 mod 16 * 16 + n div 256 mod 16) * 16 + n div 16 mod 16) * 16 + n mod 16 = n"
  proof -
    have a: "n div 4096 mod 16 = n div 4096" using assms by simp
    have b: "n div 4096 * 16 + n div 256 mod 16 = n div 256"
      using div_mult_mod_eq [of "n div 256" 16] by (simp flip: div_mult2_eq)
    have c: "n div 256 * 16 + n div 16 mod 16 = n div 16"
      using div_mult_mod_eq [of "n div 16" 16] by (simp flip: div_mult2_eq)
    show ?thesis unfolding a b c by simp
  qed
  then show ?thesis unfolding hex4_def by (simp only: hex_val_digit [OF mod_less_divisor] prod.case option.case
      zero_less_numeral)
qed

lemma prepend_simps [simp]:
  "prepend [] x = x" "prepend a (prepend b x) = prepend (a @ b) x" "prepend a None = None"
  "prepend a (Some (s, r)) = Some (a @ s, r)"
  by (cases x; simp add: prepend_def case_prod_beta comp_def)+

lemma scan_u_escape:
  assumes "n < 0xD800 \<or> (0xE000 \<le> n \<and> n < 65536)"
  shows "scan_str (u_escape n @ t) = prepend (encode_rune n) (scan_str t)"
proof -
  have "hex4 (hex_digit (n div 4096 mod 16)) (hex_digit (n div 256 mod 16)) (hex_digit (n div 16 mod 16))
      (hex_digit (n mod 16)) = Some n"
    using assms by (intro hex4_u_escape) linarith
  moreover have "\<not> (0xD800 \<le> n \<and> n < 0xE000)" using assms by linarith
  ultimately show ?thesis unfolding u_escape_def by (auto simp: scan_str.simps(2))
qed

lemma scan_plain_char:
  "32 \<le> byte_of c \<Longrightarrow> c \<noteq> CHR 0x22 \<Longrightarrow> c \<noteq> CHR 0x5C \<Longrightarrow> scan_str (c # t) = prepend [c] (scan_str t)"
  by (simp add: scan_str.simps(2))

lemma scan_plain:
  "\<forall>x \<in> set bs. 32 \<le> byte_of x \<and> x \<noteq> CHR 0x22 \<and> x \<noteq> CHR 0x5C \<Longrightarrow>
   scan_str (bs @ t) = prepend bs (scan_str t)"
  by (induction bs) (simp_all add: scan_plain_char)

lemma json_char_u: "json_char (r, bs) =
    (if r = 0x22 \<or> r = 0x5C then [CHR 0x5C, char_of r]
     else if r = 8 then [CHR 0x5C, CHR ''b''] else if r = 12 then [CHR 0x5C, CHR ''f'']
     else if r = 10 then [CHR 0x5C, CHR ''n''] else if r = 13 then [CHR 0x5C, CHR ''r'']
     else if r = 9 then [CHR 0x5C, CHR ''t'']
     else if r < 32 \<or> r = 0x3C \<or> r = 0x3E \<or> r = 0x26 \<or> r = 0x2028 \<or> r = 0x2029 then u_escape r
     else if r = rune_error \<and> length bs = 1 then u_escape r else bs)"
  by (simp only: json_char_def u_escape_def hex_digit_def Let_def prod.case list.map append.simps)

text \<open>What the parser makes of one printed rune: the repaired bytes.\<close>

lemma scan_ascii:
  assumes "n < 0x80"
  shows "scan_str (json_char (n, [char_of n]) @ t) = prepend [char_of n] (scan_str t)"
proof -
  consider "n = 0x22" | "n = 0x5C" | "n = 8" | "n = 12" | "n = 10" | "n = 13" | "n = 9"
    | (u) "n \<notin> {0x22, 0x5C, 8, 12, 10, 13, 9}" "n < 32 \<or> n = 0x3C \<or> n = 0x3E \<or> n = 0x26"
    | (plain) "n \<notin> {0x22, 0x5C, 0x3C, 0x3E, 0x26}" "32 \<le> n"
    by fastforce
  then show ?thesis
  proof cases
    case u
    then have "json_char (n, [char_of n]) = u_escape n" unfolding json_char_u by auto
    moreover have "encode_rune n = [char_of n]" using assms by (simp add: encode_rune_def)
    ultimately show ?thesis using scan_u_escape [of n t] assms by simp
  next
    case plain
    then have "json_char (n, [char_of n]) = [char_of n]"
      using assms unfolding json_char_u by (auto simp: rune_error_def)
    moreover have b: "byte_of (char_of n) = n" using assms by simp
    moreover have "n = byte_of d" if "char_of n = d" for d :: char unfolding that [symmetric] b ..
    from this [of "CHR 0x22"] this [of "CHR 0x5C"] have "char_of n \<noteq> CHR 0x22" "char_of n \<noteq> CHR 0x5C"
      using plain by auto
    ultimately show ?thesis using plain by (simp add: scan_plain_char)
  qed (simp_all add: json_char_u scan_str.simps(2) simple_escape_def char_of_def bit_Suc_0_iff)
qed

text \<open>The two separators that are escaped although they are valid come back as their three bytes.\<close>

lemma decode_separator:
  assumes "decode_rune b0 bs = (r, Suc w)" and "r = 0x2028 \<or> r = 0x2029" and "0x80 \<le> b0"
  shows "w = 2 \<and> b0 = 0xE2 \<and> take 2 bs = [0x80, r - 0x1F80]"
proof -
  have two: "(b mod 32) * 64 + c mod 64 \<noteq> r" for b c :: nat
  proof -
    have "b mod 32 < 32" "c mod 64 < 64" by simp_all
    then show ?thesis using assms(2) by linarith
  qed
  have four: "b0 mod 8 * 262144 + c mod 64 * 4096 + d mod 64 * 64 + e mod 64 \<noteq> r"
    if "0xF0 \<le> b0" "b0 \<le> 0xF4" "second_lo b0 \<le> c" "c \<le> second_hi b0" for c d e :: nat
  proof (cases "b0 = 0xF0")
    case True
    then have "0x90 \<le> c" "c \<le> 0xBF" using that(3,4) by (simp_all add: second_lo_def second_hi_def)
    then have "16 \<le> c mod 64" using mod_window [of 2 64 c] by simp
    then show ?thesis using assms(2) by auto
  next
    case False
    then have "1 \<le> b0 mod 8" using that(1,2) mod_window [of 30 8 b0] by simp
    then show ?thesis using assms(2) by auto
  qed
  have three: "b0 = 0xE2 \<and> c = 0x80 \<and> d = r - 0x1F80"
    if "b0 mod 16 * 4096 + c mod 64 * 64 + d mod 64 = r" "0xE0 \<le> b0" "b0 \<le> 0xEF" "cont c" "cont d" for c d :: nat
  proof -
    have m: "b0 mod 16 = b0 - 14 * 16" "c mod 64 = c - 2 * 64" "d mod 64 = d - 2 * 64"
      using that(2-5) by (intro mod_window; simp add: cont_def)+
    note h = that(2,4,5)
    obtain k l n where e: "b0 = 224 + k" "c = 128 + l" "d = 128 + n"
      using h unfolding cont_def by (meson nat_le_iff_add)
    have eq: "k * 4096 + l * 64 + n = r" "l < 64" "n < 64"
      using that(1,4,5) m unfolding e cont_def by simp_all
    have "k = 2" using eq assms(2) by (cases "k \<le> 1"; cases "3 \<le> k"; linarith)
    moreover have "l = 0" using eq assms(2) \<open>k = 2\<close> by (cases "1 \<le> l"; linarith)
    ultimately show ?thesis using eq assms(2) unfolding e by auto
  qed
  have lohi: "second_lo b0 \<le> c \<Longrightarrow> c \<le> second_hi b0 \<Longrightarrow> cont c" for c
    by (auto simp: second_lo_def second_hi_def cont_def split: if_splits)
  show ?thesis
  proof (rule seq_len_cases [OF assms(3)], goal_cases)
    case 1
    then show ?case using assms(1,2) by (auto simp: decode_rune_def rune_error_def split: list.splits)
  next
    case 2
    then show ?case using assms(1,2) two by (auto simp: decode_rune_def rune_error_def split: list.splits if_splits)
  next
    case 3
    then show ?case using assms(1,2) three lohi
      by (auto simp: decode_rune_def rune_error_def not_less split: list.splits if_splits)
  next
    case 4
    then show ?case using assms(1,2) four
      by (auto simp: decode_rune_def rune_error_def not_less split: list.splits if_splits)
  qed
qed

lemma separator_bytes:
  assumes "runes (c # cs) = (r, c # take w cs) # runes (drop w cs)" and "chunk (r, c # take w cs)"
    and "r = 0x2028 \<or> r = 0x2029"
  shows "encode_rune r = c # take w cs"
proof -
  have ne: "0x80 \<le> byte_of c"
  proof (rule ccontr)
    assume "\<not> ?thesis"
    then have "r = byte_of c" using assms(1) by simp
    then show False using assms(3) byte_of_less [of c] by simp
  qed
  let ?bs = "map of_char (take 3 cs) :: nat list"
  obtain v where d: "decode_rune (byte_of c) ?bs = (r, Suc v)"
    using decode_rune_pos [of "byte_of c" ?bs] assms(1) by (auto simp: runes.simps(2) Let_def prod_eq_iff)
  have dec: "v = 2" "byte_of c = 0xE2" "take 2 ?bs = [0x80, r - 0x1F80]"
    using decode_separator [OF d assms(3) ne] by auto
  have "c # take w cs = c # take v cs"
    using assms(1) d by (simp add: runes.simps(2) Let_def)
  moreover have "map byte_of (take 2 cs) = [0x80, r - 0x1F80]" using dec(3) by (simp add: take_map min_def)
  ultimately have "map byte_of (c # take w cs) = [0xE2, 0x80, r - 0x1F80]" using dec by simp
  then have "map char_of (map byte_of (c # take w cs)) = (map char_of [0xE2, 0x80, r - 0x1F80] :: gostring)"
    by (rule arg_cong)
  then have "c # take w cs = map char_of [0xE2, 0x80, r - 0x1F80]"
    by (simp add: comp_def map_idI)
  moreover have "encode_rune r = map char_of [0xE2, 0x80, r - 0x1F80]"
    using assms(3) by (auto simp: encode_rune_def)
  ultimately show ?thesis by simp
qed

lemma nonascii_plain: "\<forall>x \<in> set bs. 0x80 \<le> byte_of x \<Longrightarrow>
    \<forall>x \<in> set bs. 32 \<le> byte_of x \<and> x \<noteq> CHR 0x22 \<and> x \<noteq> CHR 0x5C"
  by fastforce

text \<open>So printing and scanning a string repairs it and does nothing else.\<close>

lemma scan_printed:
  "scan_str (concat (map json_char (runes s)) @ t) = prepend (to_valid_utf8 s) (scan_str t)"
proof (induction s rule: length_induct)
  case (1 s)
  show ?case
  proof (cases s)
    case (Cons c cs)
    have IH: "scan_str (concat (map json_char (runes (drop w cs))) @ t)
        = prepend (to_valid_utf8 (drop w cs)) (scan_str t)" for w
      using 1 Cons by simp
    show ?thesis
    proof (cases "byte_of c < 0x80")
      case True
      have "scan_str (json_char (byte_of c, [c]) @ u) = prepend [c] (scan_str u)" for u
        using scan_ascii [OF True, of u] by simp
      moreover have "to_valid_utf8 (c # cs) = c # to_valid_utf8 cs"
        using True by (simp add: to_valid_utf8_def rune_error_def)
      ultimately show ?thesis using True IH [of 0] Cons by simp
    next
      case False
      show ?thesis
      proof (cases rule: runes_step [of c cs])
        case bad
        have "json_char (rune_error, [c]) = u_escape rune_error" unfolding json_char_u by (simp add: rune_error_def)
        moreover have "to_valid_utf8 (c # cs) = encode_rune rune_error @ to_valid_utf8 cs"
          using bad by (simp add: to_valid_utf8_def)
        ultimately show ?thesis
          using bad IH [of 0] Cons scan_u_escape [of rune_error] by (simp add: rune_error_def)
      next
        case (whole r w)
        have val: "to_valid_utf8 (c # cs) = (c # take w cs) @ to_valid_utf8 (drop w cs)"
        proof -
          have "\<not> (r = rune_error \<and> length (c # take w cs) = 1)" using whole(2) by (simp add: chunk_def)
          then show ?thesis by (auto simp: to_valid_utf8_def whole(1) min_def split: if_splits)
        qed
        have raw: "\<forall>x \<in> set (c # take w cs). 0x80 \<le> byte_of x" "0x80 \<le> r"
        proof -
          obtain r' w' where n: "runes (c # cs) = (r', c # take w' cs) # runes (drop w' cs)" "0x80 \<le> r'"
            "\<forall>x \<in> set (take w' cs). 0x80 \<le> byte_of x"
            by (rule runes_nonascii [of c cs]) (use False in auto)
          then show "\<forall>x \<in> set (c # take w cs). 0x80 \<le> byte_of x" "0x80 \<le> r"
            using whole(1) False by auto
        qed
        have "scan_str (json_char (r, c # take w cs) @ u) = prepend (c # take w cs) (scan_str u)" for u
        proof (cases "r = 0x2028 \<or> r = 0x2029")
          case True
          then have "json_char (r, c # take w cs) = u_escape r" unfolding json_char_u by auto
          then show ?thesis
            using scan_u_escape [of r u] separator_bytes [OF whole True] True by auto
        next
          case False
          then have "json_char (r, c # take w cs) = c # take w cs"
            using raw(2) whole(2) unfolding json_char_u chunk_def by (auto simp: min_def split: if_splits)
          then show ?thesis using scan_plain [OF nonascii_plain [OF raw(1)]] by simp
        qed
        then show ?thesis using whole(1) IH [of w] Cons val by simp
      qed
    qed
  qed (simp add: to_valid_utf8_def)
qed

lemma scan_quoted: "scan_string (concat (map json_char (runes s)) @ CHR 0x22 # t) = Some (to_valid_utf8 s, t)"
  by (simp add: scan_string_def scan_printed scan_str.simps(2))

section \<open>Numbers\<close>

text \<open>A literal that the scanner takes whole.\<close>

definition number_ok :: "gostring \<Rightarrow> bool" where
  "number_ok l \<longleftrightarrow> scan_number l = Some (l, [])"

definition num_char :: "char \<Rightarrow> bool" where
  "num_char c \<longleftrightarrow> is_digit c \<or> c \<in> {CHR ''.'', CHR ''e'', CHR ''E'', CHR ''+'', CHR ''-''}"

definition ends :: "gostring \<Rightarrow> bool" where
  "ends t \<longleftrightarrow> t = [] \<or> \<not> num_char (hd t)"

lemma takeWhile_ends: "ends t \<Longrightarrow> takeWhile is_digit (s @ t) = takeWhile is_digit s"
  by (induction s) (cases t; auto simp: ends_def num_char_def)+

lemma hd_ends: "ends t \<Longrightarrow> num_char c \<Longrightarrow> s @ t \<noteq> [] \<and> hd (s @ t) = c \<longleftrightarrow> s \<noteq> [] \<and> hd s = c"
  by (cases s; cases t) (auto simp: ends_def)

lemma num_chars: "num_char (CHR ''-'')" "num_char (CHR ''0'')" "num_char (CHR ''.'')" "num_char (CHR ''e'')"
    "num_char (CHR ''E'')" "num_char (CHR ''+'')"
  by (simp_all add: num_char_def is_digit_def)

lemma num_parts_ends:
  assumes "ends t"
  shows "num_sign (s @ t) = num_sign s" "num_int (s @ t) = num_int s" "num_frac (s @ t) = num_frac s"
    "num_exp (s @ t) = num_exp s"
proof -
  note h = hd_ends [OF assms num_chars(1)] hd_ends [OF assms num_chars(2)] hd_ends [OF assms num_chars(3)]
    hd_ends [OF assms num_chars(4)] hd_ends [OF assms num_chars(5)] hd_ends [OF assms num_chars(6)]
  show "num_sign (s @ t) = num_sign s" unfolding num_sign_def h ..
  show "num_int (s @ t) = num_int s" unfolding num_int_def h takeWhile_ends [OF assms] ..
  show "num_frac (s @ t) = num_frac s"
    unfolding num_frac_def h by (cases s) (simp_all add: takeWhile_ends [OF assms])
  show "num_exp (s @ t) = num_exp s"
  proof (cases s)
    case Nil
    then show ?thesis using h(4-5) [of "[]"] by (auto simp: num_exp_def)
  next
    case (Cons c cs)
    have sgn: "cs @ t \<noteq> [] \<and> (hd (cs @ t) = CHR ''+'' \<or> hd (cs @ t) = CHR ''-'')
        \<longleftrightarrow> cs \<noteq> [] \<and> (hd cs = CHR ''+'' \<or> hd cs = CHR ''-'')"
      using h(1,6) [of cs] by blast
    show ?thesis
      unfolding Cons num_exp_def Let_def append.simps list.sel sgn
      by (cases cs) (simp_all add: takeWhile_ends [OF assms] takeWhile_ends [OF assms, of "[]", simplified])
  qed
qed

lemma num_parts_length:
  "length (num_sign s) \<le> length s" "length (num_int s) \<le> length s" "length (num_frac s) \<le> length s"
  "length (num_exp s) \<le> length s"
proof -
  note le = length_takeWhile_le [of is_digit]
  show "length (num_sign s) \<le> length s" by (cases s) (simp_all add: num_sign_def)
  show "length (num_int s) \<le> length s" using le [of s] by (cases s) (simp_all add: num_int_def)
  show "length (num_frac s) \<le> length s" using le [of "tl s"] by (cases s) (simp_all add: num_frac_def)
  show "length (num_exp s) \<le> length s"
  proof (cases s)
    case (Cons c cs)
    then show ?thesis using le [of cs] le [of "tl cs"] by (cases cs) (simp_all add: num_exp_def Let_def)
  qed (simp add: num_exp_def)
qed

lemma scan_number_ends:
  assumes "number_ok l" and "ends t"
  shows "scan_number (l @ t) = Some (l, t)"
proof -
  let ?s1 = "drop (length (num_sign l)) l"
  let ?s2 = "drop (length (num_int ?s1)) ?s1"
  let ?s3 = "drop (length (num_frac ?s2)) ?s2"
  note p = num_parts_ends [OF assms(2)]
  have d: "drop (length (f s)) (s @ t) = drop (length (f s)) s @ t" if "length (f s) \<le> length s" for f s
    using that by simp
  have "scan_number (l @ t) = map_option (\<lambda>(x, r). (x, r @ t)) (scan_number l)"
    unfolding scan_number_def Let_def p d [of num_sign, OF num_parts_length(1)]
      d [of num_int, OF num_parts_length(2)] d [of num_frac, OF num_parts_length(3)]
      d [of num_exp, OF num_parts_length(4)] by simp
  then show ?thesis using assms(1) by (simp add: number_ok_def)
qed

text \<open>How a literal of the grammar is taken apart.\<close>

definition digits :: "gostring \<Rightarrow> bool" where
  "digits s \<longleftrightarrow> s \<noteq> [] \<and> list_all is_digit s"

lemma takeWhile_digits: "list_all is_digit s \<Longrightarrow> (t = [] \<or> \<not> is_digit (hd t)) \<Longrightarrow> takeWhile is_digit (s @ t) = s"
  by (cases t) (auto simp: takeWhile_append list_all_iff)

lemma number_ok_grammar:
  assumes "sg = [] \<or> sg = ''-''" and "digits ip" and "hd ip = CHR ''0'' \<Longrightarrow> ip = ''0''"
    and "fp = [] \<or> (\<exists>ds. digits ds \<and> fp = CHR ''.'' # ds)"
    and "ep = [] \<or> (\<exists>e s ds. e \<in> {CHR ''e'', CHR ''E''} \<and> s \<in> {[], ''+'', ''-''} \<and> digits ds \<and> ep = e # s @ ds)"
  shows "number_ok (sg @ ip @ fp @ ep)"
proof -
  obtain c cs where ip: "ip = c # cs" "is_digit c" using assms(2) by (cases ip) (auto simp: digits_def)
  have nd: "\<not> is_digit (CHR ''-'')" "\<not> is_digit (CHR ''.'')" "\<not> is_digit (CHR ''e'')" "\<not> is_digit (CHR ''E'')"
    "\<not> is_digit (CHR ''+'')"
    by (simp_all add: is_digit_def)
  have e: "ep = [] \<or> \<not> is_digit (hd ep) \<and> hd ep \<noteq> CHR ''.''" using assms(5) nd by auto
  have f: "fp @ ep = [] \<or> \<not> is_digit (hd (fp @ ep))" using assms(4) e nd by auto
  have 1: "num_sign (sg @ ip @ fp @ ep) = sg" using assms(1) ip nd by (auto simp: num_sign_def)
  have 2: "num_int (ip @ fp @ ep) = ip"
    using assms(2,3) f ip by (auto simp: num_int_def digits_def takeWhile_digits)
  have 3: "num_frac (fp @ ep) = fp"
    using assms(4) e by (auto simp: num_frac_def digits_def takeWhile_digits simp flip: list_all_iff)
  have hd: "hd ds \<noteq> CHR ''+'' \<and> hd ds \<noteq> CHR ''-''" if "ds \<noteq> []" "\<forall>x \<in> set ds. is_digit x" for ds
  proof -
    have "is_digit (hd ds)" using that hd_in_set by blast
    then show ?thesis using nd by metis
  qed
  have 4: "num_exp ep = ep"
    using assms(5) nd hd takeWhile_digits [of _ "[]"] by (auto simp: num_exp_def digits_def Let_def list_all_iff)
  have 5: "ep = [] \<or> is_digit (last ep)"
    using assms(5) by (auto simp: digits_def list_all_iff)
  have ap: "drop (length a) (a @ b) = b" for a b :: gostring by simp
  have "fp \<noteq> ''.''" using assms(4) by (auto simp: digits_def)
  then show ?thesis
    using ip(1) 5 unfolding number_ok_def scan_number_def Let_def 1 ap 2 3 4 by auto
qed

lemma itoa_nat_digits: "digits (itoa_nat n)"
proof (induction n rule: itoa_nat.induct)
  case (1 n)
  then show ?case
    by (cases "n < 10") (auto simp: itoa_nat.simps [of n] digits_def)
qed

lemma itoa_nat_zero: "hd (itoa_nat n) = CHR ''0'' \<Longrightarrow> itoa_nat n = ''0''"
proof (induction n rule: itoa_nat.induct)
  case (1 n)
  show ?case
  proof (cases "n < 10")
    case True
    then show ?thesis using 1(2) by (simp add: itoa_nat.simps [of n])
  next
    case False
    then have h: "hd (itoa_nat (n div 10)) = CHR ''0''" using 1(2) by (simp add: itoa_nat.simps [of n])
    then have "itoa_nat (n div 10) = ''0''" using 1(1) False by simp
    then have "dec_acc 0 ''0'' = Some (n div 10)" using dec_acc_itoa_nat [of "n div 10"] by simp
    then show ?thesis using False by (simp add: is_digit_def digit_val_def)
  qed
qed

lemma number_ok_itoa: "number_ok (itoa i)"
  using number_ok_grammar [of "if i < 0 then ''-'' else []" "itoa_nat (nat \<bar>i\<bar>)" "[]" "[]"]
    itoa_nat_digits itoa_nat_zero
  by (cases "i < 0") (simp_all add: itoa_def)

lemma trim_zeros_digits: "list_all is_digit s \<Longrightarrow> list_all is_digit (trim_right (CHR ''0'') s)"
  by (auto simp: trim_right_def list_all_iff dest: set_dropWhileD)

lemma frac_ok: "list_all is_digit s \<Longrightarrow>
    (if s = [] then [] else CHR ''.'' # s) = [] \<or> (\<exists>ds. digits ds \<and> (if s = [] then [] else CHR ''.'' # s) = CHR ''.'' # ds)"
  by (simp add: digits_def)

lemma sign_ok: "minus_sign f = [] \<or> minus_sign f = ''-''"
  by (simp add: minus_sign_def)

lemma number_ok_format_float: "number_ok (format_float f)"
proof (cases "f_mant f = 0")
  case True
  have "number_ok (minus_sign f @ ''0'' @ [] @ [])"
    by (rule number_ok_grammar [OF sign_ok]) (simp_all add: digits_def is_digit_def)
  then show ?thesis using True by (simp add: format_float_def)
next
  case False
  obtain c u where s: "shortest f = (c, u)" by (metis surj_pair)
  show ?thesis
  proof (cases "0 \<le> u")
    case True
    have "number_ok (minus_sign f @ itoa_nat (c * 10 ^ nat u) @ [] @ [])"
      by (rule number_ok_grammar [OF sign_ok itoa_nat_digits itoa_nat_zero]) simp_all
    then show ?thesis using False True s by (simp add: format_float_def)
  next
    case neg: False
    let ?p = "10 ^ nat (- u)"
    let ?frac = "trim_right (CHR ''0'') (pad_left (nat (- u)) (itoa_nat (c mod ?p)))"
    have "list_all is_digit (pad_left (nat (- u)) (itoa_nat (c mod ?p)))"
      using itoa_nat_digits by (auto simp: pad_left_def digits_def list_all_iff is_digit_def)
    then have "number_ok (minus_sign f @ itoa_nat (c div ?p) @ (if ?frac = [] then [] else CHR ''.'' # ?frac) @ [])"
      by (intro number_ok_grammar [OF sign_ok itoa_nat_digits itoa_nat_zero] frac_ok trim_zeros_digits) simp_all
    then show ?thesis using False neg s by (simp add: format_float_def Let_def)
  qed
qed

lemma number_ok_format_float_e: "number_ok (format_float_e f)"
proof -
  obtain c u where s: "shortest f = (c, u)" by (metis surj_pair)
  let ?ds = "itoa_nat c" and ?ex = "u + int (length (itoa_nat c)) - 1"
  let ?rest = "trim_right (CHR ''0'') (tl ?ds)"
  let ?exp = "if ?ex < 0 then ''e-'' @ itoa (- ?ex) else ''e+'' @ itoa ?ex"
  have dig: "list_all is_digit ?ds" "?ds \<noteq> []" using itoa_nat_digits [of c] by (simp_all add: digits_def)
  then have "digits [hd ?ds]" "list_all is_digit (tl ?ds)" by (cases ?ds; simp add: digits_def)+
  moreover have "\<exists>e s ds. e \<in> {CHR ''e'', CHR ''E''} \<and> s \<in> {[], ''+'', ''-''} \<and> digits ds \<and> ?exp = e # s @ ds"
  proof (cases "?ex < 0")
    case True
    then show ?thesis using itoa_nat_digits
      by (intro exI [of _ "CHR ''e''"] exI [of _ "''-''"] exI [of _ "itoa_nat (nat (- ?ex))"]) (simp add: itoa_def)
  next
    case False
    then show ?thesis using itoa_nat_digits
      by (intro exI [of _ "CHR ''e''"] exI [of _ "''+''"] exI [of _ "itoa_nat (nat ?ex)"]) (simp add: itoa_def)
  qed
  ultimately have "number_ok (minus_sign f @ [hd ?ds] @ (if ?rest = [] then [] else CHR ''.'' # ?rest) @ ?exp)"
    by (intro number_ok_grammar [OF sign_ok] frac_ok trim_zeros_digits) simp_all
  then show ?thesis by (simp add: format_float_e_def s Let_def)
qed

lemma number_ok_json_float: "number_ok (json_float f)"
  using number_ok_format_float number_ok_format_float_e by (simp add: json_float_def case_prod_beta)

section \<open>Values\<close>

text \<open>A value whose number literals the scanner takes whole, and the value with its strings and
  keys as a decoder gives them.\<close>

fun json_ok :: "json \<Rightarrow> bool" where
  "json_ok (JNum l) = number_ok l"
| "json_ok (JArr xs) = list_all json_ok xs"
| "json_ok (JObj ms) = list_all (\<lambda>(k, v). json_ok v) ms"
| "json_ok _ = True"

fun utf8_json :: "json \<Rightarrow> json" where
  "utf8_json (JStr s) = JStr (to_valid_utf8 s)"
| "utf8_json (JArr xs) = JArr (map utf8_json xs)"
| "utf8_json (JObj ms) = JObj (map (\<lambda>(k, v). (to_valid_utf8 k, utf8_json v)) ms)"
| "utf8_json j = j"

lemma number_ok_start: "number_ok l \<Longrightarrow> l \<noteq> [] \<and> (is_digit (hd l) \<or> hd l = CHR ''-'')"
  by (cases l) (auto simp: number_ok_def scan_number_def Let_def num_sign_def num_int_def is_digit_def split: if_splits)

definition starts :: "gostring \<Rightarrow> bool" where
  "starts s \<longleftrightarrow> s \<noteq> [] \<and> byte_of (hd s) \<notin> {32, 9, 10, 13} \<and> hd s \<noteq> CHR '']'' \<and> hd s \<noteq> CHR ''}''"

lemma starts_append [simp]: "starts s \<Longrightarrow> starts (s @ t)"
  by (cases s) (simp_all add: starts_def)

lemma starts_skip: "starts s \<Longrightarrow> skip_ws s = s"
  by (cases s) (simp_all add: starts_def skip_ws_def)

lemma starts_print: "json_ok j \<Longrightarrow> starts (json_print j)"
proof (induction j)
  case (JNum l)
  then have "l \<noteq> []" "is_digit (hd l) \<or> hd l = CHR ''-''" using number_ok_start [of l] by simp_all
  then show ?case by (auto simp: starts_def is_digit_def)
qed (auto simp: starts_def json_quote_def)

lemma starts_quote [simp]: "starts (json_quote k)"
  by (simp add: starts_def json_quote_def)

lemma ends_punct [simp]: "ends []" "ends (CHR '','' # t)" "ends (CHR '']'' # t)" "ends (CHR ''}'' # t)"
  by (simp_all add: ends_def num_char_def is_digit_def)

text \<open>The value printed by itself is parsed back; lists and members rest on that of their parts.\<close>

definition reads_back :: "json \<Rightarrow> bool" where
  "reads_back j \<longleftrightarrow> (\<forall>t n. ends t \<longrightarrow> 2 * length (json_print j @ t) < n \<longrightarrow>
     jvalue n (json_print j @ t) = Some (utf8_json j, t))"

lemma reads_backD:
  "reads_back j \<Longrightarrow> ends t \<Longrightarrow> 2 * length (json_print j @ t) < n \<Longrightarrow> jvalue n (json_print j @ t) = Some (utf8_json j, t)"
  by (simp add: reads_back_def)

lemma skip_ws_punct [simp]: "skip_ws (CHR '','' # t) = CHR '','' # t" "skip_ws (CHR '']'' # t) = CHR '']'' # t"
  "skip_ws (CHR ''}'' # t) = CHR ''}'' # t" "skip_ws (CHR '':'' # t) = CHR '':'' # t"
  by (simp_all add: skip_ws_def)

lemma jelems_print:
  assumes "xs \<noteq> []" and "\<forall>x \<in> set xs. reads_back x"
    and "2 * length (join_with '','' (map json_print xs) @ CHR '']'' # t) + 1 < n"
  shows "jelems n (join_with '','' (map json_print xs) @ CHR '']'' # t) = Some (map utf8_json xs, t)"
  using assms
proof (induction xs arbitrary: n rule: induct_list012)
  case (2 x)
  then obtain k where n: "n = Suc k" by (cases n) auto
  show ?case using 2 reads_backD [of x "CHR '']'' # t" k] by (simp add: n)
next
  case (3 x y zs)
  let ?r = "join_with '','' (map json_print (y # zs)) @ CHR '']'' # t"
  obtain k where n: "n = Suc k" using 3 by (cases n) auto
  have "jvalue k (json_print x @ CHR '','' # ?r) = Some (utf8_json x, CHR '','' # ?r)"
    by (rule reads_backD) (use 3 n in simp_all)
  moreover have "jelems k ?r = Some (map utf8_json (y # zs), t)" using 3 n by simp
  ultimately show ?case by (simp add: n)
qed simp

lemma scan_key: "scan_string (tl (json_quote k) @ t) = Some (to_valid_utf8 k, t)"
  using scan_quoted [of k t] by (simp add: json_quote_def)

lemma quote_cons: "json_quote k = CHR 0x22 # tl (json_quote k)"
  by (simp add: json_quote_def)

definition print_member :: "gostring \<times> json \<Rightarrow> gostring" where
  "print_member p = json_quote (fst p) @ '':'' @ json_print (snd p)"

lemma json_print_obj: "json_print (JObj ms) = ''{'' @ join_with '','' (map print_member ms) @ ''}''"
proof -
  have "(\<lambda>(k, v). json_quote k @ '':'' @ json_print v) = print_member" by (auto simp: fun_eq_iff print_member_def)
  then show ?thesis by simp
qed

lemma jmembers_step:
  assumes "reads_back v" and "ends t" and "2 * length (print_member (k, v) @ t) < n + 2"
    and "jvalue n (json_print v @ t) = Some (utf8_json v, t) \<Longrightarrow> skip_ws t = d # ds"
  shows "jmembers (Suc n) (print_member (k, v) @ t) =
      (if d = CHR '','' then map_option (\<lambda>(ms, r'). ((to_valid_utf8 k, utf8_json v) # ms, r')) (jmembers n ds)
       else if d = CHR ''}'' then Some ([(to_valid_utf8 k, utf8_json v)], ds) else None)"
proof -
  have v: "jvalue n (json_print v @ t) = Some (utf8_json v, t)"
    by (rule reads_backD [OF assms(1,2)]) (use assms(3) quote_cons [of k] in \<open>simp add: print_member_def\<close>)
  have q: "skip_ws (print_member (k, v) @ t) = CHR 0x22 # tl (json_quote k) @ CHR '':'' # json_print v @ t"
    using quote_cons [of k] starts_skip [of "print_member (k, v) @ t"] by (simp add: print_member_def)
  show ?thesis by (simp add: q scan_key v assms(4) [OF v])
qed

lemma jmembers_print:
  assumes "ms \<noteq> []" and "\<forall>p \<in> set ms. reads_back (snd p)"
    and "2 * length (join_with '','' (map print_member ms) @ CHR ''}'' # t) < n"
  shows "jmembers n (join_with '','' (map print_member ms) @ CHR ''}'' # t) =
    Some (map (\<lambda>(k, v). (to_valid_utf8 k, utf8_json v)) ms, t)"
  using assms
proof (induction ms arbitrary: n rule: induct_list012)
  case (2 p)
  then obtain j where n: "n = Suc j" by (cases n) auto
  show ?case
    using jmembers_step [of "snd p" "CHR ''}'' # t" "fst p" j] 2 by (simp add: n case_prod_beta)
next
  case (3 p q ps)
  let ?r = "join_with '','' (map print_member (q # ps)) @ CHR ''}'' # t"
  obtain j where n: "n = Suc j" using 3 by (cases n) auto
  have "jmembers j ?r = Some (map (\<lambda>(k, v). (to_valid_utf8 k, utf8_json v)) (q # ps), t)" using 3 n by simp
  then show ?case
    using jmembers_step [of "snd p" "CHR '','' # ?r" "fst p" j] 3 by (simp add: n case_prod_beta)
qed simp

lemma reads_back_all: "json_ok j \<Longrightarrow> reads_back j"
proof (induction j)
  case (JNum l)
  then have l: "l \<noteq> []" "is_digit (hd l) \<or> hd l = CHR ''-''" using number_ok_start [of l] by simp_all
  show ?case unfolding reads_back_def
  proof (intro allI impI)
    fix t n assume t: "ends t" and n: "2 * length (json_print (JNum l) @ t) < n"
    obtain c cs where c: "l = c # cs" using l by (cases l) auto
    have ne: "c \<noteq> CHR 0x22" "c \<noteq> CHR ''[''" "c \<noteq> CHR ''{''" "c \<noteq> CHR ''n''" "c \<noteq> CHR ''t''" "c \<noteq> CHR ''f''"
      using l(2) by (auto simp: c is_digit_def)
    have sk: "skip_ws (c # cs @ t) = c # cs @ t"
      using starts_skip [OF starts_append [OF starts_print [OF JNum]], of t] by (simp add: c)
    have "scan_number (c # cs @ t) = Some (l, t)" using scan_number_ends [of "c # cs", OF _ t] JNum c by simp
    then show "jvalue n (json_print (JNum l) @ t) = Some (utf8_json (JNum l), t)"
      using sk ne n by (cases n) (simp_all add: c has_prefix_def)
  qed
next
  case (JArr xs)
  have r: "\<forall>x \<in> set xs. reads_back x" using JArr by (simp add: list_all_iff)
  show ?case unfolding reads_back_def
  proof (intro allI impI)
    fix t n assume n: "2 * length (json_print (JArr xs) @ t) < n"
    then obtain k where k: "n = Suc k" by (cases n) auto
    show "jvalue n (json_print (JArr xs) @ t) = Some (utf8_json (JArr xs), t)"
    proof (cases xs)
      case Nil
      then show ?thesis by (simp add: k skip_ws_def)
    next
      case (Cons y ys)
      let ?s = "join_with '','' (map json_print xs) @ CHR '']'' # t"
      have "starts (join_with '','' (map json_print xs))"
        using JArr(2) starts_print [of y] by (cases ys) (simp_all add: Cons)
      then have s: "starts ?s" by simp
      then have "skip_ws ?s = ?s" "?s \<noteq> []" "hd ?s \<noteq> CHR '']''" using starts_skip [OF s] by (simp_all add: starts_def)
      moreover have "jelems k ?s = Some (map utf8_json xs, t)"
        by (rule jelems_print [OF _ r]) (use Cons n k in simp_all)
      ultimately show ?thesis by (simp add: k Let_def skip_ws_def [of "CHR ''['' # s" for s])
    qed
  qed
next
  case (JObj ms)
  have r: "\<forall>p \<in> set ms. reads_back (snd p)" using JObj by (auto simp: list_all_iff)
  show ?case unfolding reads_back_def
  proof (intro allI impI)
    fix t n assume n: "2 * length (json_print (JObj ms) @ t) < n"
    then obtain k where k: "n = Suc k" by (cases n) auto
    show "jvalue n (json_print (JObj ms) @ t) = Some (utf8_json (JObj ms), t)"
    proof (cases ms)
      case Nil
      then show ?thesis by (simp add: k skip_ws_def)
    next
      case (Cons y ys)
      let ?s = "join_with '','' (map print_member ms) @ CHR ''}'' # t"
      have "starts (print_member y)" by (simp add: print_member_def)
      then have "starts (join_with '','' (map print_member ms))" by (cases ys) (simp_all add: Cons)
      then have s: "starts ?s" by simp
      then have "skip_ws ?s = ?s" "?s \<noteq> []" "hd ?s \<noteq> CHR ''}''" using starts_skip [OF s] by (simp_all add: starts_def)
      moreover have "jmembers k ?s = Some (map (\<lambda>(k, v). (to_valid_utf8 k, utf8_json v)) ms, t)"
        by (rule jmembers_print [OF _ r]) (use Cons n k in \<open>simp_all add: json_print_obj del: json_print.simps\<close>)
      ultimately show ?thesis
        by (simp add: k Let_def json_print_obj skip_ws_def [of "CHR ''{'' # s" for s] del: json_print.simps)
    qed
  qed
next
  case JNull
  show ?case unfolding reads_back_def by (auto simp: skip_ws_def has_prefix_def elim!: less_natE)
next
  case (JBool b)
  show ?case unfolding reads_back_def by (cases b) (auto simp: skip_ws_def has_prefix_def elim!: less_natE)
next
  case (JStr s)
  have "skip_ws (json_quote s @ t) = CHR 0x22 # tl (json_quote s) @ t" for t
    using starts_skip [OF starts_append [OF starts_quote], of s t] quote_cons [of s] by (metis append_Cons)
  then show ?case unfolding reads_back_def using scan_key [of s] by (auto elim!: less_natE)
qed

text \<open>So what the printer writes is read back, alone or before a text that cannot continue a number.\<close>

lemma json_prefix_print: "json_ok j \<Longrightarrow> ends t \<Longrightarrow> json_prefix (json_print j @ t) = Some (utf8_json j, t)"
  unfolding json_prefix_def by (rule reads_backD [OF reads_back_all]) simp_all

lemma json_parse_print [simp]: "json_ok j \<Longrightarrow> json_parse (json_print j) = Some (utf8_json j)"
  using json_prefix_print [of j "[]"] by (simp add: json_parse_def skip_ws_def)

lemma json_parse_print_line [simp]: "json_ok j \<Longrightarrow> json_parse (json_print j @ [CHR 0x0A]) = Some (utf8_json j)"
  using json_prefix_print [of j "[CHR 0x0A]"]
  by (simp add: json_parse_def skip_ws_def ends_def num_char_def is_digit_def)

lemma json_ok_simps [simp]: "json_ok (jint i)" "json_ok (jfloat f)" "json_ok (jstrs ss)"
  by (simp_all add: jint_def jfloat_def jstrs_def number_ok_itoa number_ok_json_float list_all_iff)

lemma utf8_json_simps [simp]: "utf8_json (jint i) = jint i" "utf8_json (jfloat f) = jfloat f"
  "utf8_json (jstrs ss) = jstrs (map to_valid_utf8 ss)"
  by (simp_all add: jint_def jfloat_def jstrs_def)

lemma to_valid_utf8_ascii: "list_all (\<lambda>c. byte_of c < 128) s \<Longrightarrow> to_valid_utf8 s = s"
proof (induction s)
  case (Cons c s)
  then have "to_valid_utf8 (c # s) = c # to_valid_utf8 s" by (simp add: to_valid_utf8_def rune_error_def)
  with Cons show ?case by simp
qed (simp add: to_valid_utf8_def)

end
