(* ===== verification/Delivery.thy ===== *)
theory Delivery
  imports Consumer JsonCodec
begin

text \<open>
  What an event of the host becomes upstream: the request that internal/consumer/handler.go and
  internal/bookwarehouse/monitoring.go send, read back the way a Go server with the same struct reads
  it. The round trip of the theory JsonCodec carries it from the event's payload to upstream's fields.
\<close>

section \<open>The monitoring request, read back\<close>

definition zero_monitoring_request :: monitoring_request where
  "zero_monitoring_request = \<lparr>mq_title = [], mq_authors = [], mq_isbn = [], mq_format_pref = [],
     mq_quality_profile = [], mq_auto_monitor = False\<rparr>"

definition monitoring_request_fields :: "monitoring_request fields" where
  "monitoring_request_fields =
     [field ''title'' dec_str mq_title (\<lambda>v r. r\<lparr>mq_title := v\<rparr>),
      field ''authors'' (dec_list dec_str []) mq_authors (\<lambda>v r. r\<lparr>mq_authors := v\<rparr>),
      field ''isbn'' dec_str mq_isbn (\<lambda>v r. r\<lparr>mq_isbn := v\<rparr>),
      field ''format_pref'' dec_str mq_format_pref (\<lambda>v r. r\<lparr>mq_format_pref := v\<rparr>),
      field ''quality_profile'' dec_str mq_quality_profile (\<lambda>v r. r\<lparr>mq_quality_profile := v\<rparr>),
      field ''auto_monitor'' dec_bool mq_auto_monitor (\<lambda>v r. r\<lparr>mq_auto_monitor := v\<rparr>)]"

definition read_request :: "gostring \<Rightarrow> monitoring_request res" where
  "read_request = unmarshal (dec_struct monitoring_request_fields) zero_monitoring_request"

definition utf8_request :: "monitoring_request \<Rightarrow> monitoring_request" where
  "utf8_request r = \<lparr>mq_title = to_valid_utf8 (mq_title r), mq_authors = map to_valid_utf8 (mq_authors r),
     mq_isbn = to_valid_utf8 (mq_isbn r), mq_format_pref = to_valid_utf8 (mq_format_pref r),
     mq_quality_profile = to_valid_utf8 (mq_quality_profile r), mq_auto_monitor = mq_auto_monitor r\<rparr>"

lemma read_request_json: "read_request (json_print (monitoring_request_json r)) = Inr (utf8_request r)"
proof -
  have "json_ok (monitoring_request_json r)" by (simp add: monitoring_request_json_def omit_def)
  then have "json_parse (json_print (monitoring_request_json r)) = Some (utf8_json (monitoring_request_json r))" by simp
  then show ?thesis
    by (simp add: read_request_def unmarshal_def) (simp add: monitoring_request_json_def omit_def dec_struct_def
        monitoring_request_fields_def find_field_def field_def zero_monitoring_request_def utf8_request_def
        to_valid_utf8_ascii)
qed

section \<open>The first request of a call\<close>

lemma do_request_first: "\<exists>rest. w_http (snd (do_request env w via req)) = w_http w @ req # rest"
proof (induction env w via req rule: do_request.induct)
  case (1 env w via req)
  obtain r w1 where rt: "round_trip env w req = (r, w1)" by (cases "round_trip env w req")
  then have w1: "w_http w1 = w_http w @ [req]" by (auto simp: round_trip_def)
  show ?case
  proof (cases "snd (do_request env w via req) = w1")
    case False
    then obtain resp mb u host q where hop: "r = Inr resp"
      "redirect_behavior (hq_method req) (hs_status resp) = Some mb"
      "hs_location resp = Location_At u host"
      "check_redirect (redirected (hd (via @ [req])) mb u host) (via @ [req]) = Some q"
      by (auto simp: do_request.simps [of env w via req] rt split: sum.splits option.splits location.splits)
    obtain rest where "w_http (snd (do_request env w1 (via @ [req]) q)) = w_http w1 @ q # rest"
      using "1.IH" [OF rt [symmetric] hop] by blast
    then show ?thesis
      by (intro exI [of _ "q # rest"]) (simp add: do_request.simps [of env w via req] rt hop w1)
  qed (use w1 in simp)
qed

lemma post_json_first:
  assumes "url_parse (c_base c @ path) = Inr u"
  shows "\<exists>rest. w_http (snd (post_json c env w path body)) = w_http w
    @ \<lparr>hq_method = ''POST'', hq_url = c_base c @ path, hq_host = remove_empty_port (u_host u),
         hq_headers = [(api_key_header, c_key c), (''Content-Type'', ''application/json''),
           (''Accept'', ''application/json'')], hq_body = body\<rparr> # rest"
  using do_request_first [of env w "[]"] assms by (simp add: post_json_def new_request_def)

section \<open>Properties\<close>

text \<open>
  C5. An event reaches upstream as it was: when the plugin has to act on it, the base URL is well
  formed and the handler succeeds, the first request it sends is a POST to \<open>/api/v1/monitoring/add\<close> under the
  base URL with the API key, and its body, read by a server with the same struct, gives the event's title,
  authors, ISBN, preferred format and monitoring flag (bytes that are not UTF-8 replaced), and no quality profile.
\<close>

theorem event_reaches_upstream:
  assumes "actionable d name p" and "cd_bw d = Some bw"
    and "fst (handle_event (Some (Some d)) env w name (Some p)) = Inr ()"
    and "url_parse (c_base bw @ ''/api/v1/monitoring/add'') = Inr u"
  shows "\<exists>q rest. w_http (snd (handle_event (Some (Some d)) env w name (Some p))) = w_http w @ q # rest
    \<and> hq_method q = ''POST'' \<and> hq_url q = c_base bw @ ''/api/v1/monitoring/add''
    \<and> header_get (hq_headers q) api_key_header = c_key bw
    \<and> read_request (hq_body q) = Inr (utf8_request \<lparr>mq_title = string_field p ''title'',
        mq_authors = string_slice_field p ''authors'', mq_isbn = string_field p ''isbn'',
        mq_format_pref = string_field p ''format_pref'', mq_quality_profile = [],
        mq_auto_monitor = any_bool (map_of p ''auto_monitor'')\<rparr>)"
proof -
  let ?rid = "request_id_from_payload p" and ?am = "any_bool (map_of p ''auto_monitor'')"
  have run: "handle_event (Some (Some d)) env w name (Some p) = forward_request d bw env w ?rid p"
    by (rule handle_event_actionable [OF assms(1,2)])
  obtain r1 w1 where p1: "persist env w ?rid [] ''submitted'' [] ?am = (r1, w1)" by (metis surj_pair)
  have r1: "r1 = Inr ()" using assms(3) unfolding run by (cases r1) (auto simp: forward_request_def p1)
  obtain r2 w2 where a: "add_monitoring bw env w1 (event_request p) = (r2, w2)" by (metis surj_pair)
  have w1: "w_http w1 = w_http w" using persist_frame(1) [of env w ?rid "[]" "''submitted''" "[]" ?am] p1 by simp
  have "w_http (snd (forward_request d bw env w ?rid p)) = w_http w2"
    by (simp add: forward_request_def p1 r1 a case_prod_beta Let_def split: sum.split)
  moreover obtain rest where "w_http w2 = w_http w1
    @ \<lparr>hq_method = ''POST'', hq_url = c_base bw @ ''/api/v1/monitoring/add'', hq_host = remove_empty_port (u_host u),
         hq_headers = [(api_key_header, c_key bw), (''Content-Type'', ''application/json''),
           (''Accept'', ''application/json'')],
         hq_body = json_print (monitoring_request_json (event_request p))\<rparr> # rest"
    using post_json_first [OF assms(4), of env w1 "json_print (monitoring_request_json (event_request p))"]
      add_monitoring_snd [of bw env w1 "event_request p"] a by auto
  ultimately show ?thesis
    unfolding run by (simp add: w1 header_get_def read_request_json event_request_def)
qed

theorem event_reaches_upstream_witness:
  "\<exists>q rest. w_http (snd (handle_event (Some (Some sample_deps)) (answering 200 queued_body) empty_world submitted_event
        (Some sample_payload))) = q # rest
    \<and> hq_url q = ''http://bw.local/api/v1/monitoring/add'' \<and> header_get (hq_headers q) api_key_header = ''key''"
proof -
  have url: "url_parse (c_base sample_client @ ''/api/v1/monitoring/add'') = Inr \<lparr>u_scheme = ''http'', u_host = ''bw.local''\<rparr>"
    by (simp add: go_eval)
  have none: "w_http empty_world = []" by (simp add: empty_world_def)
  have c: "c_base sample_client = ''http://bw.local''" "c_key sample_client = ''key''" by (simp_all add: sample_client_def)
  from event_reaches_upstream [OF sample_actionable(1,2) sample_event_ack url, of empty_world] show ?thesis
    unfolding none c by auto
qed

end
