(* ===== verification/Answers.thy ===== *)
theory Answers
  imports Server JsonCodec
begin

text \<open>
  The JSON that the routes answer with, as a type per route: the contract of the structs of
  internal/catalog/types.go and internal/bookwarehouse/types.go, of \<open>runtime.Config\<close> and of the
  maps of internal/server/server.go. It rests on the round trip of the theory JsonCodec. And the
  round trip of the configuration through the admin API.
\<close>

section \<open>Types of JSON values\<close>

datatype jtype =
    T_Str
  | T_Bool
  | T_Int
  | T_Num
  | T_List jtype
  | T_Nullable jtype
  | T_Obj "(gostring \<times> bool \<times> jtype) list"

text \<open>An object has no key twice, every required member, and no member that is not declared.\<close>

fun has_type :: "jtype \<Rightarrow> json \<Rightarrow> bool" where
  "has_type T_Str (JStr s) = True"
| "has_type T_Bool (JBool b) = True"
| "has_type T_Int (JNum l) = (number_ok l \<and> list_all (\<lambda>c. is_digit c \<or> c = CHR ''-'') l)"
| "has_type T_Num (JNum l) = number_ok l"
| "has_type (T_List t) (JArr xs) = list_all (has_type t) xs"
| "has_type (T_Nullable t) j = (j = JNull \<or> has_type t j)"
| "has_type (T_Obj fs) (JObj ms) =
     (distinct (map fst ms) \<and> list_all (\<lambda>(k, req, t). req \<longrightarrow> k \<in> fst ` set ms) fs
      \<and> list_all (\<lambda>(k, v). case map_of fs k of None \<Rightarrow> False | Some rt \<Rightarrow> has_type (snd rt) v) ms)"
| "has_type _ _ = False"

text \<open>The declared keys are ASCII, so the decoder leaves them as they are.\<close>

fun plain_keys :: "jtype \<Rightarrow> bool" where
  "plain_keys (T_List t) = plain_keys t"
| "plain_keys (T_Nullable t) = plain_keys t"
| "plain_keys (T_Obj fs) = list_all (\<lambda>(k, req, t). list_all (\<lambda>c. byte_of c < 128) k \<and> plain_keys t) fs"
| "plain_keys _ = True"

lemma has_type_json_ok: "has_type t j \<Longrightarrow> json_ok j"
  by (induction t j rule: has_type.induct) (auto simp: list_all_iff split: option.splits)

lemma has_type_utf8: "has_type t j \<Longrightarrow> plain_keys t \<Longrightarrow> has_type t (utf8_json j)"
proof (induction t j rule: has_type.induct)
  case (7 fs ms)
  have member: "\<exists>rt. map_of fs k = Some rt \<and> has_type (snd rt) v \<and> to_valid_utf8 k = k \<and> plain_keys (snd rt)"
    if m: "(k, v) \<in> set ms" for k v
  proof -
    have "\<forall>p \<in> set ms. case map_of fs (fst p) of None \<Rightarrow> False | Some rt \<Rightarrow> has_type (snd rt) (snd p)"
      using 7(2) by (simp add: list_all_iff case_prod_beta)
    from bspec [OF this m] obtain rt where rt: "map_of fs k = Some rt" "has_type (snd rt) v" by (cases "map_of fs k") simp_all
    have "\<forall>p \<in> set fs. list_all (\<lambda>c. byte_of c < 128) (fst p) \<and> plain_keys (snd (snd p))"
      using 7(3) by (simp add: list_all_iff case_prod_beta)
    from bspec [OF this map_of_SomeD [OF rt(1)]]
    have "list_all (\<lambda>c. byte_of c < 128) k \<and> plain_keys (snd rt)" by simp
    then show ?thesis using rt to_valid_utf8_ascii by blast
  qed
  have same: "map (\<lambda>(k, v). (to_valid_utf8 k, utf8_json v)) ms = map (\<lambda>(k, v). (k, utf8_json v)) ms"
    using member by force
  have typed: "case map_of fs k of None \<Rightarrow> False | Some rt \<Rightarrow> has_type (snd rt) (utf8_json v)"
    if m: "(k, v) \<in> set ms" for k v
    using member [OF m] 7(1) [OF m refl] by auto
  have fst: "map fst (map (\<lambda>(k, v). (k, utf8_json v)) ms) = map fst ms" by auto
  have fsts: "fst ` set (map (\<lambda>(k, v). (k, utf8_json v)) ms) = fst ` set ms" by force
  show ?case
    using 7(2) typed unfolding utf8_json.simps same has_type.simps fst fsts by (auto simp: list_all_iff)
qed (auto simp: list_all_iff)

text \<open>The body of a JSON answer of a type is a text of that type.\<close>

lemma json_answer_parses:
  assumes "has_type t j" and "plain_keys t"
  shows "map_of (ap_headers (json_answer code j)) ''Content-Type'' = Some ''application/json''
    \<and> (\<exists>v. json_parse (ap_body (json_answer code j)) = Some v \<and> has_type t v)"
  using has_type_utf8 [OF assms] has_type_json_ok [OF assms(1)] by (simp add: json_answer_def newline_def)

lemma has_type_jint [simp]: "has_type T_Int (jint i)"
proof -
  have "list_all (\<lambda>c. is_digit c \<or> c = CHR ''-'') (itoa i)"
    using itoa_nat_digits by (auto simp: itoa_def digits_def list_all_iff)
  then show ?thesis by (simp add: jint_def number_ok_itoa)
qed

lemma has_type_more [simp]: "has_type T_Num (jfloat f)" "has_type (T_List T_Str) (jstrs ss)"
  "jstrs_nil ss = JNull \<or> has_type (T_List T_Str) (jstrs_nil ss)"
  "list_all P (map g xs) \<longleftrightarrow> (\<forall>x \<in> set xs. P (g x))"
  by (simp_all add: jfloat_def number_ok_json_float jstrs_def jstrs_nil_def list_all_iff)

text \<open>The keys of the members with \<open>omitempty\<close>.\<close>

lemma omit_keys [simp]:
  "fst ` set (omit z k v) \<inter> S = {} \<longleftrightarrow> z \<or> k \<notin> S"
  "k' \<in> fst ` set (omit z k v) \<longleftrightarrow> \<not> z \<and> k' = k"
  "distinct (map fst (omit z k v))"
  "list_all P (omit z k v) \<longleftrightarrow> z \<or> P (k, v)"
  by (auto simp: omit_def)

section \<open>The types of the API\<close>

definition summary_members :: "(gostring \<times> bool \<times> jtype) list" where
  "summary_members =
     [(''id'', True, T_Str), (''title'', True, T_Str), (''authors'', False, T_List T_Str),
      (''series'', False, T_Str), (''series_index'', False, T_Num), (''year'', False, T_Int),
      (''language'', False, T_Str), (''cover_url'', False, T_Str), (''has_cover'', True, T_Bool),
      (''rating'', False, T_Num), (''formats'', True, T_Nullable (T_List T_Str))]"

definition file_type :: jtype where
  "file_type = T_Obj [(''format'', True, T_Str), (''size_bytes'', True, T_Int), (''mime_type'', True, T_Str),
     (''url'', False, T_Str)]"

definition detail_type :: jtype where
  "detail_type = T_Obj (summary_members @
     [(''description'', False, T_Str), (''isbn'', False, T_Str), (''publisher'', False, T_Str),
      (''genres'', False, T_List T_Str), (''tags'', False, T_List T_Str), (''files'', True, T_List file_type),
      (''upstream_id'', False, T_Str)])"

definition page_type :: "jtype \<Rightarrow> jtype" where
  "page_type t = T_Obj [(''items'', True, T_List t), (''next_cursor'', False, T_Str), (''total'', False, T_Int)]"

definition facet_type :: "bool \<Rightarrow> jtype" where
  "facet_type slug = T_Obj ([(''id'', True, T_Str), (''name'', True, T_Str)]
     @ (if slug then [(''slug'', False, T_Str)] else []) @ [(''count'', False, T_Int)])"

definition hit_type :: jtype where
  "hit_type = T_Obj
     [(''source_id'', True, T_Str), (''source'', True, T_Str), (''title'', True, T_Str),
      (''authors'', False, T_List T_Str), (''year'', False, T_Int), (''language'', False, T_Str),
      (''formats'', False, T_List T_Str), (''size_bytes'', False, T_Int), (''cover_url'', False, T_Str)]"

definition config_type :: jtype where
  "config_type = T_Obj
     [(''database_url'', False, T_Str), (''base_url'', True, T_Str), (''api_key'', False, T_Str),
      (''default_cover_size'', True, T_Str), (''request_quality_profile'', False, T_Str),
      (''enable_auto_monitoring'', True, T_Bool), (''stream_signing_secret'', False, T_Str)]"

definition status_type :: jtype where
  "status_type = T_Obj [(''message'', True, T_Str), (''ok'', True, T_Bool)]"

definition stats_type :: jtype where
  "stats_type = T_Obj
     [(''total'', False, T_Int), (''active'', False, T_Int), (''failed'', False, T_Int),
      (''imported'', False, T_Int), (''with_errors'', False, T_Int), (''unsubmitted'', False, T_Int)]"

definition diagnostics_type :: jtype where
  "diagnostics_type = T_Obj
     [(''auto_monitoring_enabled'', True, T_Bool), (''base_url'', True, T_Str), (''configured'', True, T_Bool),
      (''database'', True, status_type), (''plugin_id'', True, T_Str), (''request_quality_profile'', True, T_Str),
      (''requests'', True, stats_type), (''role'', True, T_Str), (''upstream'', True, status_type)]"

definition error_type :: jtype where
  "error_type = T_Obj [(''error'', True, T_Str)]"

text \<open>The type of the answer 200 of a route; the page, covers and files are not JSON.\<close>

fun route_type :: "route \<Rightarrow> jtype option" where
  "route_type R_Health = Some (T_Obj [(''ok'', True, T_Bool)])"
| "route_type R_Capabilities = Some (T_Obj
     [(''formats'', True, T_List T_Str), (''features'', True, T_List T_Str),
      (''max_concurrent_downloads'', True, T_Int), (''supports_range_requests'', True, T_Bool)])"
| "route_type R_Diagnostics = Some diagnostics_type"
| "route_type R_Get_Config = Some config_type"
| "route_type R_Update_Config = Some (T_Obj [(''ok'', True, T_Bool)])"
| "route_type R_Test_Search = Some (T_Obj
     [(''items'', True, T_List hit_type), (''message'', True, T_Str), (''ok'', True, T_Bool)])"
| "route_type R_List = Some (page_type (T_Obj summary_members))"
| "route_type R_Search = Some (page_type (T_Obj summary_members))"
| "route_type R_Libraries = Some (T_Obj [(''items'', True, T_List (T_Obj
     [(''enabled'', True, T_Bool), (''id'', True, T_Int), (''media_type'', True, T_Str), (''name'', True, T_Str)]))])"
| "route_type R_Detail = Some detail_type"
| "route_type R_Browse_Authors = Some (page_type (facet_type False))"
| "route_type R_Browse_Series = Some (page_type (facet_type False))"
| "route_type R_Browse_Tags = Some (page_type (facet_type False))"
| "route_type R_Browse_Genres = Some (page_type (facet_type True))"
| "route_type R_External_Search = Some (T_Obj [(''items'', True, T_List hit_type)])"
| "route_type R_Catalog_Snapshot = Some (T_Obj [(''external_id'', True, T_Str), (''status'', True, T_Str)])"
| "route_type R_Request_Snapshot = Some (T_Obj [(''external_id'', True, T_Str), (''status'', True, T_Str)])"
| "route_type _ = None"

lemmas api_types = summary_members_def file_type_def detail_type_def page_type_def facet_type_def hit_type_def
  config_type_def status_type_def stats_type_def diagnostics_type_def error_type_def

lemma route_type_plain: "route_type rt = Some t \<Longrightarrow> plain_keys t"
  by (cases rt) (auto simp: api_types)

lemma summary_typed: "has_type (T_Obj summary_members) (JObj (summary_fields s))"
  by (simp add: summary_members_def summary_fields_def)

lemma file_typed: "has_type file_type (file_json x)"
  by (simp add: file_type_def file_json_def)

lemma detail_typed: "has_type detail_type (detail_json d)"
  by (simp add: detail_type_def summary_members_def detail_json_def summary_fields_def file_typed)

lemma page_typed: "(\<And>x. x \<in> set (pg_items p) \<Longrightarrow> has_type t (j x)) \<Longrightarrow> has_type (page_type t) (page_json j p)"
  by (simp add: page_type_def page_json_def)

lemma facet_typed: "has_type (facet_type b) (facet_json b x)"
  by (cases b) (simp_all add: facet_type_def facet_json_def)

lemma hit_typed: "has_type hit_type (hit_json h)"
  by (simp add: hit_type_def hit_json_def)

lemma config_typed: "has_type config_type (config_json c)"
  by (simp add: config_type_def config_json_def)

lemma stats_typed: "has_type stats_type (stats_json st)" "has_type stats_type (JObj [])"
  by (simp_all add: stats_type_def stats_json_def)

lemma status_typed: "has_type status_type (status_json b m)"
  by (simp add: status_type_def status_json_def)

section \<open>The answers of the routes\<close>

text \<open>A plain error text, or a JSON answer of the route's type; a JSON error has the type of errors.\<close>

definition typed :: "jtype \<Rightarrow> api_response \<Rightarrow> bool" where
  "typed t a \<longleftrightarrow> (\<exists>m. a = http_error m (ap_status a) \<and> 400 \<le> ap_status a)
     \<or> (\<exists>j. a = json_answer (ap_status a) j \<and>
          (if ap_status a = 200 then has_type t j else 400 \<le> ap_status a \<and> has_type error_type j))"

lemma typed_answers [simp]:
  "400 \<le> c \<Longrightarrow> typed t (http_error m c)" "typed t upstream_error"
  "has_type t j \<Longrightarrow> typed t (json_answer 200 j)"
  "400 \<le> c \<Longrightarrow> typed t (json_answer c (error_json e))"
proof -
  show "typed t (json_answer c (error_json e))" if "400 \<le> c"
    unfolding typed_def by (rule disjI2, rule exI [of _ "error_json e"])
      (use that in \<open>simp add: error_json_def error_type_def json_answer_def\<close>)
qed (auto simp: typed_def http_error_def upstream_error_def json_answer_def)

lemma envelope_typed [simp]: "typed (page_type (T_Obj summary_members)) (write_envelope p)"
  unfolding write_envelope_def by (intro typed_answers(3) page_typed summary_typed)

lemma deduped_typed: "typed (page_type (T_Obj summary_members)) (fst (deduped_answer x))"
  by (simp add: deduped_answer_def case_prod_beta split: option.split)

lemma list_typed: "typed (page_type (T_Obj summary_members)) (fst (h_list h env w r))"
    "typed (page_type (T_Obj summary_members)) (fst (h_search h env w r))"
  by (simp_all add: h_list_def h_search_def Let_def deduped_typed)

lemma detail_route_typed: "typed detail_type (fst (h_detail h env w r))"
  by (simp add: h_detail_def Let_def case_prod_beta detail_typed split: sum.split)

lemma browse_typed: "typed (page_type (facet_type False)) (fst (browse_handler f w r))"
    "typed (page_type (facet_type True)) (fst (h_browse_genres h env w r))"
  by (simp_all add: browse_handler_def h_browse_genres_def case_prod_beta page_typed facet_typed split: sum.split)

lemma libraries_typed:
  "route_type R_Libraries = Some t \<Longrightarrow> typed t (fst (h_libraries w))"
  by (auto simp: h_libraries_def)

lemma search_route_typed:
  "route_type R_External_Search = Some t \<Longrightarrow> typed t (fst (h_external_search h env w r))"
  by (auto simp: h_external_search_def Let_def case_prod_beta hit_typed split: sum.split)

lemma snapshot_typed:
  "route_type R_Catalog_Snapshot = Some t \<Longrightarrow> typed t (fst (h_request_snapshot h env w r))"
  "route_type R_Catalog_Snapshot = Some t \<Longrightarrow> typed t (fst (request_snapshot c env w r))"
  by (auto simp: h_request_snapshot_def request_snapshot_def snapshot_json_def Let_def case_prod_beta split: sum.split)

lemma small_typed:
  "route_type R_Health = Some t \<Longrightarrow> typed t h_health"
  "route_type R_Capabilities = Some t \<Longrightarrow> typed t (h_capabilities s)"
  by (auto simp: h_health_def h_capabilities_def capabilities_json_def)

lemma config_route_typed: "typed config_type (fst (h_get_config s env w))"
  by (simp add: h_get_config_def store_missing_def case_prod_beta config_typed split: sum.split)

lemma update_typed:
  "route_type R_Update_Config = Some t \<Longrightarrow> typed t (fst (h_update_config s env w r))"
  by (auto simp: h_update_config_def store_missing_def Let_def case_prod_beta split: sum.split option.split)

lemma diagnostics_typed: "typed diagnostics_type (fst (h_diagnostics s env w))"
proof -
  have st: "has_type stats_type (snd (snd (fst (probe_database b env v))))" for b v
    by (simp add: probe_database_def Let_def case_prod_beta stats_typed split: sum.split)
  show ?thesis by (simp add: h_diagnostics_def Let_def case_prod_beta diagnostics_type_def status_typed st)
qed

lemma test_search_typed:
  "route_type R_Test_Search = Some t \<Longrightarrow> typed t (fst (h_test_search s env w r))"
  by (auto simp: h_test_search_def search_json_def Let_def case_prod_beta hit_typed split: sum.split option.split)

lemmas routes_typed = list_typed detail_route_typed browse_typed libraries_typed search_route_typed snapshot_typed
  small_typed config_route_typed update_typed diagnostics_typed test_search_typed

lemma serve_catalog_typed:
  "route_type rt = Some t \<Longrightarrow> sd_client (sv_deps s) = Some c \<Longrightarrow>
   rt \<notin> {R_Health, R_Capabilities, R_Diagnostics, R_Get_Config, R_Update_Config, R_Test_Search} \<Longrightarrow>
   typed t (fst (serve_catalog parse s c env w rt r))"
  by (cases rt) (auto simp: serve_catalog_def Let_def intro: routes_typed)

lemma serve_route_typed:
  assumes "route_type rt = Some t"
  shows "typed t (fst (serve_route page parse env s w rt r))"
proof (cases "rt \<in> {R_Health, R_Capabilities, R_Diagnostics, R_Get_Config, R_Update_Config, R_Test_Search}")
  case True
  then show ?thesis using assms by (elim insertE emptyE) (simp_all add: serve_route_def keep_server_def routes_typed)
next
  case False
  show ?thesis
  proof (cases "sd_client (sv_deps s)")
    case None
    then show ?thesis using assms False by (cases rt) (simp_all add: serve_route_def)
  next
    case (Some c)
    then show ?thesis
      using serve_catalog_typed [OF assms Some False, of parse env w r] assms False
      by (cases rt) (simp_all add: serve_route_def keep_server_def)
  qed
qed

section \<open>The configuration through the admin API\<close>

lemma printed_ends: "ends newline"
  by (simp add: newline_def ends_def num_char_def is_digit_def)

lemma decode_printed: "json_ok j \<Longrightarrow> decode_patch (json_print j @ newline) = dec_struct config_fields zero_config (utf8_json j)"
  by (simp add: decode_patch_def json_prefix_print printed_ends)

lemma decode_config_json: "decode_patch (json_print (config_json c) @ newline) = Some (utf8_config c)"
proof -
  have "json_ok (config_json c)" by (rule has_type_json_ok [OF config_typed])
  then show ?thesis
    by (simp add: decode_printed) (simp add: config_json_def omit_def dec_struct_def config_fields_def find_field_def
        field_def zero_config_def utf8_config_def to_valid_utf8_ascii)
qed

lemma utf8_config_idem [simp]: "utf8_config (utf8_config c) = utf8_config c"
  by (simp add: utf8_config_def)

lemma jsonb_config: "jsonb (config_json c) = config_json (utf8_config c)"
  by (simp add: config_json_def omit_def utf8_config_def)

section \<open>Properties\<close>



text \<open>
  C28. The configuration that \<open>GET /api/v1/admin/config\<close> answers with can be sent back by a PATCH: when both
  see the same row and the PATCH succeeds, the row holds what it held, the API key (which the answer
  leaves out) and the signing secret (which it does not) included.
\<close>

theorem get_patch_roundtrip:
  assumes "sd_store (sv_deps s)" and "fst (get_app_config env w) = Inr cur"
    and "aq_body r = ap_body (fst (h_get_config s env w))"
    and "fst (get_app_config env2 w2) = Inr cur"
    and "h_update_config s2 env2 w2 r = (a, s', w')" and "ap_status a = 200"
  shows "w_config w' = Some (jsonb (config_json (default_cover (cur\<lparr>ac_database_url := []\<rparr>))))"
proof -
  have "aq_body r = json_print (config_json (cur\<lparr>ac_api_key := []\<rparr>)) @ newline"
    using assms(1-3) by (simp add: h_get_config_def case_prod_beta json_answer_def)
  then have dec: "decode_patch (aq_body r) = Some (utf8_config (cur\<lparr>ac_api_key := []\<rparr>))"
    by (simp add: decode_config_json)
  have kept: "keep_key cur (utf8_config (cur\<lparr>ac_api_key := []\<rparr>)) = (utf8_config cur)\<lparr>ac_api_key := ac_api_key cur\<rparr>"
    by (simp add: keep_key_def utf8_config_def)
  have "jsonb (config_json (default_cover ((utf8_config cur)\<lparr>ac_api_key := ac_api_key cur, ac_database_url := []\<rparr>)))
      = jsonb (config_json (default_cover (cur\<lparr>ac_database_url := []\<rparr>)))"
    by (simp add: jsonb_config) (simp add: utf8_config_def default_cover_def)
  then show ?thesis using patch_row [OF assms(5,6,4) dec] by (simp add: kept)
qed

text \<open>The answer of a GET sent back to the same row.\<close>

definition echo_request :: api_request where
  "echo_request = (sample_query [])\<lparr>aq_body := ap_body (fst (h_get_config sample_server calm_env stored_world))\<rparr>"

definition stored_config :: app_config where
  "stored_config = utf8_config (sample_config\<lparr>ac_database_url := [], ac_default_cover_size := ''medium''\<rparr>)"

lemma echo_runs:
  "\<exists>s' w'. h_update_config sample_server calm_env stored_world echo_request
     = (json_answer 200 (JObj [(''ok'', JBool True)]), s', w')"
proof -
  have key: "to_valid_utf8 ''key'' = ''key''" "to_valid_utf8 ''medium'' = ''medium''"
    "to_valid_utf8 ''http://bw.local'' = ''http://bw.local''" "to_valid_utf8 ''s!'' = ''s!''"
    by (simp_all add: to_valid_utf8_ascii)
  have store: "sd_store (sv_deps sample_server)" by (simp add: sample_server_def new_server_def)
  have "aq_body echo_request = json_print (config_json (stored_config\<lparr>ac_api_key := []\<rparr>)) @ newline"
    using store by (simp add: echo_request_def h_get_config_def stored_read json_answer_def stored_config_def)
  then have dec: "decode_patch (aq_body echo_request) = Some (utf8_config (stored_config\<lparr>ac_api_key := []\<rparr>))"
    by (simp add: decode_config_json)
  have kept: "keep_key stored_config (utf8_config (stored_config\<lparr>ac_api_key := []\<rparr>)) = stored_config"
    by (simp add: keep_key_def utf8_config_def stored_config_def)
  obtain w2 where "update_app_config calm_env (stored_world\<lparr>w_db := 2\<rparr>) stored_config = (Inr (), w2)"
    by (simp add: update_app_config_def config_exec_def calm_env_def stored_config_def sample_config_def zero_config_def
        utf8_config_def default_cover_def config_json_def omit_def Let_def key)
  then show ?thesis
    using store dec kept by (simp add: h_update_config_def stored_read stored_config_def [symmetric])
qed

theorem get_patch_roundtrip_witness:
  "w_config (snd (snd (h_update_config sample_server calm_env stored_world echo_request)))
     = Some (jsonb (config_json (default_cover (stored_config\<lparr>ac_database_url := []\<rparr>))))"
proof -
  obtain s' w' where run: "h_update_config sample_server calm_env stored_world echo_request
     = (json_answer 200 (JObj [(''ok'', JBool True)]), s', w')" using echo_runs by blast
  have "sd_store (sv_deps sample_server)" by (simp add: sample_server_def new_server_def)
  from get_patch_roundtrip [OF this _ _ _ run, of calm_env stored_world stored_config] show ?thesis
    unfolding run by (simp add: stored_read stored_config_def echo_request_def json_answer_def)
qed

end
