(* ===== verification/AdminPage.thy ===== *)
theory AdminPage
  imports Answers
begin

text \<open>
  The configuration form of the admin page, whose script is part of internal/server/server.go: what
  it shows after \<open>loadConfig\<close> and what its submit handler sends. Together with the handlers of the theory
  Server this is the way an operator changes the configuration.

  Strings of the script are the UTF-8 bytes of their code points; a text input drops line breaks, which no
  value here has. \<open>JSON.stringify\<close> writes a text that parses as the value it is given. The rest of the
  script is modelled in PageRender.
\<close>

section \<open>Strings of the script\<close>

definition js_space :: "nat \<Rightarrow> bool" where
  "js_space r \<longleftrightarrow> 9 \<le> r \<and> r \<le> 13 \<or> r = 32 \<or> r = 0xA0 \<or> r = 0x1680 \<or> 0x2000 \<le> r \<and> r \<le> 0x200A
     \<or> r = 0x2028 \<or> r = 0x2029 \<or> r = 0x202F \<or> r = 0x205F \<or> r = 0x3000 \<or> r = 0xFEFF"

definition js_trim :: "gostring \<Rightarrow> gostring" where
  "js_trim s =
     (let sp = (\<lambda>p. js_space (fst p))
      in concat (map snd (rev (dropWhile sp (rev (dropWhile sp (runes s)))))))"

text \<open>\<open>toLowerCase\<close>, exact for ASCII and for the two characters with ASCII in their lower case.\<close>

definition js_lower_chunk :: "nat \<times> gostring \<Rightarrow> gostring" where
  "js_lower_chunk p = (case p of (r, bs) \<Rightarrow>
     if 65 \<le> r \<and> r \<le> 90 then [char_of (r + 32)]
     else if r = 0x130 then [CHR ''i'', CHR 0xCC, CHR 0x87] else if r = 0x212A then ''k'' else bs)"

definition js_lower :: "gostring \<Rightarrow> gostring" where
  "js_lower s = concat (map js_lower_chunk (runes s))"

definition page_cover_size :: "gostring \<Rightarrow> gostring" where
  "page_cover_size v =
     (let t = js_lower (js_trim v)
      in if t = ''thumbnail'' \<or> t = ''small'' then ''thumbnail''
         else if t = ''original'' \<or> t = ''large'' then ''original'' else ''medium'')"

section \<open>The form\<close>

record config_form =
  fm_base_url :: gostring
  fm_api_key :: gostring
  fm_cover_size :: gostring
  fm_quality_profile :: gostring
  fm_auto :: bool

text \<open>A member of the answer: \<open>undefined\<close> counts as the empty string and as false.\<close>

definition member :: "json \<Rightarrow> gostring \<Rightarrow> json option" where
  "member v k = (case v of JObj ms \<Rightarrow> map_of (rev ms) k | _ \<Rightarrow> None)"

definition js_text :: "json option \<Rightarrow> gostring" where
  "js_text v = (case v of Some (JStr s) \<Rightarrow> s | _ \<Rightarrow> [])"

definition js_or :: "gostring \<Rightarrow> gostring \<Rightarrow> gostring" where
  "js_or s d = (if s = [] then d else s)"

text \<open>\<open>loadConfig\<close> leaves the field of the key as it is.\<close>

definition load_form :: "json \<Rightarrow> config_form \<Rightarrow> config_form" where
  "load_form d f = f\<lparr>
     fm_base_url := js_or (js_text (member d ''base_url'')) ''https://bookwarehouse.domain.com'',
     fm_cover_size := page_cover_size (js_text (member d ''default_cover_size'')),
     fm_quality_profile := js_text (member d ''request_quality_profile''),
     fm_auto := (member d ''enable_auto_monitoring'' = Some (JBool True))\<rparr>"

definition form_body :: "config_form \<Rightarrow> json" where
  "form_body f = JObj
     [(''base_url'', JStr (js_trim (fm_base_url f))), (''api_key'', JStr (fm_api_key f)),
      (''default_cover_size'', JStr (js_or (fm_cover_size f) ''medium'')),
      (''request_quality_profile'', JStr (js_trim (fm_quality_profile f))),
      (''enable_auto_monitoring'', JBool (fm_auto f))]"

definition blank_form :: config_form where
  "blank_form = \<lparr>fm_base_url = [], fm_api_key = [], fm_cover_size = ''medium'', fm_quality_profile = [], fm_auto = False\<rparr>"

section \<open>Laws\<close>

lemma decode_form:
  assumes "json_parse body = Some (form_body f)"
  shows "decode_patch body = Some (zero_config\<lparr>ac_base_url := js_trim (fm_base_url f), ac_api_key := fm_api_key f,
     ac_default_cover_size := js_or (fm_cover_size f) ''medium'',
     ac_request_quality_profile := js_trim (fm_quality_profile f), ac_enable_auto_monitoring := fm_auto f\<rparr>)"
proof -
  obtain rest where "json_prefix body = Some (form_body f, rest)"
    using assms by (auto simp: json_parse_def split: option.splits if_splits)
  then show ?thesis
    by (simp add: decode_patch_def form_body_def dec_struct_def config_fields_def find_field_def field_def zero_config_def)
qed

lemma config_members:
  "member (utf8_json (config_json c)) ''base_url'' = Some (JStr (to_valid_utf8 (ac_base_url c)))"
  "member (utf8_json (config_json c)) ''default_cover_size'' = Some (JStr (to_valid_utf8 (ac_default_cover_size c)))"
  "js_text (member (utf8_json (config_json c)) ''request_quality_profile'') = to_valid_utf8 (ac_request_quality_profile c)"
  "member (utf8_json (config_json c)) ''enable_auto_monitoring'' = Some (JBool (ac_enable_auto_monitoring c))"
  by (simp_all add: member_def js_text_def config_json_def omit_def to_valid_utf8_ascii)

lemma get_config_parsed:
  assumes "sd_store (sv_deps s)" and "fst (get_app_config env w) = Inr cur"
  shows "json_parse (ap_body (fst (h_get_config s env w))) = Some (utf8_json (config_json (cur\<lparr>ac_api_key := []\<rparr>)))"
proof -
  have "json_ok (config_json (cur\<lparr>ac_api_key := []\<rparr>))" by (rule has_type_json_ok [OF config_typed])
  then show ?thesis
    using assms by (simp add: h_get_config_def case_prod_beta json_answer_def newline_def)
qed

text \<open>A text that the form does not change: non-empty where a default would fill in, trimmed, valid UTF-8.\<close>

definition settled :: "app_config \<Rightarrow> bool" where
  "settled c \<longleftrightarrow> utf8_config c = c \<and> ac_base_url c \<noteq> [] \<and> js_trim (ac_base_url c) = ac_base_url c
     \<and> js_trim (ac_request_quality_profile c) = ac_request_quality_profile c
     \<and> page_cover_size (ac_default_cover_size c) = ac_default_cover_size c \<and> ac_database_url c = []"

lemma utf8_config_fix:
  "utf8_config c = c \<longleftrightarrow> (\<forall>s \<in> {ac_database_url c, ac_base_url c, ac_api_key c, ac_default_cover_size c,
     ac_request_quality_profile c, ac_stream_signing_secret c}. to_valid_utf8 s = s)"
  by (cases c) (simp add: utf8_config_def)

lemma page_cover_ne [simp]: "page_cover_size v \<noteq> []"
  by (simp add: page_cover_size_def Let_def)

lemma load_settled:
  assumes "settled c"
  shows "load_form (utf8_json (config_json (c\<lparr>ac_api_key := []\<rparr>))) f =
    f\<lparr>fm_base_url := ac_base_url c, fm_cover_size := ac_default_cover_size c,
      fm_quality_profile := ac_request_quality_profile c, fm_auto := ac_enable_auto_monitoring c\<rparr>"
proof -
  have v: "to_valid_utf8 (ac_base_url c) = ac_base_url c" "to_valid_utf8 (ac_default_cover_size c) = ac_default_cover_size c"
    "to_valid_utf8 (ac_request_quality_profile c) = ac_request_quality_profile c"
    using assms unfolding settled_def utf8_config_fix by simp_all
  show ?thesis
    using assms by (simp add: load_form_def config_members js_or_def settled_def v) (simp add: js_text_def)
qed

section \<open>Properties\<close>

text \<open>
  C7. What a save on the admin page does to a settled configuration. The operator opens the page, leaves
  the form as it is but for the key (blank, or a new one), and saves; the row has not changed in
  between. If the save succeeds, everything stored stays, the key is the one typed or else the one of before, but the
  signing secret of the media tokens is gone, whatever it was.
\<close>

theorem page_save_loses_secret_only:
  assumes "sd_store (sv_deps s)" and "fst (get_app_config env w) = Inr cur" and "settled cur"
    and "json_parse (ap_body (fst (h_get_config s env w))) = Some d"
    and "json_parse (aq_body r) = Some (form_body ((load_form d blank_form)\<lparr>fm_api_key := key\<rparr>))"
    and "fst (get_app_config env2 w2) = Inr cur"
    and "h_update_config s2 env2 w2 r = (a, s', w')" and "ap_status a = 200"
    and "to_valid_utf8 key = key"
  shows "\<exists>j. w_config w' = Some j \<and> decode_config j = Inr (cur\<lparr>ac_api_key := (if key = [] then ac_api_key cur else key),
           ac_stream_signing_secret := []\<rparr>)"
proof -
  let ?f = "(load_form d blank_form)\<lparr>fm_api_key := key\<rparr>"
  let ?c = "cur\<lparr>ac_api_key := (if key = [] then ac_api_key cur else key), ac_stream_signing_secret := []\<rparr>"
  have d: "d = utf8_json (config_json (cur\<lparr>ac_api_key := []\<rparr>))"
    using get_config_parsed [OF assms(1,2)] assms(4) by simp
  have f: "?f = \<lparr>fm_base_url = ac_base_url cur, fm_api_key = key, fm_cover_size = ac_default_cover_size cur,
      fm_quality_profile = ac_request_quality_profile cur, fm_auto = ac_enable_auto_monitoring cur\<rparr>"
    unfolding d load_settled [OF assms(3)] by (simp add: blank_form_def)
  have cover: "ac_default_cover_size cur \<noteq> []" using assms(3) page_cover_ne unfolding settled_def by metis
  obtain n where n: "decode_patch (aq_body r) = Some n" "keep_key cur n = ?c"
    using decode_form [OF assms(5) [unfolded f]] assms(3) cover
    by (auto simp: keep_key_def zero_config_def settled_def js_or_def)
  have c: "default_cover (?c\<lparr>ac_database_url := []\<rparr>) = ?c"
    using assms(3) cover by (simp add: default_cover_def settled_def)
  have "decode_config (jsonb (config_json ?c)) = Inr (utf8_config ?c)"
    using assms(3) cover by (intro decode_config_jsonb) (simp_all add: settled_def)
  moreover have "utf8_config ?c = ?c"
    using assms(3,9) unfolding settled_def utf8_config_fix by simp
  ultimately show ?thesis
    using patch_row [OF assms(7,8,6) n(1)] unfolding n(2) c by (intro exI [of _ "jsonb (config_json ?c)"]) simp
qed

text \<open>The page opened on the stored configuration and saved with a blank key.\<close>

definition page_request :: api_request where
  "page_request = (sample_query [])\<lparr>aq_body := json_print (form_body
     (load_form (utf8_json (config_json (stored_config\<lparr>ac_api_key := []\<rparr>))) blank_form))\<rparr>"

lemma stored_plain: "stored_config = sample_config\<lparr>ac_database_url := [], ac_default_cover_size := ''medium''\<rparr>"
  by (simp add: stored_config_def utf8_config_fix sample_config_def zero_config_def to_valid_utf8_ascii)

lemma stored_settled: "settled stored_config"
  unfolding stored_plain
  by (simp add: settled_def utf8_config_fix sample_config_def zero_config_def to_valid_utf8_ascii js_trim_def js_space_def
      page_cover_size_def js_lower_def js_lower_chunk_def Let_def)

definition page_form :: config_form where
  "page_form = \<lparr>fm_base_url = ''http://bw.local'', fm_api_key = [], fm_cover_size = ''medium'', fm_quality_profile = [],
     fm_auto = False\<rparr>"

lemma page_form_loaded:
  "(load_form (utf8_json (config_json (stored_config\<lparr>ac_api_key := []\<rparr>))) blank_form)\<lparr>fm_api_key := []\<rparr> = page_form"
  "load_form (utf8_json (config_json (stored_config\<lparr>ac_api_key := []\<rparr>))) blank_form = page_form"
  unfolding load_settled [OF stored_settled]
  by (simp_all add: stored_plain blank_form_def page_form_def sample_config_def zero_config_def)

lemma page_form_text:
  "js_trim (fm_base_url page_form) = ''http://bw.local''" "js_trim (fm_quality_profile page_form) = []"
  "js_or (fm_cover_size page_form) ''medium'' = ''medium''"
  by (simp_all add: page_form_def js_trim_def js_space_def js_or_def Let_def)

lemma page_parsed: "json_parse (aq_body page_request) = Some (form_body page_form)"
proof -
  have "json_ok (form_body page_form)" by (simp add: form_body_def)
  moreover have "utf8_json (form_body page_form) = form_body page_form"
    by (simp add: form_body_def page_form_text to_valid_utf8_ascii) (simp add: page_form_def to_valid_utf8_ascii)
  ultimately show ?thesis unfolding page_request_def page_form_loaded by simp
qed

lemma page_runs:
  "\<exists>s' w'. h_update_config sample_server calm_env stored_world page_request
     = (json_answer 200 (JObj [(''ok'', JBool True)]), s', w')"
proof -
  let ?n = "zero_config\<lparr>ac_base_url := ''http://bw.local'', ac_api_key := ''key'', ac_default_cover_size := ''medium''\<rparr>"
  obtain n where n: "decode_patch (aq_body page_request) = Some n" "keep_key stored_config n = ?n"
    using decode_form [OF page_parsed] unfolding page_form_text
    by (auto simp: keep_key_def stored_plain page_form_def sample_config_def zero_config_def)
  obtain w2 where "update_app_config calm_env (stored_world\<lparr>w_db := 2\<rparr>)
      (zero_config\<lparr>ac_base_url := ''http://bw.local'', ac_api_key := ''key'', ac_default_cover_size := ''medium''\<rparr>) = (Inr (), w2)"
    by (simp add: update_app_config_def config_exec_def calm_env_def zero_config_def default_cover_def config_json_def
        omit_def Let_def)
  then show ?thesis
    using n by (simp add: h_update_config_def stored_read stored_config_def [symmetric] sample_server_def new_server_def)
qed

theorem page_save_loses_secret_only_witness:
  "\<exists>j. w_config (snd (snd (h_update_config sample_server calm_env stored_world page_request))) = Some j
    \<and> decode_config j = Inr (stored_config\<lparr>ac_stream_signing_secret := []\<rparr>)"
proof -
  obtain s' w' where run: "h_update_config sample_server calm_env stored_world page_request
     = (json_answer 200 (JObj [(''ok'', JBool True)]), s', w')" using page_runs by blast
  have store: "sd_store (sv_deps sample_server)" by (simp add: sample_server_def new_server_def)
  have read: "fst (get_app_config calm_env stored_world) = Inr stored_config" by (simp add: stored_read stored_config_def)
  let ?d = "utf8_json (config_json (stored_config\<lparr>ac_api_key := []\<rparr>))"
  have body: "json_parse (aq_body page_request) = Some (form_body ((load_form ?d blank_form)\<lparr>fm_api_key := []\<rparr>))"
    unfolding page_form_loaded(1) by (rule page_parsed)
  have "to_valid_utf8 [] = []" "ap_status (json_answer 200 (JObj [(''ok'', JBool True)])) = 200"
    by (simp_all add: json_answer_def)
  from page_save_loses_secret_only [OF store read stored_settled get_config_parsed [OF store read] body read run this(2,1)]
  show ?thesis unfolding run by simp
qed

end
