(* ===== verification/PageRender.thy ===== *)
theory PageRender
  imports AdminPage "HOL-Library.Sublist"
begin

text \<open>
  The script of the admin page (internal/server/server.go) as it shows what the API answers: the
  results of a test search, the diagnostics and the preview of a request. The HTML is built
  from strings; what it may contain is checked with the states of a browser's tokenizer.

  An operation that throws is \<open>None\<close>, and the text of an exception that the browser raises is a parameter.
\<close>

section \<open>Values of the script\<close>

definition js_number_zero :: "gostring \<Rightarrow> bool" where
  "js_number_zero t = (case parse_float t of None \<Rightarrow> False | Some f \<Rightarrow> f_mant f = 0)"

definition js_number :: "gostring \<Rightarrow> gostring" where
  "js_number t =
     (case parse_float t of
        None \<Rightarrow> if has_prefix ''-'' t then ''-Infinity'' else ''Infinity''
      | Some f \<Rightarrow> if f_mant f = 0 then ''0'' else json_float f)"

fun js_string :: "json \<Rightarrow> gostring" where
  "js_string JNull = ''null''"
| "js_string (JBool b) = (if b then ''true'' else ''false'')"
| "js_string (JNum t) = js_number t"
| "js_string (JStr s) = s"
| "js_string (JArr xs) = join_with '','' (map (\<lambda>x. if x = JNull then [] else js_string x) xs)"
| "js_string (JObj ms) = ''[object Object]''"

text \<open>\<open>None\<close> is \<open>undefined\<close>.\<close>

definition js_truthy :: "json option \<Rightarrow> bool" where
  "js_truthy v =
     (case v of
        None \<Rightarrow> False
      | Some JNull \<Rightarrow> False
      | Some (JBool b) \<Rightarrow> b
      | Some (JNum t) \<Rightarrow> \<not> js_number_zero t
      | Some (JStr s) \<Rightarrow> s \<noteq> []
      | _ \<Rightarrow> True)"

definition js_else :: "json option \<Rightarrow> json \<Rightarrow> json" where
  "js_else v d = (if js_truthy v then the v else d)"

definition js_plain :: "json option \<Rightarrow> gostring" where
  "js_plain v = (case v of None \<Rightarrow> ''undefined'' | Some j \<Rightarrow> js_string j)"

text \<open>\<open>v?.k\<close>.\<close>

definition js_chain :: "json option \<Rightarrow> gostring \<Rightarrow> json option" where
  "js_chain v k = (case v of None \<Rightarrow> None | Some j \<Rightarrow> member j k)"

fun js_split :: "char \<Rightarrow> gostring \<Rightarrow> gostring list" where
  "js_split c [] = [[]]"
| "js_split c (x # xs) =
     (if x = c then [] # js_split c xs
      else case js_split c xs of [] \<Rightarrow> [[x]] | s # ss \<Rightarrow> (x # s) # ss)"

section \<open>HTML\<close>

definition esc_char :: "char \<Rightarrow> gostring" where
  "esc_char c =
     (if c = CHR ''&'' then ''&amp;'' else if c = CHR ''<'' then ''&lt;'' else if c = CHR ''>'' then ''&gt;''
      else if c = CHR 0x22 then ''&quot;'' else if c = CHR 0x27 then ''&#39;'' else [c])"

definition js_escape :: "gostring \<Rightarrow> gostring" where
  "js_escape s = concat (map esc_char s)"

definition esc :: "json option \<Rightarrow> gostring" where
  "esc v = js_escape (case v of None \<Rightarrow> [] | Some j \<Rightarrow> if j = JNull then [] else js_string j)"

definition page_badge :: "bool \<Rightarrow> gostring" where
  "page_badge ok = ''<span class=\"badge '' @ (if ok then ''ok'' else ''bad'') @ ''\">''
     @ (if ok then ''OK'' else ''Needs attention'') @ ''</span>''"

definition stat_card :: "gostring \<Rightarrow> json \<Rightarrow> bool \<Rightarrow> gostring" where
  "stat_card label v ok = ''<div class=\"diag\">'' @ page_badge ok @ ''<strong>'' @ js_escape label
     @ ''</strong><span>'' @ esc (Some v) @ ''</span></div>''"

definition info_item :: "gostring \<times> json \<Rightarrow> gostring" where
  "info_item p = ''<div class=\"diag\"><strong>'' @ js_escape (fst p) @ ''</strong><span>'' @ esc (Some (snd p))
     @ ''</span></div>''"

definition info_grid :: "(gostring \<times> json) list \<Rightarrow> gostring" where
  "info_grid items = concat (map info_item items)"

definition cover_html :: "json option \<Rightarrow> json \<Rightarrow> gostring" where
  "cover_html src label =
     (if js_truthy src
      then ''<img src=\"'' @ esc src @ ''\" alt=\"'' @ esc (Some label) @ ''\">''
      else ''<div class=\"cover-fallback\">BOOK</div>'')"

definition format_list :: "json option \<Rightarrow> gostring" where
  "format_list v =
     (case v of
        Some (JArr xs) \<Rightarrow> if xs = [] then ''Not provided''
          else join_with '', '' (map (\<lambda>x. if x = JNull then [] else js_string x) xs)
      | _ \<Rightarrow> ''Not provided'')"

definition error_html :: "gostring \<Rightarrow> gostring" where
  "error_html e = ''<div class=\"empty-state\">'' @ js_escape e @ ''</div>''"

section \<open>The results of a search\<close>

text \<open>A space, U+00B7 and a space.\<close>

definition middle_dot :: gostring where
  "middle_dot = [CHR '' '', CHR 0xC2, CHR 0xB7, CHR '' '']"

definition meta_part :: "json option \<Rightarrow> gostring" where
  "meta_part v = (if js_truthy v then middle_dot @ esc v else [])"

definition format_chip :: "json \<Rightarrow> gostring" where
  "format_chip f = ''<span class=\"chip\">'' @ esc (Some f) @ ''</span>''"

definition formats_of :: "json \<Rightarrow> json list" where
  "formats_of it = (case member it ''formats'' of Some (JArr fs) \<Rightarrow> fs | _ \<Rightarrow> [])"

definition result_card :: "json \<Rightarrow> gostring" where
  "result_card it =
     ''<article class=\"result-card\">''
     @ cover_html (member it ''cover_url'') (js_else (member it ''title'') (JStr ''Cover''))
     @ ''<div class=\"result-body\"><strong>'' @ esc (Some (js_else (member it ''title'') (JStr ''Untitled'')))
     @ ''</strong><span class=\"muted\">'' @ js_escape (format_list (member it ''authors''))
     @ ''</span><div class=\"meta-line\">'' @ esc (Some (js_else (member it ''source'') (JStr ''Unknown source'')))
     @ meta_part (member it ''year'') @ meta_part (member it ''language'')
     @ ''</div><div class=\"chip-row\">''
     @ concat (map format_chip (formats_of it))
     @ ''</div></div></article>''"

record search_view =
  sw_state :: gostring
  sw_summary :: gostring
  sw_results :: gostring

definition search_status :: "json \<Rightarrow> json" where
  "search_status d =
     js_else (member d ''message'') (JStr (if member d ''ok'' = Some (JBool False) then ''Failed'' else ''Completed''))"

definition search_items :: "json \<Rightarrow> json list" where
  "search_items d = (case member d ''items'' of Some (JArr xs) \<Rightarrow> xs | _ \<Rightarrow> [])"

definition render_search :: "json \<Rightarrow> gostring \<Rightarrow> search_view option" where
  "render_search d query =
     (let items = search_items d; n = itoa (int (length items))
      in if d = JNull \<or> JNull \<in> set items then None
         else Some \<lparr>
           sw_state = (if items \<noteq> [] then n @ '' results'' else ''No matches''),
           sw_summary = info_grid [(''Query'', JStr (js_or query ''foundation'')), (''Results shown'', JNum n),
             (''Search status'', search_status d)],
           sw_results = (if items \<noteq> [] then concat (map result_card items)
             else ''<div class=\"empty-state\">No books matched this search.</div>'')\<rparr>)"

text \<open>What \<open>fetch\<close> gives: the status, its text, the content type and the body.\<close>

record fetched =
  ft_status :: int
  ft_status_text :: gostring
  ft_type :: gostring
  ft_body :: gostring

definition read_maybe_json :: "fetched \<Rightarrow> json" where
  "read_maybe_json r =
     (let raw = JObj [(''error'', JStr (js_or (ft_body r) (ft_status_text r))), (''raw'', JStr (ft_body r))]
      in if sublist ''application/json'' (ft_type r)
         then if ft_body r = [] then JObj [] else case json_parse (ft_body r) of Some j \<Rightarrow> j | None \<Rightarrow> raw
         else raw)"

definition error_view :: "gostring \<Rightarrow> search_view" where
  "error_view e = \<lparr>sw_state = ''Error'', sw_summary = [], sw_results = error_html e\<rparr>"

definition thrown :: "gostring \<Rightarrow> gostring" where
  "thrown msg = (if msg = [] then ''Error'' else ''Error: '' @ msg)"

text \<open>The submit handler of the search form; \<open>te\<close> is the text of an exception of the browser.\<close>

definition search_page :: "gostring \<Rightarrow> fetched option \<Rightarrow> gostring \<Rightarrow> search_view" where
  "search_page te reply input =
     (case reply of
        None \<Rightarrow> error_view te
      | Some r \<Rightarrow>
          (let d = read_maybe_json r
           in if \<not> (200 \<le> ft_status r \<and> ft_status r \<le> 299)
              then if d = JNull then error_view te
                   else error_view (thrown (js_string (js_else (member d ''error'') (JStr (ft_status_text r)))))
              else case render_search d (js_or input ''foundation'') of None \<Rightarrow> error_view te | Some v \<Rightarrow> v))"

section \<open>The diagnostics\<close>

datatype shown = Shown_Html gostring | Shown_Text gostring

record strip_cell =
  sc_class :: gostring
  sc_title :: "gostring option"
  sc_label :: gostring
  sc_note :: gostring

text \<open>\<open>renderStrip\<close> sets texts and attributes of elements, it writes no HTML.\<close>

definition strip_cell :: "gostring \<Rightarrow> bool \<Rightarrow> json option \<Rightarrow> strip_cell" where
  "strip_cell label ok detail = \<lparr>sc_class = ''strip-cell '' @ (if ok then ''ok'' else ''bad''),
     sc_title = (if js_truthy detail then Some (js_plain detail) else None), sc_label = label,
     sc_note = (if ok then ''OK'' else ''Check'')\<rparr>"

record diagnostics_view =
  dv_ready :: gostring
  dv_status :: shown
  dv_reconcile :: gostring
  dv_strip :: "strip_cell list"

definition js_zero :: json where
  "js_zero = JNum ''0''"

definition is_js_zero :: "json \<Rightarrow> bool" where
  "is_js_zero v = (case v of JNum t \<Rightarrow> js_number_zero t | _ \<Rightarrow> False)"

definition diagnostics_ready :: "json \<Rightarrow> bool" where
  "diagnostics_ready d \<longleftrightarrow> js_truthy (member d ''configured'')
     \<and> js_truthy (js_chain (member d ''database'') ''ok'') \<and> js_truthy (js_chain (member d ''upstream'') ''ok'')"

definition render_diagnostics :: "json \<Rightarrow> diagnostics_view option" where
  "render_diagnostics d =
     (let db = member d ''database''; up = member d ''upstream''; conf = js_truthy (member d ''configured'');
          req = js_else (member d ''requests'') (JObj []);
          text = (\<lambda>v. js_else (js_chain v ''message'') (JStr ''not configured''));
          num = (\<lambda>k. js_else (member req k) js_zero); none = (\<lambda>k. is_js_zero (num k))
      in if d = JNull then None
         else Some \<lparr>
           dv_ready = (if diagnostics_ready d then ''Ready'' else ''Needs attention''),
           dv_status = Shown_Html (
             stat_card ''Configured'' (JStr (if conf then ''base_url, api_key, database_url applied''
                else ''missing required configuration'')) conf
             @ stat_card ''Database'' (text db) (js_truthy (js_chain db ''ok''))
             @ stat_card ''BookWarehouse'' (text up) (js_truthy (js_chain up ''ok''))
             @ stat_card ''Auto monitoring'' (JStr (js_plain (member d ''auto_monitoring_enabled''))) True),
           dv_reconcile =
             stat_card ''Total requests'' (num ''total'') True @ stat_card ''Active'' (num ''active'') True
             @ stat_card ''Failed'' (num ''failed'') (none ''failed'') @ stat_card ''Imported'' (num ''imported'') True
             @ stat_card ''With errors'' (num ''with_errors'') (none ''with_errors'')
             @ stat_card ''Unsubmitted'' (num ''unsubmitted'') (none ''unsubmitted'')
             @ stat_card ''Quality profile'' (js_else (member d ''request_quality_profile'') (JStr ''upstream default'')) True
             @ stat_card ''Base URL'' (js_else (member d ''base_url'') (JStr ''not set'')) (js_truthy (member d ''base_url'')),
           dv_strip = [
             strip_cell ''DB'' (js_truthy (js_chain db ''ok'')) (js_chain db ''message''),
             strip_cell ''Configured'' conf (Some (JStr ''base_url + api_key + database_url'')),
             strip_cell ''BookWarehouse'' (js_truthy (js_chain up ''ok'')) (js_chain up ''message''),
             strip_cell ''Auto monitor'' (js_truthy (member d ''auto_monitoring_enabled''))
               (Some (JStr (if js_truthy (member d ''auto_monitoring_enabled'') then ''enabled'' else ''disabled''))),
             strip_cell ''Failed reqs'' (none ''failed'') (Some (JStr (js_string (num ''failed'') @ '' failed'')))]\<rparr>)"

text \<open>\<open>load\<close>: \<open>r.json()\<close> throws for a text that is not JSON; the badge keeps its text then.\<close>

definition load_page :: "gostring \<Rightarrow> gostring \<Rightarrow> gostring option \<Rightarrow> diagnostics_view" where
  "load_page te badge body =
     (case Option.bind (Option.bind body json_parse) render_diagnostics of
        Some v \<Rightarrow> v
      | None \<Rightarrow> \<lparr>dv_ready = badge, dv_status = Shown_Text te, dv_reconcile = error_html te,
                 dv_strip = [strip_cell ''Diagnostics'' False (Some (JStr te))]\<rparr>)"

section \<open>The preview of a request\<close>

record preview =
  pv_title :: gostring
  pv_authors :: "gostring list"
  pv_isbn :: gostring
  pv_format :: gostring
  pv_auto :: bool

definition preview_payload :: "gostring \<Rightarrow> gostring \<Rightarrow> gostring \<Rightarrow> gostring \<Rightarrow> bool \<Rightarrow> preview" where
  "preview_payload title authors isbn fmt auto = \<lparr>pv_title = js_trim title,
     pv_authors = filter (\<lambda>s. s \<noteq> []) (map js_trim (js_split (CHR '','') authors)), pv_isbn = js_trim isbn,
     pv_format = js_trim fmt, pv_auto = auto\<rparr>"

definition render_preview :: "preview \<Rightarrow> gostring" where
  "render_preview p = info_grid
     [(''Title'', JStr (js_or (pv_title p) ''Not provided'')),
      (''Authors'', JStr (if pv_authors p \<noteq> [] then join_with '', '' (pv_authors p) else ''Not provided'')),
      (''ISBN'', JStr (js_or (pv_isbn p) ''Not provided'')),
      (''Format preference'', JStr (js_or (pv_format p) ''Upstream default'')),
      (''Auto-monitor'', JStr (if pv_auto p then ''Enabled'' else ''Disabled''))]"

section \<open>What is markup\<close>

text \<open>
  The states of a browser's tokenizer that matter for the script's HTML. Markup is what is left when the text
  between tags and the characters inside quoted attribute values are taken away: the tags, their
  attributes, and the quotes and brackets that end them.
\<close>

datatype html_state = In_Text | In_Tag | In_Double | In_Single

fun html_next :: "html_state \<Rightarrow> char \<Rightarrow> html_state" where
  "html_next In_Text c = (if c = CHR ''<'' then In_Tag else In_Text)"
| "html_next In_Tag c = (if c = CHR ''>'' then In_Text else if c = CHR 0x22 then In_Double
     else if c = CHR 0x27 then In_Single else In_Tag)"
| "html_next In_Double c = (if c = CHR 0x22 then In_Tag else In_Double)"
| "html_next In_Single c = (if c = CHR 0x27 then In_Tag else In_Single)"

definition is_markup :: "html_state \<Rightarrow> char \<Rightarrow> bool" where
  "is_markup st c \<longleftrightarrow> st = In_Tag \<or> html_next st c \<noteq> st"

fun html_end :: "html_state \<Rightarrow> gostring \<Rightarrow> html_state" where
  "html_end st [] = st"
| "html_end st (c # cs) = html_end (html_next st c) cs"

fun markup_from :: "html_state \<Rightarrow> gostring \<Rightarrow> gostring" where
  "markup_from st [] = []"
| "markup_from st (c # cs) = (if is_markup st c then [c] else []) @ markup_from (html_next st c) cs"

abbreviation markup :: "gostring \<Rightarrow> gostring" where
  "markup \<equiv> markup_from In_Text"

lemma html_end_append [simp]: "html_end st (a @ b) = html_end (html_end st a) b"
  by (induction a arbitrary: st) simp_all

lemma markup_append [simp]: "markup_from st (a @ b) = markup_from st a @ markup_from (html_end st a) b"
  by (induction a arbitrary: st) simp_all

text \<open>Escaped text is no markup, between tags and inside a double-quoted value.\<close>

definition inert :: "gostring \<Rightarrow> bool" where
  "inert s \<longleftrightarrow> list_all (\<lambda>c. c \<noteq> CHR ''<'' \<and> c \<noteq> CHR 0x22) s"

lemma inert_text:
  assumes "st = In_Text \<or> st = In_Double" and "inert s"
  shows "html_end st s = st \<and> markup_from st s = []"
  using assms(2)
proof (induction s)
  case (Cons c s)
  then have "html_next st c = st" using assms(1) by (auto simp: inert_def)
  then show ?case using Cons assms(1) by (auto simp: is_markup_def inert_def)
qed simp

lemma inert_esc_char: "inert (esc_char c)"
proof -
  have "inert ''&amp;''" "inert ''&lt;''" "inert ''&gt;''" "inert ''&quot;''" "inert ''&#39;''"
    by (simp_all add: inert_def)
  moreover have "c \<noteq> CHR ''<'' \<Longrightarrow> c \<noteq> CHR 0x22 \<Longrightarrow> inert [c]" by (simp add: inert_def)
  ultimately show ?thesis unfolding esc_char_def by (simp only: split: if_split) simp
qed

lemma esc_char_inert:
  "st = In_Text \<or> st = In_Double \<Longrightarrow> html_end st (esc_char c) = st \<and> markup_from st (esc_char c) = []"
  using inert_text inert_esc_char by blast

lemma js_escape_inert:
  assumes "st = In_Text \<or> st = In_Double"
  shows "html_end st (js_escape s) = st \<and> markup_from st (js_escape s) = []"
  using esc_char_inert [OF assms] by (induction s) (simp_all add: js_escape_def)

lemma esc_inert [simp]:
  "html_end In_Text (js_escape s) = In_Text" "markup (js_escape s) = []"
  "html_end In_Double (js_escape s) = In_Double" "markup_from In_Double (js_escape s) = []"
  "html_end In_Text (esc v) = In_Text" "markup (esc v) = []"
  "html_end In_Double (esc v) = In_Double" "markup_from In_Double (esc v) = []"
  using js_escape_inert by (simp_all add: esc_def)

text \<open>A piece of HTML that ends between tags; a list of them is made of their markup.\<close>

lemma pieces_end: "(\<And>x. x \<in> set xs \<Longrightarrow> html_end In_Text (f x) = In_Text) \<Longrightarrow> html_end In_Text (concat (map f xs)) = In_Text"
  by (induction xs) simp_all

lemma pieces_markup:
  "(\<And>x. x \<in> set xs \<Longrightarrow> html_end In_Text (f x) = In_Text) \<Longrightarrow>
   markup (concat (map f xs)) = concat (map (\<lambda>x. markup (f x)) xs)"
  by (induction xs) simp_all

lemma badge_end [simp]: "html_end In_Text (page_badge ok) = In_Text"
  by (simp add: page_badge_def)

definition card_markup :: "bool \<Rightarrow> gostring" where
  "card_markup ok = markup (stat_card [] JNull ok)"

lemma stat_card_markup [simp]:
  "html_end In_Text (stat_card label v ok) = In_Text" "markup (stat_card label v ok) = card_markup ok"
  by (simp_all add: stat_card_def card_markup_def)

definition item_markup :: gostring where
  "item_markup = markup (info_item ([], JNull))"

lemma info_item_markup [simp]:
  "html_end In_Text (info_item p) = In_Text" "markup (info_item p) = item_markup"
  by (simp_all add: info_item_def item_markup_def)

lemma info_grid_markup: "markup (info_grid items) = concat (replicate (length items) item_markup)"
  by (simp add: info_grid_def pieces_markup map_replicate_const)

lemma error_markup: "markup (error_html e) = markup (error_html [])"
  by (simp add: error_html_def)

lemma cover_ends:
  "html_end In_Text ''<img src=\"'' = In_Double" "html_end In_Double ''\" alt=\"'' = In_Double"
  "html_end In_Double ''\">'' = In_Text" "html_end In_Text ''<div class=\"cover-fallback\">BOOK</div>'' = In_Text"
  by simp_all

definition cover_markup :: "bool \<Rightarrow> gostring" where
  "cover_markup b =
     (if b then markup ''<img src=\"'' @ markup_from In_Double ''\" alt=\"'' @ markup_from In_Double ''\">''
      else markup ''<div class=\"cover-fallback\">BOOK</div>'')"

lemma cover_html_markup [simp]:
  "html_end In_Text (cover_html src label) = In_Text" "markup (cover_html src label) = cover_markup (js_truthy src)"
  unfolding cover_html_def cover_markup_def
  by (simp_all only: html_end_append markup_append cover_ends esc_inert append_Nil if_distrib [of markup]
      if_distrib [of "html_end In_Text"] if_cancel cong: if_cong)

lemma meta_part_inert [simp]: "html_end In_Text (meta_part v) = In_Text" "markup (meta_part v) = []"
proof -
  have "inert middle_dot" by (simp add: inert_def middle_dot_def)
  then have "html_end In_Text middle_dot = In_Text" "markup middle_dot = []" using inert_text by blast+
  then show "html_end In_Text (meta_part v) = In_Text" "markup (meta_part v) = []" by (simp_all add: meta_part_def)
qed

definition chip_markup :: gostring where
  "chip_markup = markup (format_chip JNull)"

lemma format_chip_markup [simp]: "html_end In_Text (format_chip f) = In_Text" "markup (format_chip f) = chip_markup"
  by (simp_all add: format_chip_def chip_markup_def)

lemma chips_markup [simp]:
  "html_end In_Text (concat (map format_chip fs)) = In_Text"
  "markup (concat (map format_chip fs)) = concat (replicate (length fs) chip_markup)"
  by (simp_all add: pieces_end pieces_markup map_replicate_const)

text \<open>The tags of a card, by whether it has a cover and by its number of formats.\<close>

definition result_markup :: "bool \<Rightarrow> nat \<Rightarrow> gostring" where
  "result_markup cover n =
     markup ''<article class=\"result-card\">'' @ cover_markup cover
     @ markup ''<div class=\"result-body\"><strong>'' @ markup ''</strong><span class=\"muted\">''
     @ markup ''</span><div class=\"meta-line\">'' @ markup ''</div><div class=\"chip-row\">''
     @ concat (replicate n chip_markup) @ markup ''</div></div></article>''"

lemma fixed_ends:
  "html_end In_Text ''<article class=\"result-card\">'' = In_Text"
  "html_end In_Text ''<div class=\"result-body\"><strong>'' = In_Text"
  "html_end In_Text ''</strong><span class=\"muted\">'' = In_Text"
  "html_end In_Text ''</span><div class=\"meta-line\">'' = In_Text"
  "html_end In_Text ''</div><div class=\"chip-row\">'' = In_Text"
  "html_end In_Text ''</div></div></article>'' = In_Text"
  by simp_all

lemma result_card_markup [simp]:
  "html_end In_Text (result_card it) = In_Text"
  "markup (result_card it) = result_markup (js_truthy (member it ''cover_url'')) (length (formats_of it))"
  unfolding result_card_def result_markup_def
  by (simp_all only: html_end_append markup_append fixed_ends cover_html_markup esc_inert meta_part_inert chips_markup
      append_Nil append_Nil2 append_assoc)

section \<open>The tags do not depend on the texts\<close>

text \<open>An answer of the same shape in which every text that is not empty is \<open>x\<close>.\<close>

fun mask_texts :: "json \<Rightarrow> json" where
  "mask_texts (JStr s) = JStr (if s = [] then [] else ''x'')"
| "mask_texts (JArr xs) = JArr (map mask_texts xs)"
| "mask_texts (JObj ms) = JObj (map (\<lambda>(k, v). (k, mask_texts v)) ms)"
| "mask_texts j = j"

lemma member_mask: "member (mask_texts j) k = map_option mask_texts (member j k)"
  by (cases j) (simp_all add: member_def rev_map map_of_map)

lemma truthy_mask [simp]: "js_truthy (map_option mask_texts v) = js_truthy v"
proof (cases v)
  case (Some j)
  then show ?thesis by (cases j) (simp_all add: js_truthy_def)
qed simp

lemma mask_constructors [simp]:
  "mask_texts j = JNull \<longleftrightarrow> j = JNull" "mask_texts j = JBool b \<longleftrightarrow> j = JBool b"
  "mask_texts j = JNum t \<longleftrightarrow> j = JNum t"
  by (cases j; simp)+

lemma search_items_mask: "search_items (mask_texts d) = map mask_texts (search_items d)"
proof (cases "member d ''items''")
  case (Some j)
  then show ?thesis by (cases j) (simp_all add: search_items_def member_mask)
qed (simp add: search_items_def member_mask)

lemma formats_of_mask: "length (formats_of (mask_texts it)) = length (formats_of it)"
proof (cases "member it ''formats''")
  case (Some j)
  then show ?thesis by (cases j) (simp_all add: formats_of_def member_mask)
qed (simp add: formats_of_def member_mask)

lemma chain_mask: "js_chain (map_option mask_texts v) k = map_option mask_texts (js_chain v k)"
  by (cases v) (simp_all add: js_chain_def member_mask)

lemma zero_mask [simp]: "is_js_zero (mask_texts j) = is_js_zero j"
  by (cases j) (simp_all add: is_js_zero_def)

lemma else_mask: "js_else (map_option mask_texts v) (mask_texts d) = mask_texts (js_else v d)"
  unfolding js_else_def truthy_mask by (cases v) (simp_all add: js_truthy_def)

definition shown_markup :: "shown \<Rightarrow> gostring" where
  "shown_markup v = (case v of Shown_Html h \<Rightarrow> markup h | Shown_Text t \<Rightarrow> [])"

definition search_tags :: "search_view \<Rightarrow> gostring \<times> gostring" where
  "search_tags v = (markup (sw_summary v), markup (sw_results v))"

definition diagnostics_tags :: "diagnostics_view \<Rightarrow> gostring \<times> gostring" where
  "diagnostics_tags v = (shown_markup (dv_status v), markup (dv_reconcile v))"

lemma search_tags_mask: "map_option search_tags (render_search d q) = map_option search_tags (render_search (mask_texts d) q2)"
proof -
  have "(JNull \<in> set (search_items (mask_texts d))) = (JNull \<in> set (search_items d))"
    by (simp add: search_items_mask image_iff eq_commute [of JNull])
  then show ?thesis
    by (simp add: render_search_def search_tags_def Let_def info_grid_markup pieces_markup search_items_mask
        member_mask formats_of_mask comp_def)
qed

lemma diagnostics_tags_mask:
  "map_option diagnostics_tags (render_diagnostics d) = map_option diagnostics_tags (render_diagnostics (mask_texts d))"
proof -
  have req: "js_else (map_option mask_texts v) (JObj []) = mask_texts (js_else v (JObj []))" for v
    using else_mask [of v "JObj []"] by simp
  have num: "is_js_zero (js_else (map_option mask_texts v) js_zero) = is_js_zero (js_else v js_zero)" for v
    by (metis else_mask js_zero_def mask_texts.simps(6) zero_mask)
  show ?thesis
    by (simp add: render_diagnostics_def diagnostics_tags_def shown_markup_def Let_def member_mask chain_mask req num)
qed

lemma number_zero_int [simp]: "js_number_zero (itoa i) \<longleftrightarrow> i = 0"
proof -
  let ?n = "nat (abs i)"
  have ds: "takeWhile is_digit (itoa_nat n) = itoa_nat n" "dropWhile is_digit (itoa_nat n) = []" for n
    using itoa_nat_digits [of n] takeWhile_digits [of "itoa_nat n" "[]"] by (auto simp: digits_def list_all_iff)
  have "literal_parts (itoa i) = (i < 0, itoa_nat ?n, [], 0)"
    by (auto simp: literal_parts_def itoa_def Let_def ds)
  then have "parse_float (itoa i) = f64_of_ratio (i < 0) ?n 1"
    by (simp add: parse_float_def dec_acc_itoa_nat f64_of_decimal_def)
  then show ?thesis
    using f64_of_int_zero [of "i < 0" ?n] by (auto simp: js_number_zero_def f64_of_ratio_def split: option.split)
qed

text \<open>A member of an answer as the script reads it.\<close>

lemma member_utf8:
  assumes "list_all (\<lambda>p. to_valid_utf8 (fst p) = fst p) ms"
  shows "member (utf8_json (JObj ms)) k = map_option utf8_json (member (JObj ms) k)"
proof -
  have "utf8_json (JObj ms) = JObj (map (\<lambda>(k, v). (k, utf8_json v)) ms)"
    using assms by (auto simp: list_all_iff)
  then show ?thesis by (simp del: utf8_json.simps add: member_def rev_map map_of_map)
qed

lemma diagnostics_keys:
  "to_valid_utf8 ''auto_monitoring_enabled'' = ''auto_monitoring_enabled''" "to_valid_utf8 ''base_url'' = ''base_url''"
  "to_valid_utf8 ''configured'' = ''configured''" "to_valid_utf8 ''database'' = ''database''"
  "to_valid_utf8 ''plugin_id'' = ''plugin_id''" "to_valid_utf8 ''requests'' = ''requests''"
  "to_valid_utf8 ''request_quality_profile'' = ''request_quality_profile''" "to_valid_utf8 ''role'' = ''role''"
  "to_valid_utf8 ''upstream'' = ''upstream''" "to_valid_utf8 ''message'' = ''message''" "to_valid_utf8 ''ok'' = ''ok''"
  "to_valid_utf8 ''total'' = ''total''" "to_valid_utf8 ''active'' = ''active''" "to_valid_utf8 ''failed'' = ''failed''"
  "to_valid_utf8 ''imported'' = ''imported''" "to_valid_utf8 ''with_errors'' = ''with_errors''"
  "to_valid_utf8 ''unsubmitted'' = ''unsubmitted''"
  by (rule to_valid_utf8_ascii, simp)+

lemma status_ok: "member (utf8_json (status_json ok msg)) ''ok'' = Some (JBool ok)"
  unfolding status_json_def by (subst member_utf8) (simp_all add: diagnostics_keys member_def)

lemma stats_failed: "member (utf8_json (stats_json x)) ''failed'' = Some (jint (st_failed x))"
  unfolding stats_json_def by (subst member_utf8) (simp_all add: diagnostics_keys member_def)

text \<open>The object that \<open>handleDiagnostics\<close> answers with, and its members as the script reads them.\<close>

definition found_json :: "server_deps \<Rightarrow> bool \<Rightarrow> gostring \<Rightarrow> bool \<Rightarrow> gostring \<Rightarrow> json \<Rightarrow> json" where
  "found_json dp up_ok up_msg db_ok db_msg st = JObj
     [(''auto_monitoring_enabled'', JBool (sd_auto dp)), (''base_url'', JStr (ac_base_url (sd_config dp))),
      (''configured'', JBool (provider_configured (sd_config dp))), (''database'', status_json db_ok db_msg),
      (''plugin_id'', JStr ''silo.bookwarehouse-ebook''),
      (''request_quality_profile'', JStr (ac_request_quality_profile (sd_config dp))), (''requests'', st),
      (''role'', JStr ''library_source_and_download_provider''), (''upstream'', status_json up_ok up_msg)]"

lemma found_parsed:
  assumes "probe_upstream (sd_client (sv_deps s)) env w = ((up_ok, up_msg), w1)"
    and "probe_database (sd_store (sv_deps s)) env w1 = ((db_ok, db_msg, st), w2)" and "json_ok st"
  shows "json_parse (ap_body (fst (h_diagnostics s env w)))
    = Some (utf8_json (found_json (sv_deps s) up_ok up_msg db_ok db_msg st))"
proof -
  have "fst (h_diagnostics s env w) = json_answer 200 (found_json (sv_deps s) up_ok up_msg db_ok db_msg st)"
    using assms(1,2) by (simp add: h_diagnostics_def found_json_def Let_def)
  moreover have "json_ok (found_json (sv_deps s) up_ok up_msg db_ok db_msg st)"
    using assms(3) by (simp add: found_json_def status_json_def)
  ultimately show ?thesis
    using json_parse_print_line by (simp only: json_answer_def newline_def api_response.simps)
qed

lemma found_members:
  fixes dp up_ok up_msg db_ok db_msg st
  defines "d \<equiv> utf8_json (found_json dp up_ok up_msg db_ok db_msg st)"
  shows "member d ''auto_monitoring_enabled'' = Some (JBool (sd_auto dp))"
    and "member d ''configured'' = Some (JBool (provider_configured (sd_config dp)))"
    and "js_chain (member d ''database'') ''ok'' = Some (JBool db_ok)"
    and "js_chain (member d ''upstream'') ''ok'' = Some (JBool up_ok)"
    and "member d ''requests'' = Some (utf8_json st)"
proof -
  have get: "member d k = map_option utf8_json (member (found_json dp up_ok up_msg db_ok db_msg st) k)" for k
    unfolding d_def found_json_def by (rule member_utf8) (simp add: diagnostics_keys)
  show "member d ''auto_monitoring_enabled'' = Some (JBool (sd_auto dp))"
    and "member d ''configured'' = Some (JBool (provider_configured (sd_config dp)))"
    and "js_chain (member d ''database'') ''ok'' = Some (JBool db_ok)"
    and "js_chain (member d ''upstream'') ''ok'' = Some (JBool up_ok)"
    and "member d ''requests'' = Some (utf8_json st)"
    unfolding get by (simp_all add: member_def [of "JObj _"] found_json_def js_chain_def status_ok)
qed

lemma load_page_parsed:
  "json_parse body = Some (utf8_json (found_json dp a b c e st)) \<Longrightarrow>
   load_page te badge (Some body) = the (render_diagnostics (utf8_json (found_json dp a b c e st)))"
  by (simp add: load_page_def) (simp add: render_diagnostics_def found_json_def Let_def)

lemma rendered_ready:
  "d \<noteq> JNull \<Longrightarrow> dv_ready (the (render_diagnostics d)) = (if diagnostics_ready d then ''Ready'' else ''Needs attention'')"
  by (simp only: render_diagnostics_def Let_def if_False option.sel diagnostics_view.simps)

lemma rendered_strip:
  assumes "d \<noteq> JNull"
  shows "map (\<lambda>c. (sc_label c, sc_note c)) (dv_strip (the (render_diagnostics d)))
    = map (\<lambda>(l, ok). (l, if ok then ''OK'' else ''Check''))
        [(''DB'', js_truthy (js_chain (member d ''database'') ''ok'')), (''Configured'', js_truthy (member d ''configured'')),
         (''BookWarehouse'', js_truthy (js_chain (member d ''upstream'') ''ok'')),
         (''Auto monitor'', js_truthy (member d ''auto_monitoring_enabled'')),
         (''Failed reqs'', is_js_zero (js_else (member (js_else (member d ''requests'') (JObj [])) ''failed'') js_zero))]"
  using assms
  by (simp only: render_diagnostics_def Let_def if_False option.sel diagnostics_view.simps strip_cell_def strip_cell.simps
      list.map prod.case)

lemma number_zero: "js_number_zero ''0''"
proof -
  have zero_char: "char_of (48 :: nat) = CHR ''0''" by code_simp
  have "itoa 0 = ''0''" by (simp add: itoa_def itoa_nat.simps digit_char_def zero_char)
  then show ?thesis using number_zero_int [of 0] by simp
qed

lemma no_failed_requests:
  assumes "st = JObj [] \<or> (\<exists>x. st = stats_json x)"
  shows "is_js_zero (js_else (member (utf8_json st) ''failed'') js_zero) \<longleftrightarrow> st \<notin> {stats_json x |x. st_failed x \<noteq> 0}"
  using assms
proof
  assume "st = JObj []"
  moreover have "JObj [] \<noteq> stats_json x" for x by (simp add: stats_json_def)
  ultimately show ?thesis by (auto simp: member_def js_else_def js_truthy_def js_zero_def is_js_zero_def number_zero)
next
  assume "\<exists>x. st = stats_json x"
  then obtain x where x: "st = stats_json x" ..
  have "stats_json x = stats_json y \<Longrightarrow> st_failed x = 0 \<longleftrightarrow> st_failed y = 0" for y
    using stats_failed [of x] stats_failed [of y] number_zero_int by (metis jint_def json.inject(2) option.inject)
  then have "st \<notin> {stats_json x |x. st_failed x \<noteq> 0} \<longleftrightarrow> st_failed x = 0" unfolding x by blast
  moreover have "is_js_zero (js_else (Some (jint i)) js_zero) \<longleftrightarrow> i = 0" for i
    by (simp add: js_else_def js_truthy_def is_js_zero_def js_zero_def jint_def number_zero)
  ultimately show ?thesis unfolding x stats_failed by simp
qed

section \<open>Properties\<close>

text \<open>
  C13. No text that the API answers, that the operator types or that an exception carries can become markup of
  the admin page: the tags and attributes that the script writes for an answer are those that it writes for the
  answer with every text masked, whatever the query, the fields of the preview and the message.
\<close>

theorem page_texts_are_no_markup:
  "map_option search_tags (render_search d q) = map_option search_tags (render_search (mask_texts d) q2)
   \<and> map_option diagnostics_tags (render_diagnostics d) = map_option diagnostics_tags (render_diagnostics (mask_texts d))
   \<and> markup (render_preview p) = markup (render_preview p2)
   \<and> markup (error_html e) = markup (error_html e2)"
  using error_markup [of e] error_markup [of e2] search_tags_mask diagnostics_tags_mask
  by (simp add: render_preview_def info_grid_markup)

text \<open>
  C19. What the admin page shows is what the diagnostics found, through the JSON of the answer and the truth values of
  the script: the badge says \<open>Ready\<close> exactly when the plugin is configured and both probes succeeded, and the strip is
  OK cell by cell. Only the last cell can mislead: it is OK also when the counts could not be read.
\<close>

theorem page_shows_diagnostics:
  "let ((up_ok, up_msg), w1) = probe_upstream (sd_client (sv_deps s)) env w;
       ((db_ok, db_msg, st), w2) = probe_database (sd_store (sv_deps s)) env w1;
       conf = provider_configured (sd_config (sv_deps s));
       v = load_page te badge (Some (ap_body (fst (h_diagnostics s env w))))
   in dv_ready v = (if conf \<and> db_ok \<and> up_ok then ''Ready'' else ''Needs attention'')
      \<and> map (\<lambda>c. (sc_label c, sc_note c)) (dv_strip v) = map (\<lambda>(l, ok). (l, if ok then ''OK'' else ''Check''))
          [(''DB'', db_ok), (''Configured'', conf), (''BookWarehouse'', up_ok),
           (''Auto monitor'', sd_auto (sv_deps s)), (''Failed reqs'', st \<notin> {stats_json x |x. st_failed x \<noteq> 0})]"
proof -
  obtain up_ok up_msg w1 where up: "probe_upstream (sd_client (sv_deps s)) env w = ((up_ok, up_msg), w1)"
    by (metis surj_pair)
  obtain db_ok db_msg st w2 where db: "probe_database (sd_store (sv_deps s)) env w1 = ((db_ok, db_msg, st), w2)"
    by (metis surj_pair)
  have st: "st = JObj [] \<or> (\<exists>x. st = stats_json x)"
    using db by (auto simp: probe_database_def Let_def case_prod_beta split: if_splits sum.splits)
  define d where "d = utf8_json (found_json (sv_deps s) up_ok up_msg db_ok db_msg st)"
  have page: "load_page te badge (Some (ap_body (fst (h_diagnostics s env w)))) = the (render_diagnostics d)"
    unfolding d_def using found_parsed [OF up db] st by (intro load_page_parsed) (auto simp: stats_json_def)
  note mem = found_members [of "sv_deps s" up_ok up_msg db_ok db_msg st, folded d_def]
  have req: "js_else (Some (utf8_json st)) (JObj []) = utf8_json st"
    using st by (auto simp: js_else_def js_truthy_def stats_json_def)
  note failed = no_failed_requests [OF st]
  have "d \<noteq> JNull" by (simp add: d_def found_json_def)
  then show ?thesis
    unfolding up db page Let_def prod.case rendered_ready [OF \<open>d \<noteq> JNull\<close>] rendered_strip [OF \<open>d \<noteq> JNull\<close>]
      diagnostics_ready_def mem req failed
    by (simp only: js_truthy_def option.case json.case conj_ac simp_thms)
qed

end
