(* ===== verification/ConfigRaces.thy ===== *)
theory ConfigRaces
  imports Plugin Answers
begin

text \<open>
  The configuration under concurrent calls: \<open>handleUpdateConfig\<close> of internal/server/server.go in its three
  atomic parts (the read of the row, the write of the row, the change of the server it runs on), mixed
  with those of other PATCH requests and with \<open>Configure\<close>, which replaces the server. No lock of
  the program covers the three parts together, so any order of them can happen.

  A PATCH keeps a reference to the server that received it: the servers are a list in the order in which
  \<open>Configure\<close> made them, the last one is current. A \<open>Configure\<close> is one step. The reads and writes of the fields of
  one server are not split further.
\<close>

section \<open>The parts of a PATCH\<close>

datatype patch =
    P_Start
  | P_Read app_config
  | P_Stored app_config
  | P_Done api_response

fun patch_part :: "env \<Rightarrow> api_request \<Rightarrow> patch \<Rightarrow> server \<Rightarrow> world \<Rightarrow> patch \<times> server \<times> world" where
  "patch_part env r P_Start s w =
     (if \<not> sd_store (sv_deps s) then (P_Done store_missing, s, w)
      else case get_app_config env w of
        (Inl e, w1) \<Rightarrow> (P_Done (json_answer 500 (error_json e)), s, w1)
      | (Inr cur, w1) \<Rightarrow>
          (case decode_patch (aq_body r) of
             None \<Rightarrow> (P_Done (json_answer 400 (error_json ''invalid JSON body'')), s, w1)
           | Some next0 \<Rightarrow> (P_Read (keep_key cur next0), s, w1)))"
| "patch_part env r (P_Read next) s w =
     (case update_app_config env w next of
        (Inl e, w1) \<Rightarrow> (P_Done (json_answer 400 (error_json e)), s, w1)
      | (Inr _, w1) \<Rightarrow> (P_Stored next, s, w1))"
| "patch_part env r (P_Stored next) s w = (P_Done (json_answer 200 (JObj [(''ok'', JBool True)])), apply_config next s, w)"
| "patch_part env r (P_Done a) s w = (P_Done a, s, w)"

section \<open>Interleavings\<close>

record race =
  ra_servers :: "server list"
  ra_patches :: "(nat \<times> api_request \<times> patch) list"
  ra_world :: world

definition current_server :: "race \<Rightarrow> server" where
  "current_server q = last (ra_servers q)"

text \<open>A PATCH arrives at the current server; the next part of a PATCH runs; a \<open>Configure\<close> runs.\<close>

datatype move = Arrive api_request | Part nat | Wire app_config

definition run_part :: "env \<Rightarrow> nat \<Rightarrow> race \<Rightarrow> race" where
  "run_part env i q =
     (if length (ra_patches q) \<le> i then q
      else case ra_patches q ! i of (k, r, p) \<Rightarrow>
        (case patch_part env r p (ra_servers q ! k) (ra_world q) of (p1, s1, w1) \<Rightarrow>
           q\<lparr>ra_servers := (ra_servers q)[k := s1], ra_patches := (ra_patches q)[i := (k, r, p1)],
             ra_world := w1\<rparr>))"

definition run_wire :: "host_setup \<Rightarrow> env \<Rightarrow> app_config \<Rightarrow> race \<Rightarrow> race" where
  "run_wire su env cfg q =
     (case on_configure su env cfg ((start_sys (ra_world q))\<lparr>sy_server := current_server q\<rparr>) of
        (Inl e, sys1) \<Rightarrow> q\<lparr>ra_world := sy_world sys1\<rparr>
      | (Inr _, sys1) \<Rightarrow> q\<lparr>ra_servers := ra_servers q @ [sy_server sys1], ra_world := sy_world sys1\<rparr>)"

fun race_move :: "host_setup \<Rightarrow> env \<Rightarrow> move \<Rightarrow> race \<Rightarrow> race" where
  "race_move su env (Arrive r) q =
     q\<lparr>ra_patches := ra_patches q @ [(length (ra_servers q) - 1, r, P_Start)]\<rparr>"
| "race_move su env (Part i) q = run_part env i q"
| "race_move su env (Wire cfg) q = run_wire su env cfg q"

definition run_moves :: "host_setup \<Rightarrow> env \<Rightarrow> move list \<Rightarrow> race \<Rightarrow> race" where
  "run_moves su env ms q = fold (race_move su env) ms q"

inductive races :: "host_setup \<Rightarrow> env \<Rightarrow> race \<Rightarrow> race \<Rightarrow> bool" for su env where
  here: "races su env q q"
| later: "races su env p q \<Longrightarrow> races su env p (race_move su env m q)"

lemma races_run: "races su env q (run_moves su env ms q)"
  by (induction ms rule: rev_induct) (auto simp: run_moves_def intro: races.intros)

section \<open>The parts make up the handler\<close>

definition patch_whole :: "env \<Rightarrow> api_request \<Rightarrow> server \<Rightarrow> world \<Rightarrow> patch \<times> server \<times> world" where
  "patch_whole env r s w =
     (let (p1, s1, w1) = patch_part env r P_Start s w; (p2, s2, w2) = patch_part env r p1 s1 w1
      in patch_part env r p2 s2 w2)"

text \<open>Run back to back, without another call between them, they give the answer, the server and the world of
  the handler.\<close>

lemma patch_whole_update:
  "patch_whole env r s w = (P_Done (fst (h_update_config s env w r)), snd (h_update_config s env w r))"
proof (cases "sd_store (sv_deps s)")
  case store: True
  obtain g w1 where g: "get_app_config env w = (g, w1)" by (metis surj_pair)
  show ?thesis
  proof (cases g)
    case (Inl e)
    then show ?thesis using store g by (simp add: patch_whole_def h_update_config_def)
  next
    case cur: (Inr cur)
    show ?thesis
    proof (cases "decode_patch (aq_body r)")
      case None
      then show ?thesis using store g cur by (simp add: patch_whole_def h_update_config_def)
    next
      case (Some next0)
      obtain u w2 where "update_app_config env w1 (keep_key cur next0) = (u, w2)" by (metis surj_pair)
      then show ?thesis
        using store g cur Some by (cases u) (simp_all add: patch_whole_def h_update_config_def)
    qed
  qed
qed (simp add: patch_whole_def h_update_config_def)

section \<open>The API key survives every interleaving\<close>

text \<open>A row that gives an API key to whoever reads it.\<close>

definition keyed :: "world \<Rightarrow> bool" where
  "keyed w \<longleftrightarrow> (\<exists>j. w_config w = Some j \<and> (\<forall>c. decode_config j = Inr c \<longrightarrow> ac_api_key c \<noteq> []))"

definition server_keyed :: "server \<Rightarrow> bool" where
  "server_keyed s \<longleftrightarrow> (\<forall>c. sd_client (sv_deps s) = Some c \<longrightarrow> c_key c \<noteq> [])"

fun patch_keyed :: "patch \<Rightarrow> bool" where
  "patch_keyed (P_Read c) = (ac_api_key c \<noteq> [])"
| "patch_keyed (P_Stored c) = (ac_api_key c \<noteq> [])"
| "patch_keyed _ = True"

text \<open>Every PATCH in flight has its server.\<close>

definition race_ok :: "race \<Rightarrow> bool" where
  "race_ok q \<longleftrightarrow> ra_servers q \<noteq> [] \<and> list_all (\<lambda>(k, r, p). k < length (ra_servers q)) (ra_patches q)"

definition race_keyed :: "race \<Rightarrow> bool" where
  "race_keyed q \<longleftrightarrow> keyed (ra_world q) \<and> list_all server_keyed (ra_servers q)
     \<and> list_all (\<lambda>(k, r, p). patch_keyed p) (ra_patches q)"

lemma keyed_same: "w_config w' = w_config w \<Longrightarrow> keyed w \<Longrightarrow> keyed w'"
  by (simp add: keyed_def)

lemma keyed_read:
  assumes "keyed w"
  shows "fst (get_app_config env w) = Inr c \<Longrightarrow> ac_api_key c \<noteq> []" and "keyed (snd (get_app_config env w))"
proof -
  obtain j where j: "w_config w = Some j" "\<forall>c. decode_config j = Inr c \<longrightarrow> ac_api_key c \<noteq> []"
    using assms by (auto simp: keyed_def)
  have g: "get_app_config env w = (case fst (db_query_row env w) of
      Inl e \<Rightarrow> (Inl (''get app_config: '' @ e), snd (db_query_row env w))
    | Inr _ \<Rightarrow> (decode_config j, snd (db_query_row env w)))" by (rule get_app_config_row [OF j(1)])
  show "ac_api_key c \<noteq> []" if "fst (get_app_config env w) = Inr c"
    using that j(2) by (auto simp: g split: sum.splits)
  have "w_config (snd (get_app_config env w)) = w_config w" by (simp add: g split: sum.split)
  then show "keyed (snd (get_app_config env w))" using assms by (rule keyed_same)
qed

lemma config_exec_config:
  "w_config (snd (config_exec env ok f w)) = w_config w \<or> w_config (snd (config_exec env ok f w)) = Some (f (w_config w))"
  by (auto simp: config_exec_def Let_def split: db_outcome.split)

lemma keyed_update: "keyed w \<Longrightarrow> ac_api_key c \<noteq> [] \<Longrightarrow> keyed (snd (update_app_config env w c))"
proof -
  assume k: "keyed w" "ac_api_key c \<noteq> []"
  let ?c = "default_cover (c\<lparr>ac_database_url := []\<rparr>)"
  have "decode_config (jsonb (config_json ?c)) = Inr (utf8_config ?c)"
    by (rule decode_config_jsonb) (simp_all add: default_cover_def)
  moreover have "ac_api_key (utf8_config ?c) \<noteq> []" using k(2) by (simp add: utf8_config_def default_cover_def)
  ultimately show "keyed (snd (update_app_config env w c))"
    using k(1) config_exec_config [of env "jsonb_ok (config_json ?c)" "\<lambda>_. jsonb (config_json ?c)" w]
    unfolding update_app_config_snd keyed_def by auto
qed

lemma keep_key_keyed: "ac_api_key cur \<noteq> [] \<Longrightarrow> ac_api_key (keep_key cur c) \<noteq> []"
  by (simp add: keep_key_def)

lemma apply_config_keyed: "ac_api_key c \<noteq> [] \<Longrightarrow> server_keyed (apply_config c s)"
  by (auto simp: server_keyed_def apply_config_def Let_def set_default_cover_size_def reconfigure_def)

lemma part_keyed:
  assumes "patch_part env r p s w = (p1, s1, w1)" and "patch_keyed p" "server_keyed s" "keyed w"
  shows "patch_keyed p1 \<and> server_keyed s1 \<and> keyed w1"
proof (cases p)
  case P_Start
  obtain g v where g: "get_app_config env w = (g, v)" by (metis surj_pair)
  have "keyed v" "\<And>c. g = Inr c \<Longrightarrow> ac_api_key c \<noteq> []"
    using keyed_read [OF assms(4), of env] g by auto
  then show ?thesis
    using assms g P_Start keep_key_keyed by (auto split: if_splits sum.splits option.splits)
next
  case (P_Read c)
  then show ?thesis
    using assms keyed_update [OF assms(4), of c env] by (auto split: sum.splits prod.splits)
next
  case (P_Stored c)
  then show ?thesis using assms apply_config_keyed by auto
qed (use assms in auto)

lemma import_keyed:
  assumes "keyed w"
  shows "keyed (snd (import_legacy env w cfg))"
    and "fst (import_legacy env w cfg) = Inr app \<Longrightarrow> ac_api_key app \<noteq> []"
proof -
  have blank: "ac_api_key default_app_config = []" by (simp add: default_app_config_def zero_config_def)
  have "keyed (snd (import_legacy env w cfg))
    \<and> (\<forall>app. fst (import_legacy env w cfg) = Inr app \<longrightarrow> ac_api_key app \<noteq> [])"
    by (cases rule: import_legacy_cases [of env w cfg]) (use keyed_read [OF assms, of env] blank in auto)
  then show "keyed (snd (import_legacy env w cfg))"
    and "fst (import_legacy env w cfg) = Inr app \<Longrightarrow> ac_api_key app \<noteq> []" by auto
qed

lemma wired_server_keyed: "ac_api_key app \<noteq> [] \<Longrightarrow> server_keyed (wired_server dsn app)"
  by (simp add: server_keyed_def wired_server_def Let_def new_server_def new_client_def set_default_cover_size_def)

lemma migrate_keyed: "keyed w \<Longrightarrow> keyed (snd (migrate_run su dsn w))"
  using migrate_run_config [of w _ su dsn] by (auto simp: keyed_def)

lemma on_configure_keyed:
  assumes "keyed (sy_world sys)"
  shows "keyed (sy_world (snd (on_configure su env cfg sys)))"
    and "on_configure su env cfg sys = (Inr u, sys1) \<Longrightarrow> server_keyed (sy_server sys1)"
proof -
  obtain r w1 where m: "migrate_run su (ac_database_url cfg) (sy_world sys) = (r, w1)" by (metis surj_pair)
  have w1: "keyed w1" using migrate_keyed [OF assms, of su "ac_database_url cfg"] m by simp
  obtain g w2 where i: "import_legacy env w1 cfg = (g, w2)" by (metis surj_pair)
  have w2: "keyed w2" "\<And>app. g = Inr app \<Longrightarrow> ac_api_key app \<noteq> []" using import_keyed [OF w1, of env cfg] i by auto
  show "keyed (sy_world (snd (on_configure su env cfg sys)))"
    using assms w1 w2 by (simp add: on_configure_def m i split: sum.split)
  show "server_keyed (sy_server sys1)" if "on_configure su env cfg sys = (Inr u, sys1)"
    using that w2 wired_server_keyed by (auto simp: on_configure_def m i split: sum.splits)
qed

lemma part_cases:
  assumes "race_ok q"
  obtains (none) "run_part env i q = q"
  | (some) k r p p1 s1 w1 where "(k, r, p) \<in> set (ra_patches q)" "k < length (ra_servers q)" "i < length (ra_patches q)"
      "patch_part env r p (ra_servers q ! k) (ra_world q) = (p1, s1, w1)"
      "run_part env i q = q\<lparr>ra_servers := (ra_servers q)[k := s1], ra_patches := (ra_patches q)[i := (k, r, p1)],
         ra_world := w1\<rparr>"
proof (cases "i < length (ra_patches q)")
  case True
  obtain k r p where t: "ra_patches q ! i = (k, r, p)" by (metis surj_pair)
  obtain p1 s1 w1 where run: "patch_part env r p (ra_servers q ! k) (ra_world q) = (p1, s1, w1)" by (metis surj_pair)
  have mem: "(k, r, p) \<in> set (ra_patches q)" using nth_mem [OF True] t by simp
  moreover have "k < length (ra_servers q)" using assms mem by (auto simp: race_ok_def list_all_iff)
  ultimately show ?thesis using some [of k r p p1 s1 w1] True t run by (simp add: run_part_def)
qed (use none in \<open>simp add: run_part_def\<close>)

lemma list_all_updated: "list_all P xs \<Longrightarrow> P x \<Longrightarrow> list_all P (xs[i := x])"
  by (auto simp: list_all_iff dest!: set_update_subset_insert [THEN subsetD])

lemma move_ok: "race_ok q \<Longrightarrow> race_ok (race_move su env m q)"
proof (cases m)
  case (Part i)
  assume ok: "race_ok q"
  show ?thesis
    by (rule part_cases [OF ok, of env i]) (use ok in \<open>auto simp: Part race_ok_def intro: list_all_updated\<close>)
next
  case (Wire cfg)
  assume "race_ok q"
  then show ?thesis
    by (auto simp: Wire run_wire_def race_ok_def list_all_iff case_prod_beta split: sum.split)
qed (auto simp: race_ok_def)

lemma move_keyed:
  assumes "race_keyed q" and "race_ok q"
  shows "race_keyed (race_move su env m q)"
proof (cases m)
  case (Arrive r)
  then show ?thesis using assms by (simp add: race_keyed_def)
next
  case (Part i)
  show ?thesis
  proof (cases rule: part_cases [OF assms(2), of env i])
    case (2 k r p p1 s1 w1)
    have "patch_keyed p" "server_keyed (ra_servers q ! k)" "keyed (ra_world q)"
      using assms(1) 2(1,2) by (auto simp: race_keyed_def list_all_iff)
    from part_keyed [OF 2(4) this] show ?thesis
      using assms(1) by (simp add: Part 2(5) race_keyed_def list_all_updated)
  qed (use assms in \<open>simp add: Part\<close>)
next
  case (Wire cfg)
  let ?sys = "(start_sys (ra_world q))\<lparr>sy_server := current_server q\<rparr>"
  have w: "keyed (sy_world ?sys)" using assms by (simp add: race_keyed_def start_sys_def)
  obtain r sys1 where run: "on_configure su env cfg ?sys = (r, sys1)" by (metis surj_pair)
  show ?thesis
    using assms on_configure_keyed(1) [OF w, of su env cfg] on_configure_keyed(2) [OF w, of su env cfg _ sys1] run
    by (cases r) (simp_all add: Wire run_wire_def race_keyed_def)
qed


lemma races_keyed: "races su env q q' \<Longrightarrow> race_ok q \<Longrightarrow> race_keyed q \<Longrightarrow> race_ok q' \<and> race_keyed q'"
  by (induction rule: races.induct) (simp_all add: move_ok move_keyed)

section \<open>Races with a working database\<close>

definition db_works :: "env \<Rightarrow> bool" where
  "db_works env \<longleftrightarrow> (\<forall>n. e_db env n = Db_Ok)"

text \<open>A configuration that Postgres accepts, and the row it becomes.\<close>

definition storable :: "app_config \<Rightarrow> bool" where
  "storable c \<longleftrightarrow> jsonb_ok (config_json (default_cover (c\<lparr>ac_database_url := []\<rparr>)))"

definition row_of :: "app_config \<Rightarrow> json" where
  "row_of c = jsonb (config_json (default_cover (c\<lparr>ac_database_url := []\<rparr>)))"

definition stored_in :: "world \<Rightarrow> app_config res" where
  "stored_in w = (case w_config w of None \<Rightarrow> Inl [] | Some j \<Rightarrow> decode_config j)"

lemma read_works:
  "db_works env \<Longrightarrow> w_config w = Some j \<Longrightarrow> get_app_config env w = (decode_config j, w\<lparr>w_db := Suc (w_db w)\<rparr>)"
  by (simp add: get_app_config_row db_query_row_def db_works_def)

lemma update_works:
  "db_works env \<Longrightarrow> storable c \<Longrightarrow>
   update_app_config env w c = (Inr (), w\<lparr>w_db := Suc (w_db w), w_config := Some (row_of c)\<rparr>)"
  by (simp add: update_app_config_def config_exec_def db_works_def storable_def row_of_def Let_def)

lemma decode_row: "decode_config (row_of c) = Inr (utf8_config (default_cover (c\<lparr>ac_database_url := []\<rparr>)))"
  unfolding row_of_def by (rule decode_config_jsonb) (simp_all add: default_cover_def)

lemma row_fields [simp]:
  "ac_api_key (utf8_config (default_cover (c\<lparr>ac_database_url := []\<rparr>))) = to_valid_utf8 (ac_api_key c)"
  "ac_base_url (utf8_config (default_cover (c\<lparr>ac_database_url := []\<rparr>))) = to_valid_utf8 (ac_base_url c)"
  by (simp_all add: utf8_config_def default_cover_def)

definition ok_answer :: api_response where
  "ok_answer = json_answer 200 (JObj [(''ok'', JBool True)])"

text \<open>Two requests at one server, both read before either writes.\<close>

definition two_patches :: "server \<Rightarrow> world \<Rightarrow> race" where
  "two_patches s w = \<lparr>ra_servers = [s], ra_patches = [], ra_world = w\<rparr>"

definition overlap :: "api_request \<Rightarrow> api_request \<Rightarrow> move list" where
  "overlap r1 r2 = [Arrive r1, Arrive r2, Part 0, Part 1, Part 0, Part 1, Part 1, Part 0]"

definition in_turn :: "api_request \<Rightarrow> api_request \<Rightarrow> move list" where
  "in_turn r1 r2 = [Arrive r1, Arrive r2, Part 0, Part 0, Part 0, Part 1, Part 1, Part 1]"

lemmas race_eval = run_moves_def two_patches_def run_part_def keep_key_def stored_in_def

lemma apply_config_client:
  "sd_client (sv_deps s) = Some c \<Longrightarrow>
   map_option c_key (sd_client (sv_deps (apply_config n s))) = Some (ac_api_key n)"
  by (simp add: apply_config_def Let_def set_default_cover_size_def reconfigure_def)

section \<open>Properties\<close>

text \<open>
  C9. No interleaving blanks the API key. From a state in which the row and the clients of all servers have a key,
  any number of concurrent PATCH requests and \<open>Configure\<close> calls, in any order of their parts and with any
  failures of the database, lead to states in which the row and the clients still have one.
\<close>

theorem race_keeps_key:
  assumes "races su env q q'" and "ra_servers q \<noteq> []" and "ra_patches q = []" and "keyed (ra_world q)"
    and "\<forall>s \<in> set (ra_servers q). server_keyed s"
  shows "keyed (ra_world q') \<and> (\<forall>s \<in> set (ra_servers q'). server_keyed s)"
proof -
  have "race_ok q" "race_keyed q" using assms(2-5) by (simp_all add: race_ok_def race_keyed_def list_all_iff)
  then have "race_keyed q'" using races_keyed [OF assms(1)] by blast
  then show ?thesis by (simp add: race_keyed_def list_all_iff)
qed


text \<open>
  C10. A rotation of the API key can be lost. Of two saves at one server, one sets a new key and the other leaves the
  key blank (which keeps it). One after the other, in either order of the two, the row ends with the new key. But
  when both read before either writes, both are answered 200 and the row keeps the old key, while the running client uses the
  new one until the next \<open>Configure\<close>.
\<close>

theorem race_loses_rotation:
  assumes "db_works env" and "sd_store (sv_deps s)" and "sd_client (sv_deps s) = Some c"
    and "w_config w = Some j" and "decode_config j = Inr cur"
    and "decode_patch (aq_body r1) = Some n1" and "ac_api_key n1 \<noteq> []"
    and "decode_patch (aq_body r2) = Some n2" and "ac_api_key n2 = []"
    and "storable n1" and "\<forall>k \<in> {ac_api_key cur, to_valid_utf8 (ac_api_key n1)}. storable (n2\<lparr>ac_api_key := k\<rparr>)"
  shows "let q = run_moves su env (overlap r1 r2) (two_patches s w)
    in map (\<lambda>(k, r, p). p) (ra_patches q) = [P_Done ok_answer, P_Done ok_answer]
      \<and> map_sum id ac_api_key (stored_in (ra_world q)) = Inr (to_valid_utf8 (ac_api_key cur))
      \<and> map_option c_key (sd_client (sv_deps (current_server q))) = Some (ac_api_key n1)
      \<and> (\<forall>ms \<in> {in_turn r1 r2, in_turn r2 r1}. map_sum id ac_api_key (stored_in (ra_world (run_moves su env ms (two_patches s w))))
            = Inr (to_valid_utf8 (ac_api_key n1)))"
proof -
  note works = read_works [OF assms(1)] update_works [OF assms(1)]
  note env = assms(2,4-6,8-11) decode_row ok_answer_def [symmetric]
  let ?n2 = "n2\<lparr>ac_api_key := ac_api_key cur\<rparr>"
  have st: "storable ?n2" "storable (n2\<lparr>ac_api_key := to_valid_utf8 (ac_api_key n1)\<rparr>)" using assms(11) by simp_all
  obtain w1 where over: "run_moves su env (overlap r1 r2) (two_patches s w)
      = \<lparr>ra_servers = [apply_config n1 (apply_config ?n2 s)],
         ra_patches = [(0, r1, P_Done ok_answer), (0, r2, P_Done ok_answer)], ra_world = w1\<rparr>"
    "w_config w1 = Some (row_of ?n2)"
    using assms(7) by (simp add: race_eval overlap_def works env st)
  have seq1: "w_config (ra_world (run_moves su env (in_turn r1 r2) (two_patches s w)))
      = Some (row_of (n2\<lparr>ac_api_key := to_valid_utf8 (ac_api_key n1)\<rparr>))"
    using assms(7) by (simp add: race_eval in_turn_def works env st)
  have seq2: "w_config (ra_world (run_moves su env (in_turn r2 r1) (two_patches s w))) = Some (row_of n1)"
    using assms(7) by (simp add: race_eval in_turn_def works env st)
  obtain c1 where "sd_client (sv_deps (apply_config ?n2 s)) = Some c1"
    using apply_config_client [OF assms(3), of ?n2] by auto
  then have "map_option c_key (sd_client (sv_deps (apply_config n1 (apply_config ?n2 s)))) = Some (ac_api_key n1)"
    by (rule apply_config_client)
  then show ?thesis
    using seq1 seq2 by (simp add: over current_server_def Let_def stored_in_def decode_row)
qed


text \<open>Two saves of the form, one of them with a new key.\<close>

definition rotate_config :: app_config where
  "rotate_config = save_config\<lparr>ac_api_key := ''k2''\<rparr>"

definition rotate_request :: api_request where
  "rotate_request = (sample_query [])\<lparr>aq_body := json_print (config_json rotate_config) @ newline\<rparr>"

lemma sample_texts: "to_valid_utf8 ''k2'' = ''k2''" "to_valid_utf8 ''key'' = ''key''" "to_valid_utf8 ''http://b'' = ''http://b''"
    "to_valid_utf8 ''medium'' = ''medium''" "to_valid_utf8 ''http://bw.local'' = ''http://bw.local''"
    "to_valid_utf8 ''s!'' = ''s!''"
  by (simp_all add: to_valid_utf8_ascii)

lemma rotate_decoded: "decode_patch (aq_body rotate_request) = Some rotate_config"
  by (simp add: rotate_request_def decode_config_json)
    (simp add: utf8_config_def rotate_config_def save_config_def zero_config_def sample_texts)

lemma sample_storable: "CHR 0x00 \<notin> set k \<Longrightarrow> storable (save_config\<lparr>ac_api_key := k\<rparr>)"
  by (simp add: storable_def default_cover_def save_config_def zero_config_def config_json_def omit_def)

lemma sample_race:
  "db_works calm_env" "w_config stored_world = Some (jsonb (config_json (sample_config\<lparr>ac_database_url := [],
     ac_default_cover_size := ''medium''\<rparr>)))" "sd_store (sv_deps sample_server)"
  "sd_client (sv_deps sample_server) = Some sample_client"
  by (simp add: db_works_def calm_env_def, simp add: stored_world_def sample_stored,
      simp_all add: sample_server_def new_server_def)

theorem race_loses_rotation_witness:
  "let q = run_moves (os_setup sample_outside) calm_env (overlap rotate_request save_request) (two_patches sample_server stored_world)
    in map_sum id ac_api_key (stored_in (ra_world q)) = Inr ''key''
      \<and> map_option c_key (sd_client (sv_deps (current_server q))) = Some ''k2''"
proof -
  let ?cur = "utf8_config (sample_config\<lparr>ac_database_url := [], ac_default_cover_size := ''medium''\<rparr>)"
  have "ac_api_key rotate_config \<noteq> []" "ac_api_key save_config = []" "decode_patch (aq_body save_request) = Some save_config"
    by (simp_all add: rotate_config_def save_config_def zero_config_def save_request_def save_decoded)
  moreover have "storable rotate_config"
    "\<forall>k \<in> {ac_api_key ?cur, to_valid_utf8 (ac_api_key rotate_config)}. storable (save_config\<lparr>ac_api_key := k\<rparr>)"
    by (simp_all add: rotate_config_def sample_storable utf8_config_def sample_config_def sample_texts)
  ultimately show ?thesis
    using race_loses_rotation [OF sample_race(1,3,4,2) sample_decoded rotate_decoded, of save_request save_config
        "os_setup sample_outside"]
    by (simp add: Let_def rotate_config_def utf8_config_def sample_config_def sample_texts)
qed

theorem race_keeps_key_witness:
  "keyed (ra_world (run_moves (os_setup sample_outside) calm_env (overlap rotate_request save_request)
     (two_patches sample_server stored_world)))"
proof -
  have "server_keyed sample_server" using sample_race(4) by (simp add: server_keyed_def sample_client_def)
  moreover have "keyed stored_world"
    unfolding keyed_def sample_race(2) using sample_decoded by (simp add: utf8_config_def sample_config_def)
  moreover have q: "ra_servers (two_patches sample_server stored_world) = [sample_server]"
    "ra_patches (two_patches sample_server stored_world) = []" "ra_world (two_patches sample_server stored_world) = stored_world"
    by (simp_all add: two_patches_def)
  ultimately have "keyed (ra_world (two_patches sample_server stored_world))"
    "\<forall>s \<in> set (ra_servers (two_patches sample_server stored_world)). server_keyed s"
    "ra_servers (two_patches sample_server stored_world) \<noteq> []" by simp_all
  from race_keeps_key [OF races_run this(3) q(2) this(1,2)] show ?thesis ..
qed

text \<open>
  C11. A \<open>Configure\<close> during a PATCH undoes it. When the PATCH has read the row, \<open>Configure\<close> builds a server from
  the row of before; the PATCH then writes the row and changes the server that received it, which is no longer the
  current one. It is answered 200 and the row has the new base URL, but the routes, the consumer
  and the reconciler go on with the old one.
\<close>

theorem patch_lost_by_configure:
  assumes "db_works env" and "sd_store (sv_deps s)"
    and "w_config w = Some j" and "decode_config j = Inr cur" and "cur \<noteq> default_app_config"
    and "decode_patch (aq_body r) = Some n" and "storable (keep_key cur n)"
    and "su_parse su (ac_database_url cfg) = Inr m" and "su_pool su (max_conns m) = Inr ()"
    and "su_init su (driver_dsn (ac_database_url cfg)) = Inr ()" and "\<forall>i. su_up su i = Up_No_Change"
  shows "let q = run_moves su env [Arrive r, Part 0, Wire cfg, Part 0, Part 0] (two_patches s w)
    in map (\<lambda>(k, r, p). p) (ra_patches q) = [P_Done ok_answer]
      \<and> map_sum id ac_base_url (stored_in (ra_world q)) = Inr (to_valid_utf8 (ac_base_url n))
      \<and> map_option c_base (sd_client (sv_deps (current_server q))) = Some (trim_right (CHR ''/'') (ac_base_url cur))"
proof -
  note works = read_works [OF assms(1)] update_works [OF assms(1)]
  have imp: "import_legacy env v cfg = (Inr cur, v\<lparr>w_db := Suc (w_db v)\<rparr>)" if "w_config v = Some j" for v
    using assms(4,5) that by (simp add: import_legacy_def works)
  have base: "ac_base_url (keep_key cur n) = ac_base_url n" by (simp add: keep_key_def)
  have "sd_client (sv_deps (wired_server (ac_database_url cfg) cur)) = Some (set_default_cover_size (ac_default_cover_size cur)
      (new_client (ac_base_url cur) (ac_api_key cur)))"
    by (simp add: wired_server_def Let_def new_server_def)
  then show ?thesis
    using assms(2-4,6-11)
    by (simp add: run_moves_def two_patches_def run_part_def run_wire_def works on_configure_def migrate_run_def imp
        start_sys_def current_server_def Let_def stored_in_def decode_row ok_answer_def base new_client_def
        set_default_cover_size_def)
qed

definition sample_wire :: app_config where
  "sample_wire = zero_config\<lparr>ac_database_url := ''postgres://db''\<rparr>"

theorem patch_lost_by_configure_witness:
  "let q = run_moves (os_setup sample_outside) calm_env [Arrive save_request, Part 0, Wire sample_wire, Part 0, Part 0]
        (two_patches sample_server stored_world)
    in map_sum id ac_base_url (stored_in (ra_world q)) = Inr ''http://b''
      \<and> map_option c_base (sd_client (sv_deps (current_server q))) = Some ''http://bw.local''"
proof -
  let ?cur = "utf8_config (sample_config\<lparr>ac_database_url := [], ac_default_cover_size := ''medium''\<rparr>)"
  have "ac_api_key ?cur \<noteq> ac_api_key default_app_config"
    by (simp add: utf8_config_def sample_config_def default_app_config_def zero_config_def)
  then have ne: "?cur \<noteq> default_app_config" by auto
  have dec: "decode_patch (aq_body save_request) = Some save_config" by (simp add: save_request_def save_decoded)
  have "keep_key ?cur save_config = save_config\<lparr>ac_api_key := ''key''\<rparr>"
    by (simp add: keep_key_def save_config_def zero_config_def utf8_config_def sample_config_def sample_texts)
  then have st: "storable (keep_key ?cur save_config)" by (simp add: sample_storable)
  have ready: "su_parse (os_setup sample_outside) (ac_database_url sample_wire) = Inr 4"
    "su_pool (os_setup sample_outside) (max_conns 4) = Inr ()"
    "su_init (os_setup sample_outside) (driver_dsn (ac_database_url sample_wire)) = Inr ()"
    "\<forall>i. su_up (os_setup sample_outside) i = Up_No_Change"
    by (simp_all add: sample_outside_def)
  have base: "to_valid_utf8 (ac_base_url save_config) = ''http://b''"
    "trim_right (CHR ''/'') (ac_base_url ?cur) = ''http://bw.local''"
    by (simp_all add: save_config_def utf8_config_def sample_config_def sample_texts trim_right_def)
  from patch_lost_by_configure [OF sample_race(1,3,2) sample_decoded ne dec st ready]
  show ?thesis unfolding base Let_def by blast
qed

end
