(* ===== verification/Pools.thy ===== *)
theory Pools
  imports Plugin "HOL-Library.Multiset"
begin

text \<open>
  The callback of \<open>Configure\<close> in cmd/silo-plugin-bookwarehouse-ebook/main.go, one effect after the other, with the
  database pools it opens and closes. Nothing serialises the calls of \<open>Configure\<close>
  (internal/runtime/runtime.go runs the callback outside of its lock), so two callbacks can mix; each store to
  one of the shared pointers (HTTP handler, consumer, reconciler, pool) is atomic.

  A pool is its number in the order of opening. The server, the consumer and the reconciler each remember the
  pool under their store.
\<close>

section \<open>The callback in parts\<close>

datatype callback =
    K_Start
  | K_Opened nat
  | K_Migrated nat
  | K_Ready nat app_config
  | K_Served nat app_config
  | K_Consuming nat app_config
  | K_Reconciling nat
  | K_Swapped "nat option"
  | K_Returned "unit res"

record wiring =
  wi_http :: "server \<times> nat option"
  wi_consumer :: "(consumer_deps \<times> nat) option"
  wi_reconciler :: "(reconciler_deps \<times> nat) option"
  wi_pool :: "nat option"
  wi_open :: "bool list"
  wi_world :: world
  wi_calls :: "(app_config \<times> callback) list"

definition start_wiring :: "world \<Rightarrow> wiring" where
  "start_wiring w = \<lparr>wi_http = (new_server empty_deps, None), wi_consumer = None, wi_reconciler = None,
     wi_pool = None, wi_open = [], wi_world = w, wi_calls = []\<rparr>"

definition open_pool :: "wiring \<Rightarrow> wiring" where
  "open_pool x = x\<lparr>wi_open := wi_open x @ [True]\<rparr>"

definition close_pool :: "nat \<Rightarrow> wiring \<Rightarrow> wiring" where
  "close_pool p x = x\<lparr>wi_open := (wi_open x)[p := False]\<rparr>"

definition wired_client :: "gostring \<Rightarrow> app_config \<Rightarrow> client" where
  "wired_client dsn app =
     (let cfg = app\<lparr>ac_database_url := dsn\<rparr>
      in set_default_cover_size (ac_default_cover_size cfg) (new_client (ac_base_url cfg) (ac_api_key cfg)))"

fun callback_part :: "host_setup \<Rightarrow> env \<Rightarrow> app_config \<Rightarrow> callback \<Rightarrow> wiring \<Rightarrow> callback \<times> wiring" where
  "callback_part su env cfg K_Start x =
     (case su_parse su (ac_database_url cfg) of
        Inl e \<Rightarrow> (K_Returned (Inl (''parse db: '' @ e)), x)
      | Inr n \<Rightarrow>
          (case su_pool su (max_conns n) of
             Inl e \<Rightarrow> (K_Returned (Inl (''pgxpool: '' @ e)), x)
           | Inr _ \<Rightarrow> (K_Opened (length (wi_open x)), open_pool x)))"
| "callback_part su env cfg (K_Opened p) x =
     (case migrate_run su (ac_database_url cfg) (wi_world x) of
        (Inl e, w) \<Rightarrow> (K_Returned (Inl (''migrate: '' @ e)), close_pool p (x\<lparr>wi_world := w\<rparr>))
      | (Inr _, w) \<Rightarrow> (K_Migrated p, x\<lparr>wi_world := w\<rparr>))"
| "callback_part su env cfg (K_Migrated p) x =
     (case import_legacy env (wi_world x) cfg of
        (Inl e, w) \<Rightarrow> (K_Returned (Inl (''import app config: '' @ e)), close_pool p (x\<lparr>wi_world := w\<rparr>))
      | (Inr app, w) \<Rightarrow> (K_Ready p app, x\<lparr>wi_world := w\<rparr>))"
| "callback_part su env cfg (K_Ready p app) x =
     (K_Served p app, x\<lparr>wi_http := (wired_server (ac_database_url cfg) app, Some p)\<rparr>)"
| "callback_part su env cfg (K_Served p app) x =
     (K_Consuming p app, x\<lparr>wi_consumer := Some (\<lparr>cd_has_store = True, cd_pub = Some (su_host su),
        cd_bw = Some (wired_client (ac_database_url cfg) app), cd_plugin_id = plugin_id\<rparr>, p)\<rparr>)"
| "callback_part su env cfg (K_Consuming p app) x =
     (K_Reconciling p, x\<lparr>wi_reconciler := Some (\<lparr>rd_pub = su_host su,
        rd_bw = wired_client (ac_database_url cfg) app, rd_plugin_id = plugin_id\<rparr>, p)\<rparr>)"
| "callback_part su env cfg (K_Reconciling p) x = (K_Swapped (wi_pool x), x\<lparr>wi_pool := Some p\<rparr>)"
| "callback_part su env cfg (K_Swapped old) x =
     (K_Returned (Inr ()), case old of None \<Rightarrow> x | Some p \<Rightarrow> close_pool p x)"
| "callback_part su env cfg (K_Returned r) x = (K_Returned r, x)"

section \<open>Callbacks that mix\<close>

datatype turn = Begin app_config | Continue nat

definition continue_call :: "host_setup \<Rightarrow> env \<Rightarrow> nat \<Rightarrow> wiring \<Rightarrow> wiring" where
  "continue_call su env i x =
     (if length (wi_calls x) \<le> i then x
      else case wi_calls x ! i of (cfg, k) \<Rightarrow>
        (case callback_part su env cfg k x of (k1, x1) \<Rightarrow> x1\<lparr>wi_calls := (wi_calls x)[i := (cfg, k1)]\<rparr>))"

fun wiring_move :: "host_setup \<Rightarrow> env \<Rightarrow> turn \<Rightarrow> wiring \<Rightarrow> wiring" where
  "wiring_move su env (Begin cfg) x = x\<lparr>wi_calls := wi_calls x @ [(cfg, K_Start)]\<rparr>"
| "wiring_move su env (Continue i) x = continue_call su env i x"

definition run_wiring :: "host_setup \<Rightarrow> env \<Rightarrow> turn list \<Rightarrow> wiring \<Rightarrow> wiring" where
  "run_wiring su env ms x = fold (wiring_move su env) ms x"

inductive wirings :: "host_setup \<Rightarrow> env \<Rightarrow> wiring \<Rightarrow> wiring \<Rightarrow> bool" for su env where
  still: "wirings su env x x"
| moved: "wirings su env x y \<Longrightarrow> wirings su env x (wiring_move su env m y)"

lemma wirings_run: "wirings su env x (run_wiring su env ms x)"
  by (induction ms rule: rev_induct) (auto simp: run_wiring_def intro: wirings.intros)

section \<open>One at a time: the callback of the theory Plugin\<close>

definition callback_whole :: "host_setup \<Rightarrow> env \<Rightarrow> app_config \<Rightarrow> wiring \<Rightarrow> callback \<times> wiring" where
  "callback_whole su env cfg x = ((\<lambda>(k, y). callback_part su env cfg k y) ^^ 8) (K_Start, x)"

text \<open>The state of the plugin that a wiring stands for.\<close>

definition sys_of :: "app_config \<Rightarrow> wiring \<Rightarrow> sys" where
  "sys_of rt x = \<lparr>sy_server = fst (wi_http x), sy_live = Option.bind (wi_consumer x) (\<lambda>(d, p). cd_pub d),
     sy_runtime = rt, sy_world = wi_world x\<rparr>"

lemma wired_client_server [simp]: "sd_client (sv_deps (wired_server dsn app)) = Some (wired_client dsn app)"
  by (simp add: wired_server_def wired_client_def new_server_def Let_def)

lemma close_pool_simps [simp]:
  "wi_http (close_pool p x) = wi_http x" "wi_consumer (close_pool p x) = wi_consumer x"
  "wi_reconciler (close_pool p x) = wi_reconciler x" "wi_pool (close_pool p x) = wi_pool x"
  "wi_world (close_pool p x) = wi_world x" "wi_calls (close_pool p x) = wi_calls x"
  "wi_open (close_pool p x) = (wi_open x)[p := False]"
  by (simp_all add: close_pool_def)

lemma open_pool_simps [simp]:
  "wi_http (open_pool x) = wi_http x" "wi_consumer (open_pool x) = wi_consumer x"
  "wi_reconciler (open_pool x) = wi_reconciler x" "wi_pool (open_pool x) = wi_pool x"
  "wi_world (open_pool x) = wi_world x" "wi_calls (open_pool x) = wi_calls x"
  "wi_open (open_pool x) = wi_open x @ [True]"
  by (simp_all add: open_pool_def)

lemma funpow_eight: "(f ^^ 8) x = f (f (f (f (f (f (f (f x)))))))"
  by (simp add: eval_nat_numeral)

lemma callback_whole_configure:
  "fst (callback_whole su env cfg x) = K_Returned (fst (on_configure su env cfg (sys_of rt x)))"
  "sys_of rt (snd (callback_whole su env cfg x)) = snd (on_configure su env cfg (sys_of rt x))"
  unfolding callback_whole_def funpow_eight
  by (auto simp: on_configure_def sys_of_def split: sum.split prod.split option.split)

text \<open>After a callback that ran alone, all parts use the pool of the pointer, it is open, and the one before is closed.\<close>

definition same_pool :: "wiring \<Rightarrow> bool" where
  "same_pool x \<longleftrightarrow> snd (wi_http x) = wi_pool x \<and> map_option snd (wi_consumer x) = wi_pool x
     \<and> map_option snd (wi_reconciler x) = wi_pool x
     \<and> (\<forall>p < length (wi_open x). wi_open x ! p \<longleftrightarrow> wi_pool x = Some p)
     \<and> (case wi_pool x of Some p \<Rightarrow> p < length (wi_open x) | None \<Rightarrow> True)
     \<and> (case (wi_consumer x, wi_reconciler x) of
          (Some (cd, p), Some (rd, q)) \<Rightarrow> cd_bw cd = Some (rd_bw rd) \<and> sd_client (sv_deps (fst (wi_http x))) = Some (rd_bw rd)
        | _ \<Rightarrow> True)"

lemma callback_whole_same_pool:
  "same_pool x \<Longrightarrow> same_pool (snd (callback_whole su env cfg x))"
  unfolding callback_whole_def funpow_eight
  by (auto simp: same_pool_def nth_append nth_list_update less_Suc_eq split: sum.split prod.split option.split)

section \<open>Who holds a pool\<close>

fun held :: "callback \<Rightarrow> nat list" where
  "held (K_Opened p) = [p]"
| "held (K_Migrated p) = [p]"
| "held (K_Ready p app) = [p]"
| "held (K_Served p app) = [p]"
| "held (K_Consuming p app) = [p]"
| "held (K_Reconciling p) = [p]"
| "held (K_Swapped old) = (case old of None \<Rightarrow> [] | Some p \<Rightarrow> [p])"
| "held _ = []"

definition holders :: "wiring \<Rightarrow> nat list" where
  "holders x = (case wi_pool x of None \<Rightarrow> [] | Some p \<Rightarrow> [p]) @ concat (map (held \<circ> snd) (wi_calls x))"

definition open_pools :: "wiring \<Rightarrow> nat set" where
  "open_pools x = {p. p < length (wi_open x) \<and> wi_open x ! p}"

lemma open_pools_finite [simp]: "finite (open_pools x)"
  by (rule finite_subset [of _ "{..<length (wi_open x)}"]) (auto simp: open_pools_def)

lemma open_pools_open: "mset_set (open_pools (open_pool x)) = add_mset (length (wi_open x)) (mset_set (open_pools x))"
proof -
  have "open_pools (open_pool x) = insert (length (wi_open x)) (open_pools x)"
    by (auto simp: open_pools_def nth_append less_Suc_eq)
  then show ?thesis by (simp add: open_pools_def)
qed

lemma open_pools_close:
  assumes "p \<in> open_pools x"
  shows "mset_set (open_pools x) = add_mset p (mset_set (open_pools (close_pool p x)))"
proof -
  have "open_pools (close_pool p x) = open_pools x - {p}"
    using assms by (auto simp: open_pools_def nth_list_update split: if_splits)
  then show ?thesis using assms mset_set.remove [of "open_pools x" p] by simp
qed

lemma open_pools_world [simp]:
  "open_pools (x\<lparr>wi_world := w\<rparr>) = open_pools x" "open_pools (close_pool p (x\<lparr>wi_world := w\<rparr>)) = open_pools (close_pool p x)"
  "open_pools (x\<lparr>wi_http := h\<rparr>) = open_pools x" "open_pools (x\<lparr>wi_consumer := c\<rparr>) = open_pools x"
  "open_pools (x\<lparr>wi_reconciler := r\<rparr>) = open_pools x" "open_pools (x\<lparr>wi_pool := q\<rparr>) = open_pools x"
  "open_pools (x\<lparr>wi_calls := cs\<rparr>) = open_pools x"
  by (simp_all add: open_pools_def)

abbreviation pointer :: "wiring \<Rightarrow> nat multiset" where
  "pointer x \<equiv> mset (case wi_pool x of None \<Rightarrow> [] | Some p \<Rightarrow> [p])"

text \<open>A part opens and closes what it begins and ceases to hold.\<close>

lemma callback_part_holds:
  assumes "callback_part su env cfg k x = (k1, x1)" and "set (held k) \<subseteq> open_pools x"
  shows "pointer x1 + mset (held k1) + mset_set (open_pools x) = pointer x + mset (held k) + mset_set (open_pools x1)"
  using assms
  by (cases k) (auto simp: open_pools_open open_pools_close split: sum.splits prod.splits option.splits)

lemma callback_part_calls: "wi_calls (snd (callback_part su env cfg k x)) = wi_calls x"
  by (cases k) (auto split: sum.split prod.split option.split)

lemma mset_update_part:
  assumes "i < length cs"
  shows "mset (concat (map f (cs[i := c]))) + mset (f (cs ! i)) = mset (concat (map f cs)) + mset (f c)"
proof -
  have "mset (concat (map f cs))
      = mset (concat (map f (take i cs))) + mset (f (cs ! i)) + mset (concat (map f (drop (Suc i) cs)))"
    by (subst id_take_nth_drop [OF assms]) simp
  then show ?thesis by (simp add: upd_conv_take_nth_drop [OF assms])
qed

definition accounted :: "wiring \<Rightarrow> bool" where
  "accounted x \<longleftrightarrow> mset (holders x) = mset_set (open_pools x)"

lemma accounted_iff: "accounted x \<longleftrightarrow> distinct (holders x) \<and> set (holders x) = open_pools x"
proof
  assume "accounted x"
  then have m: "mset (holders x) = mset_set (open_pools x)" by (simp add: accounted_def)
  then have "set (holders x) = open_pools x" by (metis finite_set_mset_mset_set open_pools_finite set_mset_mset)
  moreover from this m have "distinct (holders x)"
    by (simp add: distinct_count_atmost_1 count_mset_set')
  ultimately show "distinct (holders x) \<and> set (holders x) = open_pools x" by simp
next
  assume "distinct (holders x) \<and> set (holders x) = open_pools x"
  then show "accounted x" by (metis accounted_def mset_set_set)
qed

lemma accounted_move: "accounted x \<Longrightarrow> accounted (wiring_move su env m x)"
proof (cases m)
  case (Begin cfg)
  then show "accounted x \<Longrightarrow> ?thesis" by (simp add: accounted_def holders_def)
next
  case (Continue i)
  assume acc: "accounted x"
  show ?thesis
  proof (cases "length (wi_calls x) \<le> i")
    case True
    then show ?thesis using acc Continue by (simp add: continue_call_def)
  next
    case False
    obtain cfg k where at: "wi_calls x ! i = (cfg, k)" by fastforce
    obtain k1 x1 where part: "callback_part su env cfg k x = (k1, x1)" by fastforce
    have len: "i < length (wi_calls x)" using False by simp
    have "(cfg, k) \<in> set (wi_calls x)" using len at by (metis nth_mem)
    then have "set (held k) \<subseteq> set (holders x)" by (force simp: holders_def)
    then have held: "set (held k) \<subseteq> open_pools x" using acc by (simp add: accounted_iff)
    let ?rest = "\<lambda>cs. mset (concat (map (held \<circ> snd) cs))"
    have "?rest ((wi_calls x)[i := (cfg, k1)]) + mset (held k) = ?rest (wi_calls x) + mset (held k1)"
      using mset_update_part [OF len, of "held \<circ> snd" "(cfg, k1)"] at by simp
    moreover note callback_part_holds [OF part held]
    moreover have "pointer x + ?rest (wi_calls x) = mset_set (open_pools x)"
      using acc by (simp add: accounted_def holders_def)
    ultimately have "pointer x1 + ?rest ((wi_calls x)[i := (cfg, k1)]) = mset_set (open_pools x1)"
      by (smt (verit) add.assoc add.commute add_right_imp_eq)
    then show ?thesis
      using Continue len at part by (simp add: accounted_def holders_def continue_call_def)
  qed
qed

lemma wirings_accounted: "wirings su env x y \<Longrightarrow> accounted x \<Longrightarrow> accounted y"
  by (induction rule: wirings.induct) (auto intro: accounted_move)

lemma start_accounted: "accounted (start_wiring w)"
  by (simp add: accounted_def holders_def start_wiring_def open_pools_def)

section \<open>A callback between the parts of another\<close>

abbreviation callback_parts :: "host_setup \<Rightarrow> env \<Rightarrow> app_config \<Rightarrow> nat \<Rightarrow> callback \<times> wiring \<Rightarrow> callback \<times> wiring" where
  "callback_parts su env cfg n \<equiv> (\<lambda>(k, y). callback_part su env cfg k y) ^^ n"

lemma callback_part_with_calls:
  "callback_part su env cfg k (x\<lparr>wi_calls := cs\<rparr>)
     = apsnd (wi_calls_update (\<lambda>_. cs)) (callback_part su env cfg k x)"
  by (cases k) (simp_all add: close_pool_def open_pool_def split: sum.split prod.split option.split)

lemma callback_parts_returned: "callback_parts su env cfg n (K_Returned r, x) = (K_Returned r, x)"
  by (induction n) simp_all

text \<open>Six parts bring a callback that goes through to the swap of the pool.\<close>

lemma funpow_two: "(f ^^ 2) x = f (f x)"
  and funpow_six: "(f ^^ 6) x = f (f (f (f (f (f x)))))"
  by (simp_all add: eval_nat_numeral)

lemma six_parts_split:
  "case callback_parts su env cfg 6 (K_Start, x) of (k, y) \<Rightarrow>
     (\<exists>e. k = K_Returned (Inl e))
     \<or> k = K_Reconciling (length (wi_open x)) \<and> wi_open y = wi_open x @ [True] \<and> wi_pool y = wi_pool x
        \<and> snd (wi_http y) = Some (length (wi_open x)) \<and> map_option snd (wi_consumer y) = Some (length (wi_open x))
        \<and> map_option snd (wi_reconciler y) = Some (length (wi_open x))"
  unfolding funpow_six by (auto split: sum.split prod.split)

lemma six_parts:
  assumes "callback_parts su env cfg 6 (K_Start, x) = (k, y)"
  obtains (failed) e where "k = K_Returned (Inl e)"
  | (ready) "k = K_Reconciling (length (wi_open x))" "wi_open y = wi_open x @ [True]" "wi_pool y = wi_pool x"
      "snd (wi_http y) = Some (length (wi_open x))" "map_option snd (wi_consumer y) = Some (length (wi_open x))"
      "map_option snd (wi_reconciler y) = Some (length (wi_open x))"
  using six_parts_split [of x su env cfg] unfolding assms prod.case by blast

lemma run_continue:
  assumes "i < length (wi_calls x)" and "wi_calls x ! i = (cfg, k)"
    and "callback_parts su env cfg n (k, x) = (k1, x1)"
  shows "run_wiring su env (replicate n (Continue i)) x = x1\<lparr>wi_calls := (wi_calls x)[i := (cfg, k1)]\<rparr>"
  using assms
proof (induction n arbitrary: k1 x1)
  case 0
  then show ?case by (simp add: run_wiring_def) (metis list_update_id wiring.surjective wiring.update_convs(7))
next
  case (Suc n)
  obtain k2 x2 where n: "callback_parts su env cfg n (k, x) = (k2, x2)" by fastforce
  then have "callback_part su env cfg k2 x2 = (k1, x1)" using Suc.prems(3) by simp
  moreover have "run_wiring su env (replicate (Suc n) (Continue i)) x
      = continue_call su env i (run_wiring su env (replicate n (Continue i)) x)"
    by (simp add: run_wiring_def replicate_append_same [symmetric] del: replicate.simps)
  ultimately show ?case
    using Suc.IH [OF Suc.prems(1,2) n] Suc.prems(1) by (simp add: continue_call_def callback_part_with_calls)
qed

text \<open>The first callback is about to swap the pool when the second runs from its begin to its end.\<close>

definition overlap :: "app_config \<Rightarrow> app_config \<Rightarrow> turn list" where
  "overlap a b = [Begin a, Begin b] @ replicate 6 (Continue 0) @ replicate 8 (Continue 1) @ replicate 2 (Continue 0)"

definition both_begun :: "app_config \<Rightarrow> app_config \<Rightarrow> world \<Rightarrow> wiring" where
  "both_begun a b w = (start_wiring w)\<lparr>wi_calls := [(a, K_Start), (b, K_Start)]\<rparr>"

lemma overlap_parts:
  assumes "run_wiring su env (overlap a b) (start_wiring w) = y"
  obtains ka xa kc xc kb xb kd xd where
    "callback_parts su env a 6 (K_Start, both_begun a b w) = (ka, xa)"
    "callback_parts su env b 6 (K_Start, xa\<lparr>wi_calls := [(a, ka), (b, K_Start)]\<rparr>) = (kc, xc)"
    "callback_parts su env b 2 (kc, xc) = (kb, xb)"
    "callback_parts su env a 2 (ka, xb\<lparr>wi_calls := [(a, ka), (b, kb)]\<rparr>) = (kd, xd)"
    "y = xd\<lparr>wi_calls := [(a, kd), (b, kb)]\<rparr>"
proof -
  let ?x = "both_begun a b w" and ?run = "run_wiring su env"
  have y: "y = ?run (replicate 2 (Continue 0)) (?run (replicate 8 (Continue 1)) (?run (replicate 6 (Continue 0)) ?x))"
    using assms by (simp add: overlap_def run_wiring_def both_begun_def start_wiring_def)
  have calls: "wi_calls ?x = [(a, K_Start), (b, K_Start)]" by (simp add: both_begun_def)
  obtain ka xa where pa: "callback_parts su env a 6 (K_Start, ?x) = (ka, xa)" by fastforce
  let ?xa = "xa\<lparr>wi_calls := [(a, ka), (b, K_Start)]\<rparr>"
  have ra: "?run (replicate 6 (Continue 0)) ?x = ?xa"
    using run_continue [OF _ _ pa, of 0] calls by simp
  obtain kc xc where pc: "callback_parts su env b 6 (K_Start, ?xa) = (kc, xc)" by fastforce
  obtain kb xb where pb: "callback_parts su env b 2 (kc, xc) = (kb, xb)" by fastforce
  have "callback_parts su env b 8 (K_Start, ?xa) = (kb, xb)"
    using funpow_add [of 2 6 "\<lambda>(k, y). callback_part su env b k y"] pc pb by simp
  then have rb: "?run (replicate 8 (Continue 1)) ?xa = xb\<lparr>wi_calls := [(a, ka), (b, kb)]\<rparr>"
    using run_continue [where i = 1 and x = ?xa and cfg = b and k = K_Start and n = 8] by simp
  let ?xb = "xb\<lparr>wi_calls := [(a, ka), (b, kb)]\<rparr>"
  obtain kd xd where pd: "callback_parts su env a 2 (ka, ?xb) = (kd, xd)" by fastforce
  then have "?run (replicate 2 (Continue 0)) ?xb = xd\<lparr>wi_calls := [(a, kd), (b, kb)]\<rparr>"
    using run_continue [where i = 0 and x = ?xb and cfg = a and k = ka and n = 2] by simp
  then show thesis using that [OF pa pc pb pd] y ra rb by simp
qed

section \<open>Properties\<close>

text \<open>
  C18. The database pools are accounted for, however the callbacks of overlapping \<open>Configure\<close> calls mix and
  wherever they fail: every open pool has exactly one holder, which is the pointer of the plugin or one callback
  that is still running, and no other pool is open. So when all have returned, the pool of the pointer is
  the only open one: none leaks.
\<close>

theorem pools_accounted:
  assumes "wirings su env (start_wiring w) x"
  shows "distinct (holders x) \<and> set (holders x) = open_pools x
    \<and> ((\<forall>(cfg, k) \<in> set (wi_calls x). \<exists>r. k = K_Returned r) \<longrightarrow> open_pools x = set_option (wi_pool x))"
proof -
  have acc: "distinct (holders x) \<and> set (holders x) = open_pools x"
    using wirings_accounted [OF assms start_accounted] by (simp add: accounted_iff)
  moreover have "set (holders x) = set_option (wi_pool x)" if "\<forall>(cfg, k) \<in> set (wi_calls x). \<exists>r. k = K_Returned r"
    using that by (fastforce simp: holders_def split: option.split)
  ultimately show ?thesis by simp
qed

text \<open>Two callbacks on a stored configuration, everything working.\<close>

lemma stored_calm:
  assumes "w_config w = w_config stored_world"
  shows "\<exists>c. import_legacy calm_env w cfg = (Inr c, w\<lparr>w_db := Suc (w_db w)\<rparr>)"
proof -
  let ?c = "utf8_config (sample_config\<lparr>ac_database_url := [], ac_default_cover_size := ''medium''\<rparr>)"
  have "ac_api_key ?c \<noteq> ac_api_key default_app_config"
    by (simp add: utf8_config_def sample_config_def default_app_config_def zero_config_def)
  then have "?c \<noteq> default_app_config" by auto
  moreover have "w_config stored_world
      = Some (jsonb (config_json (sample_config\<lparr>ac_database_url := [], ac_default_cover_size := ''medium''\<rparr>)))"
    using sample_stored by (simp add: stored_world_def)
  ultimately show ?thesis using assms import_legacy_calm [OF _ sample_decoded] by fastforce
qed

definition sample_dsn :: app_config where
  "sample_dsn = zero_config\<lparr>ac_database_url := ''postgres://db''\<rparr>"

definition sample_wiring :: wiring where
  "sample_wiring = run_wiring (os_setup sample_outside) calm_env (overlap sample_dsn sample_dsn) (start_wiring stored_world)"

lemma sample_wiring_calls:
  "wi_calls sample_wiring = [(sample_dsn, K_Returned (Inr ())), (sample_dsn, K_Returned (Inr ()))]"
proof -
  obtain c1 where "import_legacy calm_env (stored_world\<lparr>w_db := Suc (w_db stored_world)\<rparr>) sample_dsn
     = (Inr c1, stored_world\<lparr>w_db := Suc (Suc (w_db stored_world))\<rparr>)"
    using stored_calm [of "stored_world\<lparr>w_db := Suc (w_db stored_world)\<rparr>" sample_dsn] by auto
  moreover obtain c2 where "import_legacy calm_env (stored_world\<lparr>w_db := Suc (Suc (Suc (w_db stored_world)))\<rparr>) sample_dsn
     = (Inr c2, stored_world\<lparr>w_db := Suc (Suc (Suc (Suc (w_db stored_world))))\<rparr>)"
    using stored_calm [of "stored_world\<lparr>w_db := Suc (Suc (Suc (w_db stored_world)))\<rparr>" sample_dsn] by auto
  ultimately show ?thesis
    by (simp add: sample_wiring_def overlap_def run_wiring_def eval_nat_numeral continue_call_def start_wiring_def
        sample_outside_def migrate_run_def)
qed

theorem pools_accounted_witness: "open_pools sample_wiring = set_option (wi_pool sample_wiring)"
  using pools_accounted [OF wirings_run, of "os_setup sample_outside" calm_env "overlap sample_dsn sample_dsn" stored_world]
  unfolding sample_wiring_def [symmetric] sample_wiring_calls by simp

text \<open>
  C12. Two overlapping \<open>Configure\<close> calls can leave the plugin without a database although both succeed: when the
  second runs while the first is about to swap the pool, the HTTP routes, the consumer and the reconciler all end
  on the pool of the second, and the first closes it as the old one. The pool of the pointer is open, but
  nothing uses it.
\<close>

theorem overlapping_configures_strand:
  assumes "run_wiring su env (overlap a b) (start_wiring w) = y"
    and "wi_calls y = [(a, K_Returned (Inr ())), (b, K_Returned (Inr ()))]"
  shows "\<exists>p q. wi_pool y = Some p \<and> open_pools y = {p} \<and> q \<noteq> p
    \<and> snd (wi_http y) = Some q \<and> map_option snd (wi_consumer y) = Some q \<and> map_option snd (wi_reconciler y) = Some q"
proof -
  obtain ka xa kc xc kb xb kd xd where
    pa: "callback_parts su env a 6 (K_Start, both_begun a b w) = (ka, xa)"
    and pc: "callback_parts su env b 6 (K_Start, xa\<lparr>wi_calls := [(a, ka), (b, K_Start)]\<rparr>) = (kc, xc)"
    and pb: "callback_parts su env b 2 (kc, xc) = (kb, xb)"
    and pd: "callback_parts su env a 2 (ka, xb\<lparr>wi_calls := [(a, ka), (b, kb)]\<rparr>) = (kd, xd)"
    and yd: "y = xd\<lparr>wi_calls := [(a, kd), (b, kb)]\<rparr>"
    by (rule overlap_parts [OF assms(1)])
  have ret: "kd = K_Returned (Inr ())" "kb = K_Returned (Inr ())" using assms(2) yd by simp_all
  show ?thesis
    using pa
  proof (cases rule: six_parts)
    case (failed e)
    then show ?thesis using pd ret by (simp add: callback_parts_returned)
  next
    case a: ready
    show ?thesis
      using pc
    proof (cases rule: six_parts)
      case (failed e)
      then show ?thesis using pb ret by (simp add: callback_parts_returned)
    next
      case b: ready
      have xb: "xb = xc\<lparr>wi_pool := Some 1\<rparr>"
        using pb b a by (auto simp: funpow_two both_begun_def start_wiring_def)
      then have "xd = close_pool 1 (xb\<lparr>wi_calls := [(a, ka), (b, kb)], wi_pool := Some 0\<rparr>)"
        using pd a by (auto simp: funpow_two both_begun_def start_wiring_def)
      then show ?thesis
        using xb a b yd by (auto simp: open_pools_def both_begun_def start_wiring_def nth_list_update less_Suc_eq)
    qed
  qed
qed

theorem overlapping_configures_strand_witness:
  "\<exists>p q. wi_pool sample_wiring = Some p \<and> snd (wi_http sample_wiring) = Some q \<and> q \<notin> open_pools sample_wiring"
  using overlapping_configures_strand [OF sample_wiring_def [symmetric] sample_wiring_calls] by auto

end
