(* ===== verification/Startup.thy ===== *)
theory Startup
  imports Plugin JsonCodec "HOL-Library.Word"
begin

text \<open>
  The start of the process, cmd/silo-plugin-bookwarehouse-ebook/main.go: the loading of the manifest, which gives
  the host the checksum of the running binary, and the state before the first call of the host.

  Parameters: the decoder of the embedded manifest (\<open>publicmanifest.Load\<close>, outside of the repository), the path and
  the contents of the executable, the platform. SHA-256 is defined as in FIPS 180-4, on 32-bit words.
  Of the manifest only the two fields that the program sets are modelled, the rest is kept as it is.
\<close>

section \<open>SHA-256\<close>

unbundle bit_operations_syntax

type_synonym w32 = "32 word"
type_synonym sha_state = "w32 \<times> w32 \<times> w32 \<times> w32 \<times> w32 \<times> w32 \<times> w32 \<times> w32"

text \<open>
  The constants are what the standard says they are: the first 32 bits of the fractional parts of the roots of
  the first primes, cube roots for the rounds and square roots for the initial state. \<open>root_floor e m n\<close> is
  the \<open>e\<close>-th root of \<open>m\<close>, rounded down, from its \<open>n\<close> lowest bits; the roots below are less than \<open>2 ^ 40\<close>.
\<close>

fun root_floor :: "nat \<Rightarrow> nat \<Rightarrow> nat \<Rightarrow> nat" where
  "root_floor e m 0 = 0"
| "root_floor e m (Suc n) =
     (let r = 2 * root_floor e (m div 2 ^ e) n in if (r + 1) ^ e \<le> m then r + 1 else r)"

definition primes_below :: "nat \<Rightarrow> nat list" where
  "primes_below n = filter (\<lambda>p. \<forall>d \<in> set [2..<p]. p mod d \<noteq> 0) [2..<n]"

definition root_bits :: "nat \<Rightarrow> nat \<Rightarrow> w32" where
  "root_bits e p = of_nat (root_floor e (p * 2 ^ (32 * e)) 40)"

definition sha_k :: "w32 list" where
  "sha_k = map (root_bits 3) (take 64 (primes_below 312))"

definition sha_init :: sha_state where
  "sha_init =
     (root_bits 2 2, root_bits 2 3, root_bits 2 5, root_bits 2 7,
      root_bits 2 11, root_bits 2 13, root_bits 2 17, root_bits 2 19)"

definition bytes_be :: "nat \<Rightarrow> nat \<Rightarrow> nat list" where
  "bytes_be k n = map (\<lambda>i. n div 256 ^ i mod 256) (rev [0..<k])"

definition sha_pad :: "gostring \<Rightarrow> nat list" where
  "sha_pad s =
     (let n = length s; bs = map byte_of s @ [0x80]
      in bs @ replicate ((120 - (n + 1) mod 64) mod 64) 0 @ bytes_be 8 (8 * n mod 2 ^ 64))"

fun sha_words :: "nat list \<Rightarrow> w32 list" where
  "sha_words (a # b # c # d # bs) = of_nat (((a * 256 + b) * 256 + c) * 256 + d) # sha_words bs"
| "sha_words _ = []"

text \<open>The schedule is kept in reverse: the head is the newest word.\<close>

definition sha_next :: "w32 list \<Rightarrow> w32" where
  "sha_next ws =
     (let x = ws ! 14; y = ws ! 1;
          s0 = word_rotr 7 x XOR word_rotr 18 x XOR drop_bit 3 x;
          s1 = word_rotr 17 y XOR word_rotr 19 y XOR drop_bit 10 y
      in ws ! 15 + s0 + ws ! 6 + s1)"

definition sha_schedule :: "w32 list \<Rightarrow> w32 list" where
  "sha_schedule block = rev (((\<lambda>ws. sha_next ws # ws) ^^ 48) (rev block))"

definition sha_round :: "w32 \<times> w32 \<Rightarrow> sha_state \<Rightarrow> sha_state" where
  "sha_round kw st =
     (case st of (a, b, c, d, e, f, g, h) \<Rightarrow>
        let s1 = word_rotr 6 e XOR word_rotr 11 e XOR word_rotr 25 e;
            ch = (e AND f) XOR (NOT e AND g);
            t1 = h + s1 + ch + fst kw + snd kw;
            s0 = word_rotr 2 a XOR word_rotr 13 a XOR word_rotr 22 a;
            maj = (a AND b) XOR (a AND c) XOR (b AND c)
        in (t1 + (s0 + maj), a, b, c, d + t1, e, f, g))"

definition sha_add :: "sha_state \<Rightarrow> sha_state \<Rightarrow> sha_state" where
  "sha_add s t =
     (case (s, t) of ((a, b, c, d, e, f, g, h), (a', b', c', d', e', f', g', h')) \<Rightarrow>
        (a + a', b + b', c + c', d + d', e + e', f + f', g + g', h + h'))"

definition sha_block :: "w32 list \<Rightarrow> sha_state \<Rightarrow> sha_state" where
  "sha_block block st = sha_add st (fold sha_round (zip sha_k (sha_schedule block)) st)"

definition sha_state_words :: "sha_state \<Rightarrow> w32 list" where
  "sha_state_words st = (case st of (a, b, c, d, e, f, g, h) \<Rightarrow> [a, b, c, d, e, f, g, h])"

definition sha256 :: "gostring \<Rightarrow> gostring" where
  "sha256 s =
     (let ws = sha_words (sha_pad s);
          st = fold (\<lambda>i. sha_block (take 16 (drop (16 * i) ws))) [0..<length ws div 16] sha_init
      in map char_of (concat (map (\<lambda>w. bytes_be 4 (unat w)) (sha_state_words st))))"

section \<open>Hexadecimal\<close>

text \<open>\<open>hex.EncodeToString\<close>, and its inverse.\<close>

definition hex_encode :: "gostring \<Rightarrow> gostring" where
  "hex_encode s = concat (map (\<lambda>c. [hex_digit (byte_of c div 16), hex_digit (byte_of c mod 16)]) s)"

fun hex_decode :: "gostring \<Rightarrow> gostring option" where
  "hex_decode (a # b # s) =
     (case (hex_val a, hex_val b, hex_decode s) of
        (Some x, Some y, Some t) \<Rightarrow> Some (char_of (16 * x + y) # t)
      | _ \<Rightarrow> None)"
| "hex_decode [] = Some []"
| "hex_decode _ = None"

section \<open>The manifest\<close>

record 'a manifest =
  mf_checksum :: gostring
  mf_platforms :: "(gostring \<times> gostring) list"
  mf_other :: 'a

text \<open>\<open>%q\<close> of a path: quotes and backslashes are escaped, control bytes and bytes that are not UTF-8
  in hexadecimal. Every other character counts as printable.\<close>

definition quote_chunk :: "nat \<times> gostring \<Rightarrow> gostring" where
  "quote_chunk p = (case p of (r, bs) \<Rightarrow>
     if r = 0x22 \<or> r = 0x5C then [CHR 0x5C, char_of r]
     else if r = 7 then [CHR 0x5C, CHR ''a''] else if r = 8 then [CHR 0x5C, CHR ''b'']
     else if r = 12 then [CHR 0x5C, CHR ''f''] else if r = 10 then [CHR 0x5C, CHR ''n'']
     else if r = 13 then [CHR 0x5C, CHR ''r''] else if r = 9 then [CHR 0x5C, CHR ''t'']
     else if r = 11 then [CHR 0x5C, CHR ''v'']
     else if r < 32 \<or> r = 127 \<or> (r = rune_error \<and> length bs = 1) then [CHR 0x5C, CHR ''x''] @ hex_encode bs
     else bs)"

definition go_quote :: "gostring \<Rightarrow> gostring" where
  "go_quote s = [CHR 0x22] @ concat (map quote_chunk (runes s)) @ [CHR 0x22]"

text \<open>What the process finds: its own path and the files.\<close>

record process =
  pr_executable :: "gostring res"
  pr_read_file :: "gostring \<Rightarrow> gostring res"
  pr_goos :: gostring
  pr_goarch :: gostring

definition load_manifest :: "(gostring \<Rightarrow> 'a manifest res) \<Rightarrow> process \<Rightarrow> gostring \<Rightarrow> 'a manifest res" where
  "load_manifest load pr raw =
     (case load raw of
        Inl e \<Rightarrow> Inl (''load embedded manifest: '' @ e)
      | Inr m \<Rightarrow>
          (case pr_executable pr of
             Inl e \<Rightarrow> Inl (''resolve executable path: '' @ e)
           | Inr path \<Rightarrow>
               (case pr_read_file pr path of
                  Inl e \<Rightarrow> Inl (''read executable '' @ go_quote path @ '': '' @ e)
                | Inr bin \<Rightarrow>
                    Inr (m\<lparr>mf_checksum := hex_encode (sha256 bin),
                           mf_platforms := (if mf_platforms m = [] then [(pr_goos pr, pr_goarch pr)]
                                            else mf_platforms m)\<rparr>))))"

text \<open>The start: a manifest that does not load ends the process (exit status 1, the text on stderr); otherwise the plugin
  serves, with a server that has no client yet.\<close>

definition plugin_start ::
  "(gostring \<Rightarrow> 'a manifest res) \<Rightarrow> process \<Rightarrow> gostring \<Rightarrow> world \<Rightarrow> (int \<times> gostring) + 'a manifest \<times> sys" where
  "plugin_start load pr raw w =
     (case load_manifest load pr raw of
        Inl e \<Rightarrow> Inl (1, ''load manifest: '' @ e @ newline)
      | Inr m \<Rightarrow> Inr (m, start_sys w))"

text \<open>\<open>GetManifest\<close> of internal/runtime/runtime.go.\<close>

definition get_manifest :: "'a manifest \<Rightarrow> 'a manifest res" where
  "get_manifest m = Inr m"

section \<open>Laws\<close>

lemma bytes_be_length [simp]: "length (bytes_be k n) = k"
  by (simp add: bytes_be_def)

lemma sha256_length [simp]: "length (sha256 s) = 32"
proof -
  have "length (concat (map (\<lambda>w. bytes_be 4 (unat w)) (sha_state_words st))) = 32" for st
    by (simp add: sha_state_words_def case_prod_beta length_concat)
  then show ?thesis by (simp only: sha256_def Let_def length_map)
qed

text \<open>The padding makes whole blocks, so no byte of the file is left out.\<close>

lemma sha_pad_blocks: "length (sha_pad s) mod 64 = 0"
proof -
  let ?n = "length s + 1"
  let ?k = "?n mod 64"
  have "(120 - ?k) mod 64 + ?k = 56 \<or> (120 - ?k) mod 64 + ?k = 120"
  proof (cases "?k \<le> 56")
    case True
    then have "(120 - ?k) mod 64 = (64 + (56 - ?k)) mod 64" by simp
    then show ?thesis using True by (simp only: mod_add_self1) simp
  next
    case False
    moreover have "?k < 64" by simp
    ultimately show ?thesis by simp
  qed
  then have "((120 - ?k) mod 64 + ?k + 8) mod 64 = 0" by auto
  then have "(?n + ((120 - ?k) mod 64 + 8)) mod 64 = 0"
    using mod_add_left_eq [of ?n 64 "(120 - ?k) mod 64 + 8"] by (simp add: ac_simps)
  then show ?thesis by (simp add: sha_pad_def Let_def add.left_commute)
qed

lemma hex_encode_length [simp]: "length (hex_encode s) = 2 * length s"
  by (induction s) (simp_all add: hex_encode_def)

lemma hex_roundtrip: "hex_decode (hex_encode s) = Some s"
proof (induction s)
  case (Cons c s)
  have "char_of (16 * (byte_of c div 16) + byte_of c mod 16) = c" by (simp add: mult_div_mod_eq)
  moreover have "byte_of c div 16 < 16" using less_mult_imp_div_less [of "byte_of c" 16 16] by simp
  ultimately show ?case using Cons by (simp add: hex_encode_def hex_val_digit)
qed (simp add: hex_encode_def)

section \<open>Properties\<close>

text \<open>
  The manifest that the host gets is the embedded one with the checksum of the binary that runs: 64
  hexadecimal digits of the SHA-256 of the bytes of the executable, whatever checksum the embedded file has, and at
  least one platform, the running one when none is declared; the rest is as embedded. It fails exactly when
  the embedded manifest does not decode, or the executable cannot be found or read, and the text says which.
\<close>

lemma manifest_checksum:
  "case load_manifest load pr raw of
     Inr m \<Rightarrow> (\<exists>m0 path bin. load raw = Inr m0 \<and> pr_executable pr = Inr path \<and> pr_read_file pr path = Inr bin
       \<and> length (mf_checksum m) = 64 \<and> hex_decode (mf_checksum m) = Some (sha256 bin)
       \<and> mf_platforms m = (if mf_platforms m0 = [] then [(pr_goos pr, pr_goarch pr)] else mf_platforms m0)
       \<and> mf_other m = mf_other m0)
   | Inl e \<Rightarrow> (\<exists>e0. (load raw = Inl e0 \<and> e = ''load embedded manifest: '' @ e0)
       \<or> (is_ok (load raw) \<and> pr_executable pr = Inl e0 \<and> e = ''resolve executable path: '' @ e0)
       \<or> (\<exists>path. is_ok (load raw) \<and> pr_executable pr = Inr path \<and> pr_read_file pr path = Inl e0
            \<and> e = ''read executable '' @ go_quote path @ '': '' @ e0))"
  by (auto simp: load_manifest_def hex_roundtrip is_ok_def split: sum.split)

end
