(* ===== verification/Spec2Isabelle.thy ===== *)
theory Spec2Isabelle
  imports Interleaving Lifecycle Delivery PageRender ConfigRaces Pools Startup
begin

text \<open>
  A verification development of the plugin bookwarehouse-ebook, a Go program that connects a media
  host with an upstream server of electronic books.

  \<^bold>\<open>The program.\<close> The host calls the plugin in four ways. \<open>Configure\<close> gives it its settings and makes it
  wire a database pool, the client of the upstream API and the HTTP router. An event
  \<open>request_submitted\<close> asks it to queue a book upstream; the plugin keeps a row for each such
  request. A scheduled task polls upstream for every row that is not finished and publishes what
  has changed. HTTP calls browse the catalogue, deliver covers and files to whoever has a signed
  token, and serve the admin page.

  \<^bold>\<open>The theories\<close>, in the order in which they build on each other. Names in the model follow the
  code's (\<open>ListNonTerminal\<close> is \<open>list_non_terminal\<close>); a handler \<open>Handler.Cover\<close> is \<open>h_cover\<close>.

    \<^item> Prelude, GoStrings, GoFloat, GoJson, JsonCodec, GoUrl: what the program uses of Go's language and standard
    library. Strings are byte lists, \<open>int\<close> is 64 bits wide with its wrap-around, \<open>float64\<close> is exact;
    a \<open>(T, error)\<close> result is a sum with the error's text on the left. JsonCodec proves that the parser
    of encoding/json reads back what its printer writes (\<open>json_parse_print\<close>), up to the replacement of
    bytes that are not UTF-8.

    \<^item> ForwardedTable: the table \<open>forwarded_request\<close> of src/internal/migrate/files and the meaning of
    the SQL of src/internal/store/request.go. Its locales \<open>forward_table\<close> and \<open>guarded_table\<close> are
    what a table owes its users; they are interpreted on the statements of the program.

    \<^item> World: the state that every operation takes and returns (the rows, the row of the configuration, the
    log of requests sent upstream, the log of events published, the counters of environment calls)
    and the environment, which decides every answer of upstream, the database and the clock. The relations
    \<open>writes\<close>, \<open>wrote\<close> and \<open>grows\<close> say what an operation may have done to it.

    \<^item> Client, Monitoring, Books, Facets: src/internal/bookwarehouse. Store: src/internal/store/request.go.
    AppConfig: src/internal/runtime/runtime.go and src/internal/store/store.go.

    \<^item> Consumer: src/internal/consumer/handler.go and src/internal/event/publisher.go. Reconciler:
    src/internal/reconciler/reconciler.go and src/internal/scheduler/server.go.

    \<^item> Tokens: src/internal/tokens/verify.go. CatalogApi: src/internal/catalog and
    src/internal/request/handler.go. HttpRoutes: src/internal/httproutes/server.go. Server:
    src/internal/server.

    \<^item> Plugin: src/cmd/silo-plugin-bookwarehouse-ebook/main.go and src/internal/migrate/runner.go. The record
    \<open>sys\<close> is the whole plugin, \<open>step\<close> one call of the host and \<open>reaches\<close> its runs.

    \<^item> Startup: the start of the process in main.go, the manifest with the SHA-256 of the binary.

    \<^item> Answers: a type of JSON values per route and the proof that the answers have it. Delivery: an event
    as upstream reads it. AdminPage: the configuration form in the script of the page that
    src/internal/server/server.go serves. PageRender: the rest of that script, which shows the results of a
    test search, the diagnostics and the preview of a request, with the states of a browser's tokenizer.

    \<^item> ConfigRaces: \<open>handleUpdateConfig\<close> in its atomic parts, mixed with those of other
    requests and with \<open>Configure\<close>. Pools: the callback of \<open>Configure\<close> in main.go effect by effect, with the
    database pools it opens and closes, mixed with the callbacks of overlapping calls; alone it is the callback of
    Plugin (\<open>callback_whole_configure\<close>).

    \<^item> Lifecycle: the abstract specification of a request and the refinement by the plugin, over the
    locale \<open>simulation\<close>. Interleaving: the same table when the statements of concurrent calls mix.

  \<^bold>\<open>What the theorems show.\<close>

    \<^item> Of the requests: in every run, and in every interleaving of the statements of concurrent calls, the
    table stays well formed, no row is lost, a finished request stays finished and an upstream id is
    never lost (Plugin, Interleaving); the runs refine an abstract lifecycle (Lifecycle). An event has
    the stated effect on row, upstream and bus on every branch, and an acknowledged one is never
    stranded without its id (Consumer); what it sends is the event, field by field (Delivery). A tick is bounded, leaves other rows alone and publishes
    exactly the transitions; but rows without an upstream id can starve all others (Reconciler).

    \<^item> Of the store: an upsert updates one key of an abstract map, what is written is read back, and the list
    of rows to poll is exact, except that a cut connection looks like its end (Store).

    \<^item> Of the catalogue: paging advances, the fan-out is the pages up to its stop without duplicates,
    and two books are duplicates exactly when title, first author, series and index agree after normalisation
    (Books). The routes only read, pass on the listed headers only, and deliver no byte without a
    token (CatalogApi) that is signed, unexpired and for this very resource (Tokens). The API key
    is sent to the configured host only, through redirects as well (Client).

    \<^item> Of the configuration: the stored row round-trips, the first customised one sticks (AppConfig), and what
    the admin API shows can be sent back unchanged (Answers). But a save from the admin page loses the signing
    secret and nothing else (AdminPage), after which the next \<open>Configure\<close> locks all media (Plugin). No
    interleaving of saves and \<open>Configure\<close> calls loses the API key altogether, but one can lose a change of
    it, and a \<open>Configure\<close> can undo a save in the running plugin (ConfigRaces). Wiring is never half
    done, and before it the plugin is inert (Plugin). No mix of \<open>Configure\<close> calls leaks a pool, but two that overlap
    can leave every part of the plugin on a closed one (Pools).

    \<^item> Of the HTTP surface: the adapter answers every call and accepts exactly the method tokens of RFC 7230,
    no route touches the requests, only a PATCH changes the server (HttpRoutes, Server), and every route
    answers with a text of its JSON type or an error (Answers). No text of an answer becomes markup of the admin
    page, and its badge and strip say what the diagnostics found (PageRender).

  \<^bold>\<open>Bounds and fuel.\<close> The JSON parser runs on fuel, twice the length of the text and four more; \<open>json_prefix_fuel\<close>
  shows that no parse stops for lack of it. The redirect loop ends after the
  ten requests that the code allows, the fan-out after its own bound. Everything else is total by structural
  recursion or a measure.

  \<^bold>\<open>Parameters.\<close> Code that is not in the repository is an argument of the model: the JWT library
  (\<open>jwt_contract\<close>), the router go-chi (\<open>chi_contract\<close>), pgx and golang-migrate (\<open>host_setup\<close>; their
  effect on the tables is that of the repository's SQL), the decoder of the manifest, and the text of the admin page. A theorem
  that needs a contract names it, and its witness instantiates the parameter.

  \<^bold>\<open>Not modelled.\<close> Locks and atomic pointers: a call sees one configuration of the client, and a call is
  atomic except in Interleaving, ConfigRaces and Pools. What a closed pool does to the calls that still use it: they meet
  failures of the database, which the environment has anyway. Log lines. The fixed HTML and CSS of
  the admin page, its tabs and the texts it shows while it waits. The serving of the SDK. Several databases: all
  DSNs that the host configures are taken to name the same one. The \<open>Referer\<close> of a redirect, JSON's limit on
  nesting, numbers that are not finite (protobuf and JSON have none in what the plugin reads), the wording
  of the errors of the standard library's parsers.
\<close>

end
